theory Spec2Isabelle
  imports Main
begin

section \<open>The user seeder: exceptions, output and the outside world\<close>

text \<open>
  The script \<^verbatim>\<open>seeds/user_seed.py\<close> loads its settings from the environment, parses one
  command-line flag and seeds the \<^verbatim>\<open>users\<close> table with fake records. Python exceptions are
  values of \<open>exn\<close>; the three constructors are the three classes the handlers of
  \<^verbatim>\<open>seed_users\<close> tell apart. A \<open>ValidationError\<close> carries the model's name and one
  (field, message) pair per failing field, as pydantic's error does; the other two carry
  their text. \<open>OtherError\<close> stands for every other exception of the class \<^verbatim>\<open>Exception\<close>.
  Exceptions outside that class (a keyboard interrupt, \<^verbatim>\<open>SystemExit\<close>) are raised by no call
  the script makes after its settings have loaded, and are not modelled.

  The repository's second file, \<^verbatim>\<open>tests/unit/test_database.py\<close>, is an earlier copy of the
  same script, without the password and the salt; its \<^verbatim>\<open>generate_fake_user\<close> and
  \<^verbatim>\<open>seed_users\<close> have the structure modelled here.
\<close>

datatype exn =
    IntegrityError string
  | ValidationError string "(string \<times> string) list"
  | OtherError string

text \<open>
  One iteration of the generator's loop asks Faker for a password, a first name, a last name,
  a unique email and a unique user name, in this order. \<open>Drawn\<close> holds the five values;
  \<open>FakerError\<close> is an exception raised by one of the five calls.
\<close>

datatype draw = Drawn string string string string string | FakerError exn

text \<open>What argparse does, in the order of the command line, until it returns or leaves:
  it meets the flag with a value, it meets the help flag, or it reports a usage error.\<close>

datatype event = Flag string | Help | UsageError

text \<open>The pydantic model \<^verbatim>\<open>UserData\<close> and the row class \<^verbatim>\<open>User\<close>. The columns \<^verbatim>\<open>id\<close>,
  \<^verbatim>\<open>created_at\<close> and \<^verbatim>\<open>updated_at\<close> get their defaults from the ORM when a row is inserted;
  the script never sets or reads them, and they are left out.\<close>

record user_data =
  first_name :: string
  last_name :: string
  email :: string
  username :: string
  password :: string

record user =
  first_name :: string
  last_name :: string
  email :: string
  username :: string
  password :: string

record settings =
  db_host :: string
  db_user :: string
  db_password :: string
  db_name :: string
  db_port :: "int option"
  salt :: string

text \<open>The calls the script makes on the engine and the session, in a log; \<^verbatim>\<open>add_all\<close> is
  logged with the list it is given.\<close>

datatype store_op =
  CreateAll | QueryEmails | QueryUsernames | AddAll "user list" | Commit | Rollback | Close

text \<open>
  Everything the script takes from outside itself:
  \<^item> \<open>environ\<close>: the variables as pydantic-settings finds them, in the process environment
    after \<^verbatim>\<open>load_dotenv()\<close> and in the file \<^verbatim>\<open>.env\<close>; it compares names without regard to
    case, and the names are written here in upper case;
  \<^item> \<open>pydantic_optional_int\<close>: pydantic's reading of a field of type \<^verbatim>\<open>Optional[int]\<close> from
    a string: the value, or the message of the error;
  \<^item> \<open>extra_inputs\<close>: the errors pydantic-settings reports for entries of the file
    \<^verbatim>\<open>.env\<close> that carry the prefix and belong to no field (\<^verbatim>\<open>Extra inputs are not permitted\<close>,
    in the versions that report them), as (name, message) pairs; none when the file has
    no such entry;
  \<^item> \<open>validation_text\<close>: the text \<^verbatim>\<open>str\<close> gives for a pydantic \<^verbatim>\<open>ValidationError\<close> with a
    given title and given (field, message) pairs;
  \<^item> \<open>create_engine url\<close>: the exception, if any, that \<^verbatim>\<open>create_engine\<close> raises for the URL
    (one it cannot parse, a driver that is not installed);
  \<^item> \<open>py_int\<close>: Python's \<^verbatim>\<open>int\<close>, the \<^verbatim>\<open>type\<close> of the command-line flag, \<open>None\<close> where it
    raises \<^verbatim>\<open>ValueError\<close>;
  \<^item> \<open>argparse_events option_strings argv\<close>: how argparse reads the command line \<open>argv\<close>
    for a parser with the help flag and one more optional argument with the given
    option strings: the events in their order, and whether arguments are left over
    that it does not recognise. Which spellings stand for a flag (abbreviations,
    \<^verbatim>\<open>--number=5\<close>, \<^verbatim>\<open>-n5\<close>), and which strings count as its value, is argparse's part;
  \<^item> \<open>validate_email\<close>: the \<^verbatim>\<open>EmailStr\<close> check: the normalised address, or the message of
    the error for an address it rejects;
  \<^item> \<open>pwd_context_hash k\<close>: the \<open>k\<close>-th call of \<^verbatim>\<open>pwd_context.hash\<close> (bcrypt salts every
    call afresh), which may raise;
  \<^item> \<open>unique_violation column value\<close>: the text of the \<^verbatim>\<open>IntegrityError\<close> the driver raises
    when a row is inserted whose value in a \<^verbatim>\<open>unique\<close> column is already in the table;
  \<^item> \<open>fake n\<close>: what Faker returns in the \<open>n\<close>-th iteration of the generator's loop;
  \<^item> \<open>fault op\<close>: the exception, if any, that the store raises in \<open>op\<close>.
\<close>

record env =
  environ :: "string \<rightharpoonup> string"
  pydantic_optional_int :: "string \<Rightarrow> string + int option"
  extra_inputs :: "(string \<times> string) list"
  validation_text :: "string \<Rightarrow> (string \<times> string) list \<Rightarrow> string"
  create_engine :: "string \<Rightarrow> exn option"
  py_int :: "string \<Rightarrow> int option"
  argparse_events :: "string list \<Rightarrow> string list \<Rightarrow> event list \<times> bool"
  validate_email :: "string \<Rightarrow> string + string"
  pwd_context_hash :: "nat \<Rightarrow> string \<Rightarrow> exn + string"
  unique_violation :: "string \<Rightarrow> string \<Rightarrow> string"
  fake :: "nat \<Rightarrow> draw"
  fault :: "store_op \<Rightarrow> exn option"

text \<open>
  The state a run changes: the texts the script's \<^verbatim>\<open>print\<close> calls write, one entry per
  call; the log of store calls; the committed rows of the \<^verbatim>\<open>users\<close> table; the objects
  added to the session and not yet committed; and the number of draws taken from Faker.
  What the libraries write themselves is not listed: the statements the engine logs
  under \<^verbatim>\<open>echo=True\<close>, the help and the usage messages of argparse, the traceback of an
  exception that is not handled.
\<close>

record state =
  stdout :: "string list"
  ops :: "store_op list"
  table :: "user list"
  pending :: "user list"
  drawn :: nat

subsection \<open>Printing\<close>

definition digit :: "nat \<Rightarrow> char" where
  "digit d = ''0123456789'' ! d"

fun str_nat :: "nat \<Rightarrow> string" where
  "str_nat n = (if n < 10 then [digit n] else str_nat (n div 10) @ [digit (n mod 10)])"

declare str_nat.simps [simp del]

definition str_int :: "int \<Rightarrow> string" where
  "str_int i = (if i < 0 then CHR ''-'' # str_nat (nat (- i)) else str_nat (nat i))"

definition print :: "string \<Rightarrow> state \<Rightarrow> state" where
  "print text' s = s\<lparr>stdout := stdout s @ [text']\<rparr>"

text \<open>\<^verbatim>\<open>str(e)\<close>: the text an exception carries; pydantic builds the text of a
  \<^verbatim>\<open>ValidationError\<close> from its title and its errors.\<close>

definition str_exn :: "env \<Rightarrow> exn \<Rightarrow> string" where
  "str_exn w e =
     (case e of
        IntegrityError m \<Rightarrow> m
      | OtherError m \<Rightarrow> m
      | ValidationError title errs \<Rightarrow> validation_text w title errs)"

text \<open>\<^verbatim>\<open>print(label, e)\<close>: the label, a space and the text of the exception.\<close>

definition print_exn :: "env \<Rightarrow> string \<Rightarrow> exn \<Rightarrow> state \<Rightarrow> state" where
  "print_exn w label e s = print (label @ '' '' @ str_exn w e) s"

section \<open>Settings\<close>

text \<open>
  \<^verbatim>\<open>Settings()\<close> reads every field from the variable named by the prefix of the \<^verbatim>\<open>Config\<close>
  class and the field's own name: \<^verbatim>\<open>DB_\<close> and \<^verbatim>\<open>db_host\<close> give \<^verbatim>\<open>DB_DB_HOST\<close>. The entry
  \<^verbatim>\<open>fields\<close> of \<^verbatim>\<open>Config\<close> is a key of pydantic 1 that pydantic-settings does not read,
  so the salt is read like the other fields, from \<^verbatim>\<open>DB_SALT\<close>. A field without a default
  whose variable is not set is an error; \<^verbatim>\<open>db_port\<close> defaults to 5432 and is an error when
  its variable is set to something pydantic does not read as an integer. pydantic reports
  all errors together, in the order of the fields, and with them the extra inputs it does
  not permit.
\<close>

definition field_required :: "env \<Rightarrow> string \<Rightarrow> string \<Rightarrow> (string \<times> string) list" where
  "field_required w field var =
     (case environ w var of None \<Rightarrow> [(field, ''Field required'')] | Some v \<Rightarrow> [])"

definition read_port :: "env \<Rightarrow> (string \<times> string) list + int option" where
  "read_port w =
     (case environ w ''DB_DB_PORT'' of
        None \<Rightarrow> Inr (Some 5432)
      | Some v \<Rightarrow>
          (case pydantic_optional_int w v of
             Inl msg \<Rightarrow> Inl [(''db_port'', msg)]
           | Inr p \<Rightarrow> Inr p))"

definition settings_errors :: "env \<Rightarrow> (string \<times> string) list" where
  "settings_errors w =
     field_required w ''db_host'' ''DB_DB_HOST''
     @ field_required w ''db_user'' ''DB_DB_USER''
     @ field_required w ''db_password'' ''DB_DB_PASSWORD''
     @ field_required w ''db_name'' ''DB_DB_NAME''
     @ (case read_port w of Inl errs \<Rightarrow> errs | Inr p \<Rightarrow> [])
     @ field_required w ''salt'' ''DB_SALT''
     @ extra_inputs w"

definition Settings :: "env \<Rightarrow> exn + settings" where
  "Settings w =
     (case (environ w ''DB_DB_HOST'', environ w ''DB_DB_USER'', environ w ''DB_DB_PASSWORD'',
            environ w ''DB_DB_NAME'', read_port w, environ w ''DB_SALT'', extra_inputs w) of
        (Some h, Some u, Some p, Some n, Inr port, Some s, []) \<Rightarrow>
          Inr \<lparr>db_host = h, db_user = u, db_password = p, db_name = n, db_port = port, salt = s\<rparr>
      | _ \<Rightarrow> Inl (ValidationError ''Settings'' (settings_errors w)))"

text \<open>The module's first statements: load the settings and print them, the salt cut to its
  first four characters; on a validation error print \<^verbatim>\<open>Configuration Error:\<close>, then the
  error, and leave with \<^verbatim>\<open>exit(1)\<close>.\<close>

definition load_settings :: "env \<Rightarrow> state \<Rightarrow> (int + settings) \<times> state" where
  "load_settings w s =
     (case Settings w of
        Inr cfg \<Rightarrow>
          (Inr cfg,
           print (''Loaded settings: db_host='' @ db_host cfg @ '', db_user='' @ db_user cfg
                  @ '', salt='' @ take 4 (salt cfg) @ ''****'') s)
      | Inl e \<Rightarrow> (Inl 1, print (str_exn w e) (print ''Configuration Error:'' s)))"

section \<open>Hashing and the record generator\<close>

text \<open>\<^verbatim>\<open>hash_password\<close> appends the salt to the password and hands the result to
  \<^verbatim>\<open>pwd_context.hash\<close>; \<open>k\<close> counts the calls.\<close>

definition hash_password :: "env \<Rightarrow> nat \<Rightarrow> string \<Rightarrow> string \<Rightarrow> exn + string" where
  "hash_password w k plain_password salt' =
     (let salted_password = plain_password @ salt' in pwd_context_hash w k salted_password)"

text \<open>The constructor of \<^verbatim>\<open>UserData\<close>: the \<^verbatim>\<open>EmailStr\<close> field is validated, the others are
  strings already. A rejected address raises \<^verbatim>\<open>ValidationError\<close> with the validator's
  message for the field \<^verbatim>\<open>email\<close>.\<close>

definition UserData :: "env \<Rightarrow> string \<Rightarrow> string \<Rightarrow> string \<Rightarrow> string \<Rightarrow> string \<Rightarrow> exn + user_data" where
  "UserData w fn ln em un pw =
     (case validate_email w em of
        Inl msg \<Rightarrow> Inl (ValidationError ''UserData'' [(''email'', msg)])
      | Inr em' \<Rightarrow>
          Inr \<lparr>user_data.first_name = fn, user_data.last_name = ln, user_data.email = em',
               user_data.username = un, user_data.password = pw\<rparr>)"

text \<open>
  \<^verbatim>\<open>generate_fake_user\<close>: the \<^verbatim>\<open>while True\<close> loop. \<open>n\<close> is the number of draws taken so far; the
  result is the number of draws taken at the end and either the exception that left the loop
  or the accepted candidate with the two sets as the function leaves them (Python's sets are
  changed in place). The function has no \<^verbatim>\<open>try\<close>: an exception of Faker or of the
  \<^verbatim>\<open>UserData\<close> constructor leaves it. A loop that never ends is the value \<open>None\<close>.
\<close>

partial_function (option) generate_fake_user ::
  "env \<Rightarrow> string set \<Rightarrow> string set \<Rightarrow> nat \<Rightarrow> (nat \<times> (exn + user_data \<times> string set \<times> string set)) option"
where
  "generate_fake_user w existing_emails existing_usernames n =
     (case fake w n of
        FakerError e \<Rightarrow> Some (Suc n, Inl e)
      | Drawn plain_password fn ln em un \<Rightarrow>
          (case UserData w fn ln em un plain_password of
             Inl e \<Rightarrow> Some (Suc n, Inl e)
           | Inr user_data \<Rightarrow>
               if user_data.email user_data \<notin> existing_emails
                  \<and> user_data.username user_data \<notin> existing_usernames
               then Some (Suc n, Inr (user_data,
                      insert (user_data.email user_data) existing_emails,
                      insert (user_data.username user_data) existing_usernames))
               else generate_fake_user w existing_emails existing_usernames (Suc n)))"

declare generate_fake_user.simps [code]

section \<open>The store and the session\<close>

definition log :: "store_op \<Rightarrow> state \<Rightarrow> state" where
  "log op s = s\<lparr>ops := ops s @ [op]\<rparr>"

text \<open>\<^verbatim>\<open>Base.metadata.create_all(engine)\<close> creates the table when it is absent and touches no
  row. The state holds the rows of the table; a table that is absent has none.\<close>

definition create_all :: "env \<Rightarrow> state \<Rightarrow> exn option \<times> state" where
  "create_all w s = (fault w CreateAll, log CreateAll s)"

text \<open>\<^verbatim>\<open>Session()\<close>: a new session holds no objects.\<close>

definition Session :: "state \<Rightarrow> state" where
  "Session s = s\<lparr>pending := []\<rparr>"

definition query_emails :: "env \<Rightarrow> state \<Rightarrow> (exn + string list) \<times> state" where
  "query_emails w s =
     ((case fault w QueryEmails of Some e \<Rightarrow> Inl e | None \<Rightarrow> Inr (map email (table s))),
      log QueryEmails s)"

definition query_usernames :: "env \<Rightarrow> state \<Rightarrow> (exn + string list) \<times> state" where
  "query_usernames w s =
     ((case fault w QueryUsernames of Some e \<Rightarrow> Inl e | None \<Rightarrow> Inr (map username (table s))),
      log QueryUsernames s)"

definition add_all :: "env \<Rightarrow> user list \<Rightarrow> state \<Rightarrow> exn option \<times> state" where
  "add_all w users s =
     (case fault w (AddAll users) of
        Some e \<Rightarrow> (Some e, log (AddAll users) s)
      | None \<Rightarrow> (None, (log (AddAll users) s)\<lparr>pending := pending s @ users\<rparr>))"

text \<open>The inserts of a flush, row by row, under the two \<^verbatim>\<open>unique=True\<close> columns.\<close>

fun insert_rows :: "env \<Rightarrow> user list \<Rightarrow> user list \<Rightarrow> exn + user list" where
  "insert_rows w rows [] = Inr rows"
| "insert_rows w rows (u # us) =
     (if email u \<in> set (map email rows)
      then Inl (IntegrityError (unique_violation w ''email'' (email u)))
      else if username u \<in> set (map username rows)
      then Inl (IntegrityError (unique_violation w ''username'' (username u)))
      else insert_rows w (rows @ [u]) us)"

text \<open>\<^verbatim>\<open>session.commit()\<close> is one transaction: the table takes all pending rows, or the
  call raises and the table keeps its rows.\<close>

definition commit :: "env \<Rightarrow> state \<Rightarrow> exn option \<times> state" where
  "commit w s =
     (case fault w Commit of
        Some e \<Rightarrow> (Some e, log Commit s)
      | None \<Rightarrow>
          (case insert_rows w (table s) (pending s) of
             Inl e \<Rightarrow> (Some e, log Commit s)
           | Inr rows \<Rightarrow> (None, (log Commit s)\<lparr>table := rows, pending := []\<rparr>)))"

definition rollback :: "env \<Rightarrow> state \<Rightarrow> exn option \<times> state" where
  "rollback w s =
     (case fault w Rollback of
        Some e \<Rightarrow> (Some e, log Rollback s)
      | None \<Rightarrow> (None, (log Rollback s)\<lparr>pending := []\<rparr>))"

definition close :: "env \<Rightarrow> state \<Rightarrow> exn option \<times> state" where
  "close w s =
     (case fault w Close of
        Some e \<Rightarrow> (Some e, log Close s)
      | None \<Rightarrow> (None, (log Close s)\<lparr>pending := []\<rparr>))"

section \<open>Seeding\<close>

text \<open>
  The \<^verbatim>\<open>for\<close> loop of \<^verbatim>\<open>seed_users\<close> over \<^verbatim>\<open>range(1, count + 1)\<close>, on the state, the two
  sets and \<^verbatim>\<open>users_to_add\<close>. It stops at the first exception, which it returns beside
  the state reached.
\<close>

fun generate_users ::
  "env \<Rightarrow> settings \<Rightarrow> int list \<Rightarrow> state \<times> string set \<times> string set \<times> user list
     \<Rightarrow> (exn option \<times> state \<times> string set \<times> string set \<times> user list) option"
where
  "generate_users w cfg [] L = Some (None, L)"
| "generate_users w cfg (i # is) (s, existing_emails, existing_usernames, users_to_add) =
     (let s1 = print (''Generating user '' @ str_int i @ ''...'') s in
      case generate_fake_user w existing_emails existing_usernames (drawn s1) of
        None \<Rightarrow> None
      | Some (n, Inl e) \<Rightarrow>
          Some (Some e, s1\<lparr>drawn := n\<rparr>, existing_emails, existing_usernames, users_to_add)
      | Some (n, Inr (user_data, existing_emails', existing_usernames')) \<Rightarrow>
          (let s2 = s1\<lparr>drawn := n\<rparr> in
           case hash_password w (length users_to_add) (user_data.password user_data) (salt cfg) of
             Inl e \<Rightarrow> Some (Some e, s2, existing_emails', existing_usernames', users_to_add)
           | Inr hashed_password \<Rightarrow>
               (let user = \<lparr>first_name = user_data.first_name user_data,
                            last_name = user_data.last_name user_data,
                            email = user_data.email user_data,
                            username = user_data.username user_data,
                            password = hashed_password\<rparr>;
                    s3 = print (''User '' @ str_int i @ '': '' @ username user @ '' created.'') s2
                in generate_users w cfg is
                     (s3, existing_emails', existing_usernames', users_to_add @ [user]))))"

text \<open>The end of the \<^verbatim>\<open>try\<close> block: \<^verbatim>\<open>add_all\<close>, \<^verbatim>\<open>commit\<close> and the report.\<close>

definition submit :: "env \<Rightarrow> user list \<Rightarrow> int \<Rightarrow> state \<Rightarrow> exn option \<times> state" where
  "submit w users_to_add count s =
     (let s1 = print ''Adding users to the session...'' s in
      case add_all w users_to_add s1 of
        (Some e, s2) \<Rightarrow> (Some e, s2)
      | (None, s2) \<Rightarrow>
          (let s3 = print ''Committing the session...'' s2 in
           case commit w s3 of
             (Some e, s4) \<Rightarrow> (Some e, s4)
           | (None, s4) \<Rightarrow>
               (None, print (''Successfully added '' @ str_int count
                              @ '' users to the database.'') s4)))"

text \<open>The whole \<^verbatim>\<open>try\<close> block: the exception that leaves it, if any, and the state.\<close>

definition seed_try :: "env \<Rightarrow> settings \<Rightarrow> int \<Rightarrow> state \<Rightarrow> (exn option \<times> state) option" where
  "seed_try w cfg count s =
     (let s1 = print ''Fetching existing emails and usernames to prevent duplicates...'' s in
      case query_emails w s1 of
        (Inl e, s2) \<Rightarrow> Some (Some e, s2)
      | (Inr emails, s2) \<Rightarrow>
          (case query_usernames w s2 of
             (Inl e, s3) \<Rightarrow> Some (Some e, s3)
           | (Inr usernames, s3) \<Rightarrow>
               (let existing_emails = set emails;
                    existing_usernames = set usernames;
                    s4 = print (''Found '' @ str_nat (card existing_emails)
                                @ '' existing emails and '' @ str_nat (card existing_usernames)
                                @ '' existing usernames.'') s3
                in case generate_users w cfg [1..count]
                          (s4, existing_emails, existing_usernames, []) of
                     None \<Rightarrow> None
                   | Some (Some e, s5, E, U, users_to_add) \<Rightarrow> Some (Some e, s5)
                   | Some (None, s5, E, U, users_to_add) \<Rightarrow>
                       Some (submit w users_to_add count s5))))"

text \<open>The three \<^verbatim>\<open>except\<close> clauses: each rolls back, then prints. An exception of
  \<^verbatim>\<open>rollback\<close> leaves the clause.\<close>

definition handler :: "env \<Rightarrow> exn \<Rightarrow> state \<Rightarrow> exn option \<times> state" where
  "handler w e s =
     (case e of
        IntegrityError m \<Rightarrow>
          (case rollback w s of
             (Some e', s1) \<Rightarrow> (Some e', s1)
           | (None, s1) \<Rightarrow> (None, print_exn w ''Integrity Error:'' e s1))
      | ValidationError t errs \<Rightarrow>
          (case rollback w s of
             (Some e', s1) \<Rightarrow> (Some e', s1)
           | (None, s1) \<Rightarrow> (None, print_exn w ''Validation Error:'' e s1))
      | OtherError m \<Rightarrow>
          (case rollback w s of
             (Some e', s1) \<Rightarrow> (Some e', s1)
           | (None, s1) \<Rightarrow> (None, print_exn w ''An unexpected error occurred:'' e s1)))"

text \<open>The \<^verbatim>\<open>finally\<close> clause.\<close>

definition finally_clause :: "env \<Rightarrow> state \<Rightarrow> exn option \<times> state" where
  "finally_clause w s =
     (case close w s of
        (Some e, s1) \<Rightarrow> (Some e, s1)
      | (None, s1) \<Rightarrow> (None, print ''Session closed.'' s1))"

text \<open>What follows the \<^verbatim>\<open>try\<close> block: the \<^verbatim>\<open>except\<close> clause of the exception that left it,
  if one did, then the \<^verbatim>\<open>finally\<close> clause. An exception of the \<^verbatim>\<open>finally\<close> clause replaces
  one that left the \<^verbatim>\<open>except\<close> clause.\<close>

definition except_finally :: "env \<Rightarrow> exn option \<Rightarrow> state \<Rightarrow> exn option \<times> state" where
  "except_finally w raised s =
     (let (left, s1) = (case raised of None \<Rightarrow> (None, s) | Some e \<Rightarrow> handler w e s) in
      case finally_clause w s1 of
        (Some e', s2) \<Rightarrow> (Some e', s2)
      | (None, s2) \<Rightarrow> (left, s2))"

text \<open>\<^verbatim>\<open>seed_users\<close>: the exception that leaves the function, if any, and the final state.
  \<^verbatim>\<open>create_all\<close> is called before the \<^verbatim>\<open>try\<close>, so its exception is not handled.\<close>

definition seed_users :: "env \<Rightarrow> settings \<Rightarrow> int \<Rightarrow> state \<Rightarrow> (exn option \<times> state) option" where
  "seed_users w cfg count s =
     (let s1 = print ''Creating tables if they don't exist...'' s in
      case create_all w s1 of
        (Some e, s2) \<Rightarrow> Some (Some e, s2)
      | (None, s2) \<Rightarrow>
          (let session = Session s2 in
           case seed_try w cfg count session of
             None \<Rightarrow> None
           | Some (raised, s3) \<Rightarrow> Some (except_finally w raised s3)))"

section \<open>The command line and the program\<close>

text \<open>
  \<^verbatim>\<open>parse_arguments\<close> declares one argument, the flag \<^verbatim>\<open>-n\<close>/\<^verbatim>\<open>--number\<close> of type \<^verbatim>\<open>int\<close> with
  the default 10; argparse adds the help flag. argparse takes its actions in the order of
  the command line: at the flag it calls \<^verbatim>\<open>int\<close> on the value and stores the number, or
  leaves with code 2 when \<^verbatim>\<open>int\<close> raises; at the help flag it prints the help and leaves
  with code 0; at a usage error it leaves with code 2.
\<close>

fun take_actions :: "env \<Rightarrow> event list \<Rightarrow> int \<Rightarrow> int + int" where
  "take_actions w [] number' = Inr number'"
| "take_actions w (Flag v # events) number' =
     (case py_int w v of None \<Rightarrow> Inl 2 | Some k \<Rightarrow> take_actions w events k)"
| "take_actions w (Help # events) number' = Inl 0"
| "take_actions w (UsageError # events) number' = Inl 2"

text \<open>
  How the command line is read. The readings that do not depend on argparse's rules for
  strings that begin with a dash are written out: no argument; the help flag alone; one
  argument without a dash, which the parser does not recognise; and the flag in one of
  its two spellings followed by a value without a dash. Every other command line is read
  as \<open>argparse_events\<close> says.
\<close>

definition dashed :: "string \<Rightarrow> bool" where
  "dashed a = (case a of [] \<Rightarrow> False | c # cs \<Rightarrow> c = CHR ''-'')"

definition read_command_line :: "env \<Rightarrow> string list \<Rightarrow> event list \<times> bool" where
  "read_command_line w argv =
     (case argv of
        [] \<Rightarrow> ([], False)
      | [a] \<Rightarrow>
          if a = ''-h'' \<or> a = ''--help'' then ([Help], False)
          else if dashed a then argparse_events w [''-n'', ''--number''] argv
          else ([], True)
      | [a, v] \<Rightarrow>
          if (a = ''-n'' \<or> a = ''--number'') \<and> \<not> dashed v then ([Flag v], False)
          else argparse_events w [''-n'', ''--number''] argv
      | _ \<Rightarrow> argparse_events w [''-n'', ''--number''] argv)"

text \<open>The result is the number, or the exit code argparse leaves with. Arguments left
  over are an error found at the end.\<close>

definition parse_arguments :: "env \<Rightarrow> string list \<Rightarrow> int + int" where
  "parse_arguments w argv =
     (let (events, unrecognized) = read_command_line w argv
      in case take_actions w events 10 of
           Inl code \<Rightarrow> Inl code
         | Inr number' \<Rightarrow> if unrecognized then Inl 2 else Inr number')"

text \<open>The URL the module builds from the settings; \<^verbatim>\<open>str\<close> of the port is \<^verbatim>\<open>None\<close> when the
  port is.\<close>

definition DATABASE_URL :: "settings \<Rightarrow> string" where
  "DATABASE_URL cfg =
     ''postgresql://'' @ db_user cfg @ '':'' @ db_password cfg @ ''@'' @ db_host cfg @ '':''
     @ (case db_port cfg of None \<Rightarrow> ''None'' | Some port \<Rightarrow> str_int port)
     @ ''/'' @ db_name cfg"

text \<open>
  The script run as a program: the module's statements, then \<^verbatim>\<open>main()\<close>. The result is the
  exit code and the final state, \<open>None\<close> when the run never ends. Python leaves with code 1
  when an exception is not handled, and with 0 when \<^verbatim>\<open>main\<close> returns.
\<close>

definition program :: "env \<Rightarrow> string list \<Rightarrow> state \<Rightarrow> (int \<times> state) option" where
  "program w argv s =
     (case load_settings w s of
        (Inl code, s1) \<Rightarrow> Some (code, s1)
      | (Inr cfg, s1) \<Rightarrow>
          (case create_engine w (DATABASE_URL cfg) of
             Some e \<Rightarrow> Some (1, s1)
           | None \<Rightarrow>
               (case parse_arguments w argv of
                  Inl code \<Rightarrow> Some (code, s1)
                | Inr number' \<Rightarrow>
                    (case seed_users w cfg number' s1 of
                       None \<Rightarrow> None
                     | Some (None, s2) \<Rightarrow> Some (0, s2)
                     | Some (Some e, s2) \<Rightarrow> Some (1, s2)))))"

section \<open>Vocabulary of the properties\<close>

text \<open>The candidate a draw gives: none when Faker or the \<^verbatim>\<open>UserData\<close> constructor raises.\<close>

definition candidate :: "env \<Rightarrow> draw \<Rightarrow> user_data option" where
  "candidate w d =
     (case d of
        FakerError e \<Rightarrow> None
      | Drawn pw fn ln em un \<Rightarrow>
          (case UserData w fn ln em un pw of Inl e \<Rightarrow> None | Inr ud \<Rightarrow> Some ud))"

text \<open>A draw collides when it gives a candidate whose email or user name is in the index:
  the one case in which the loop goes round again.\<close>

definition collides :: "env \<Rightarrow> string set \<Rightarrow> string set \<Rightarrow> draw \<Rightarrow> bool" where
  "collides w E U d =
     (case d of
        FakerError e \<Rightarrow> False
      | Drawn pw fn ln em un \<Rightarrow>
          (case UserData w fn ln em un pw of
             Inl e \<Rightarrow> False
           | Inr ud \<Rightarrow> user_data.email ud \<in> E \<or> user_data.username ud \<in> U))"

text \<open>What the loop leaves with at a draw that does not collide.\<close>

definition attempt ::
  "env \<Rightarrow> string set \<Rightarrow> string set \<Rightarrow> draw \<Rightarrow> exn + user_data \<times> string set \<times> string set" where
  "attempt w E U d =
     (case d of
        FakerError e \<Rightarrow> Inl e
      | Drawn pw fn ln em un \<Rightarrow>
          (case UserData w fn ln em un pw of
             Inl e \<Rightarrow> Inl e
           | Inr ud \<Rightarrow> Inr (ud, insert (user_data.email ud) E, insert (user_data.username ud) U)))"

text \<open>The result \<open>r\<close> of the loop started at draw \<open>n\<close>: for some \<open>m\<close> the draws
  \<open>n\<close>, ..., \<open>n + m - 1\<close> collide, draw \<open>n + m\<close> does not, and the loop leaves with what
  that draw gives, \<open>m + 1\<close> draws taken.\<close>

definition stops_at ::
  "env \<Rightarrow> string set \<Rightarrow> string set \<Rightarrow> nat
     \<Rightarrow> (nat \<times> (exn + user_data \<times> string set \<times> string set)) \<Rightarrow> bool" where
  "stops_at w E U n r \<longleftrightarrow>
     (\<exists>m. (\<forall>k<m. collides w E U (fake w (n + k))) \<and> \<not> collides w E U (fake w (n + m))
        \<and> r = (Suc (n + m), attempt w E U (fake w (n + m))))"

text \<open>
  \<^verbatim>\<open>fake.unique\<close> never returns a value it has returned before: no two draws that give a
  candidate give the same email, or the same user name. (When Faker finds no new value it
  raises; that draw is a \<open>FakerError\<close>.) This is Faker's part, and a hypothesis where a
  property needs it.
\<close>

definition unique_draws :: "env \<Rightarrow> bool" where
  "unique_draws w \<longleftrightarrow>
     (\<forall>i j a b. i \<noteq> j \<and> candidate w (fake w i) = Some a \<and> candidate w (fake w j) = Some b
        \<longrightarrow> user_data.email a \<noteq> user_data.email b \<and> user_data.username a \<noteq> user_data.username b)"

text \<open>The store calls a piece of the run adds to the log, and the texts it prints.\<close>

definition new_ops :: "state \<Rightarrow> state \<Rightarrow> store_op list" where
  "new_ops s s' = drop (length (ops s)) (ops s')"


text \<open>The state in which a run of \<^verbatim>\<open>seed_users\<close> from \<open>s\<close> enters its loop when
  \<^verbatim>\<open>create_all\<close> and the two queries raise nothing, and the two sets it enters it with:
  the emails and the user names of the rows the table holds when the run starts.\<close>

definition index_loaded :: "state \<Rightarrow> state" where
  "index_loaded s =
     print (''Found '' @ str_nat (card (set (map email (table s))))
            @ '' existing emails and '' @ str_nat (card (set (map username (table s))))
            @ '' existing usernames.'')
       (log QueryUsernames (log QueryEmails
          (print ''Fetching existing emails and usernames to prevent duplicates...''
             (Session (log CreateAll (print ''Creating tables if they don't exist...'' s))))))"

text \<open>The label of the \<^verbatim>\<open>except\<close> clause that catches an exception.\<close>

definition clause_label :: "exn \<Rightarrow> string" where
  "clause_label e =
     (case e of
        IntegrityError m \<Rightarrow> ''Integrity Error:''
      | ValidationError t errs \<Rightarrow> ''Validation Error:''
      | OtherError m \<Rightarrow> ''An unexpected error occurred:'')"

text \<open>The fields of \<^verbatim>\<open>Settings\<close> without a default, each with its variable.\<close>

definition required_fields :: "(string \<times> string) list" where
  "required_fields =
     [(''db_host'', ''DB_DB_HOST''), (''db_user'', ''DB_DB_USER''),
      (''db_password'', ''DB_DB_PASSWORD''), (''db_name'', ''DB_DB_NAME''),
      (''salt'', ''DB_SALT'')]"

subsection \<open>A concrete world\<close>

text \<open>
  A small world to run the definitions in: an environment with every variable set, an
  email check that asks for an \<^verbatim>\<open>@\<close>, a stand-in for the hash, a reading of the command
  line that knows the flag followed by its value and by the help flag, and a Faker that
  draws Ann, Bob and Cy, then an address without \<^verbatim>\<open>@\<close>, then Eve, and after that finds no
  new value and raises.
\<close>

definition demo_validate :: "string \<Rightarrow> string + string" where
  "demo_validate em =
     (if CHR ''@'' \<in> set em then Inr em
      else Inl ''value is not a valid email address: An email address must have an @-sign.'')"

definition demo_int :: "string \<Rightarrow> int option" where
  "demo_int = map_of [(''0'', 0), (''2'', 2), (''3'', 3), (''-2'', - 2), (''5432'', 5432)]"

definition demo_optional_int :: "string \<Rightarrow> string + int option" where
  "demo_optional_int v =
     (case demo_int v of
        None \<Rightarrow> Inl ''Input should be a valid integer, unable to parse string as an integer''
      | Some p \<Rightarrow> Inr (Some p))"

definition demo_text :: "string \<Rightarrow> (string \<times> string) list \<Rightarrow> string" where
  "demo_text title errs =
     str_nat (length errs) @ '' validation error'' @ (if length errs = 1 then [] else ''s'')
     @ '' for '' @ title @ concat (map (\<lambda>(loc, msg). '' / '' @ loc @ '': '' @ msg) errs)"

definition demo_events :: "string list \<Rightarrow> string list \<Rightarrow> event list \<times> bool" where
  "demo_events option_strings argv =
     (case argv of
        [a] \<Rightarrow> if a \<in> set option_strings then ([UsageError], False) else ([], True)
      | [a, v] \<Rightarrow> if a \<in> set option_strings then ([Flag v], False) else ([], True)
      | [a, v, b] \<Rightarrow> if a \<in> set option_strings \<and> b = ''-h'' then ([Flag v, Help], False)
                    else ([], True)
      | _ \<Rightarrow> ([], True))"

definition demo_fake :: "nat \<Rightarrow> draw" where
  "demo_fake n =
     (if n = 0 then Drawn ''pw0'' ''Ann'' ''Lee'' ''ann@x.org'' ''ann''
      else if n = 1 then Drawn ''pw1'' ''Bob'' ''Ray'' ''bob@x.org'' ''bob''
      else if n = 2 then Drawn ''pw2'' ''Cy'' ''Roe'' ''cy@x.org'' ''cy''
      else if n = 3 then Drawn ''pw3'' ''Di'' ''Poe'' ''di-at-x.org'' ''di''
      else if n = 4 then Drawn ''pw4'' ''Eve'' ''Fox'' ''eve@x.org'' ''eve''
      else FakerError (OtherError ''Got duplicated values after 1,000 iterations.''))"

definition demo_env :: env where
  "demo_env =
     \<lparr>environ = map_of [(''DB_DB_HOST'', ''localhost''), (''DB_DB_USER'', ''seeder''),
                         (''DB_DB_PASSWORD'', ''secret''), (''DB_DB_NAME'', ''app''),
                         (''DB_SALT'', ''pepper123'')],
      pydantic_optional_int = demo_optional_int,
      extra_inputs = [],
      validation_text = demo_text,
      create_engine = (\<lambda>url. None),
      py_int = demo_int,
      argparse_events = demo_events,
      validate_email = demo_validate,
      pwd_context_hash = (\<lambda>k x. Inr (''$2b$12$'' @ rev x)),
      unique_violation = (\<lambda>column value. ''duplicate key value violates unique constraint users_''
                            @ column @ ''_key''),
      fake = demo_fake,
      fault = (\<lambda>op. None)\<rparr>"

definition demo_cfg :: settings where
  "demo_cfg =
     \<lparr>db_host = ''localhost'', db_user = ''seeder'', db_password = ''secret'', db_name = ''app'',
      db_port = Some 5432, salt = ''pepper123''\<rparr>"

definition demo_state :: state where
  "demo_state = \<lparr>stdout = [], ops = [], table = [], pending = [], drawn = 0\<rparr>"

definition ann :: user where
  "ann = \<lparr>first_name = ''Ann'', last_name = ''Lee'', email = ''ann@x.org'', username = ''ann'',
          password = ''$2b$12$321reppep0wp''\<rparr>"

definition bob :: user where
  "bob = \<lparr>first_name = ''Bob'', last_name = ''Ray'', email = ''bob@x.org'', username = ''bob'',
          password = ''$2b$12$321reppep1wp''\<rparr>"

definition cy :: user where
  "cy = \<lparr>first_name = ''Cy'', last_name = ''Roe'', email = ''cy@x.org'', username = ''cy'',
         password = ''$2b$12$321reppep2wp''\<rparr>"

definition ann_data :: user_data where
  "ann_data = \<lparr>user_data.first_name = ''Ann'', user_data.last_name = ''Lee'',
               user_data.email = ''ann@x.org'', user_data.username = ''ann'',
               user_data.password = ''pw0''\<rparr>"

definition bob_data :: user_data where
  "bob_data = \<lparr>user_data.first_name = ''Bob'', user_data.last_name = ''Ray'',
               user_data.email = ''bob@x.org'', user_data.username = ''bob'',
               user_data.password = ''pw1''\<rparr>"

definition cy_data :: user_data where
  "cy_data = \<lparr>user_data.first_name = ''Cy'', user_data.last_name = ''Roe'',
              user_data.email = ''cy@x.org'', user_data.username = ''cy'',
              user_data.password = ''pw2''\<rparr>"

definition eve_data :: user_data where
  "eve_data = \<lparr>user_data.first_name = ''Eve'', user_data.last_name = ''Fox'',
               user_data.email = ''eve@x.org'', user_data.username = ''eve'',
               user_data.password = ''pw4''\<rparr>"

definition no_at_sign :: exn where
  "no_at_sign =
     ValidationError ''UserData''
       [(''email'', ''value is not a valid email address: An email address must have an @-sign.'')]"

text \<open>A table that holds Ann's row, and the state a run with the count \<open>-2\<close> ends in
  from there.\<close>

definition demo_seeded :: state where
  "demo_seeded = \<lparr>stdout = [], ops = [], table = [ann], pending = [], drawn = 0\<rparr>"

definition demo_nonpositive :: state where
  "demo_nonpositive =
     \<lparr>stdout =
        [''Creating tables if they don't exist...'',
         ''Fetching existing emails and usernames to prevent duplicates...'',
         ''Found 1 existing emails and 1 existing usernames.'',
         ''Adding users to the session...'', ''Committing the session...'',
         ''Successfully added -2 users to the database.'',
         ''Session closed.''],
      ops = [CreateAll, QueryEmails, QueryUsernames, AddAll [], Commit, Close],
      table = [ann], pending = [], drawn = 0\<rparr>"

text \<open>The state a run of the concrete world ends in after seeding two records into the
  table that holds Ann's row: Ann is drawn first and collides, Bob and Cy are accepted.\<close>

definition demo_final :: state where
  "demo_final =
     \<lparr>stdout =
        [''Creating tables if they don't exist...'',
         ''Fetching existing emails and usernames to prevent duplicates...'',
         ''Found 1 existing emails and 1 existing usernames.'',
         ''Generating user 1...'', ''User 1: bob created.'',
         ''Generating user 2...'', ''User 2: cy created.'',
         ''Adding users to the session...'', ''Committing the session...'',
         ''Successfully added 2 users to the database.'',
         ''Session closed.''],
      ops = [CreateAll, QueryEmails, QueryUsernames, AddAll [bob, cy], Commit, Close],
      table = [ann, bob, cy], pending = [], drawn = 3\<rparr>"

text \<open>The state in which the loop of that run ends.\<close>

definition demo_looped :: state where
  "demo_looped =
     \<lparr>stdout =
        [''Creating tables if they don't exist...'',
         ''Fetching existing emails and usernames to prevent duplicates...'',
         ''Found 1 existing emails and 1 existing usernames.'',
         ''Generating user 1...'', ''User 1: bob created.'',
         ''Generating user 2...'', ''User 2: cy created.''],
      ops = [CreateAll, QueryEmails, QueryUsernames],
      table = [ann], pending = [], drawn = 3\<rparr>"

text \<open>The driver's error for an email that is in the table already; the concrete world
  with a store whose commit raises it (another session has inserted the email), one that refuses
  \<^verbatim>\<open>add_all\<close>, one that refuses \<^verbatim>\<open>create_all\<close>, and one whose first query fails.\<close>

definition duplicate_email :: exn where
  "duplicate_email =
     IntegrityError ''duplicate key value violates unique constraint users_email_key''"

definition demo_commit_fault :: env where
  "demo_commit_fault = demo_env\<lparr>fault := \<lambda>op. if op = Commit then Some duplicate_email else None\<rparr>"

definition demo_add_all_fault :: env where
  "demo_add_all_fault =
     demo_env\<lparr>fault := \<lambda>op. case op of AddAll users \<Rightarrow> Some (OtherError ''connection lost'')
                                | _ \<Rightarrow> None\<rparr>"

definition demo_create_fault :: env where
  "demo_create_fault =
     demo_env\<lparr>fault := \<lambda>op. if op = CreateAll then Some (OtherError ''connection refused'') else None\<rparr>"

definition demo_query_fault :: env where
  "demo_query_fault =
     demo_env\<lparr>fault := \<lambda>op. if op = QueryEmails then Some (OtherError ''connection lost'') else None\<rparr>"

text \<open>States the concrete worlds reach: after a \<^verbatim>\<open>commit\<close> of Ann's record a second time,
  which the table refuses; at the end of the run whose commit the store refuses; and at
  the end of the run whose \<^verbatim>\<open>add_all\<close> the store refuses.\<close>

definition demo_submit_failed :: state where
  "demo_submit_failed =
     \<lparr>stdout = [''Adding users to the session...'', ''Committing the session...''],
      ops = [AddAll [ann], Commit], table = [ann], pending = [ann], drawn = 0\<rparr>"

definition demo_rolled_back :: state where
  "demo_rolled_back =
     \<lparr>stdout =
        [''Creating tables if they don't exist...'',
         ''Fetching existing emails and usernames to prevent duplicates...'',
         ''Found 1 existing emails and 1 existing usernames.'',
         ''Generating user 1...'', ''User 1: bob created.'',
         ''Generating user 2...'', ''User 2: cy created.'',
         ''Adding users to the session...'', ''Committing the session...'',
         ''Integrity Error: duplicate key value violates unique constraint users_email_key'',
         ''Session closed.''],
      ops = [CreateAll, QueryEmails, QueryUsernames, AddAll [bob, cy], Commit, Rollback, Close],
      table = [ann], pending = [], drawn = 3\<rparr>"

definition demo_not_added :: state where
  "demo_not_added =
     \<lparr>stdout =
        [''Creating tables if they don't exist...'',
         ''Fetching existing emails and usernames to prevent duplicates...'',
         ''Found 1 existing emails and 1 existing usernames.'',
         ''Generating user 1...'', ''User 1: bob created.'',
         ''Generating user 2...'', ''User 2: cy created.'',
         ''Adding users to the session...'',
         ''An unexpected error occurred: connection lost'', ''Session closed.''],
      ops = [CreateAll, QueryEmails, QueryUsernames, AddAll [bob, cy], Rollback, Close],
      table = [ann], pending = [], drawn = 3\<rparr>"

text \<open>A run for four records on the empty table: Ann, Bob and Cy are accepted, the fourth
  draw has the address without \<^verbatim>\<open>@\<close>. The state in which the loop ends, and the state
  in which the run ends.\<close>

definition demo_loop_raised :: state where
  "demo_loop_raised =
     \<lparr>stdout =
        [''Creating tables if they don't exist...'',
         ''Fetching existing emails and usernames to prevent duplicates...'',
         ''Found 0 existing emails and 0 existing usernames.'',
         ''Generating user 1...'', ''User 1: ann created.'',
         ''Generating user 2...'', ''User 2: bob created.'',
         ''Generating user 3...'', ''User 3: cy created.'',
         ''Generating user 4...''],
      ops = [CreateAll, QueryEmails, QueryUsernames],
      table = [], pending = [], drawn = 4\<rparr>"

definition demo_validation_failed :: state where
  "demo_validation_failed =
     \<lparr>stdout =
        [''Creating tables if they don't exist...'',
         ''Fetching existing emails and usernames to prevent duplicates...'',
         ''Found 0 existing emails and 0 existing usernames.'',
         ''Generating user 1...'', ''User 1: ann created.'',
         ''Generating user 2...'', ''User 2: bob created.'',
         ''Generating user 3...'', ''User 3: cy created.'',
         ''Generating user 4...'',
         ''Validation Error: 1 validation error for UserData / email: value is not a valid email address: An email address must have an @-sign.'',
         ''Session closed.''],
      ops = [CreateAll, QueryEmails, QueryUsernames, Rollback, Close],
      table = [], pending = [], drawn = 4\<rparr>"

text \<open>Environments: one without the password and the salt, one with a port that is no
  number, one whose file \<^verbatim>\<open>.env\<close> has an entry \<^verbatim>\<open>DB_HOST\<close> that pydantic-settings does not
  permit, one with another salt, and one that also sets a variable \<^verbatim>\<open>SALT\<close>, which no
  field is read from.\<close>

definition demo_missing :: env where
  "demo_missing =
     demo_env\<lparr>environ := (environ demo_env)(''DB_DB_PASSWORD'' := None, ''DB_SALT'' := None)\<rparr>"

definition demo_bad_port :: env where
  "demo_bad_port = demo_env\<lparr>environ := (environ demo_env)(''DB_DB_PORT'' \<mapsto> ''fivefourthreetwo'')\<rparr>"

definition demo_extra :: env where
  "demo_extra = demo_env\<lparr>extra_inputs := [(''host'', ''Extra inputs are not permitted'')]\<rparr>"



text \<open>The concrete world without the driver of the database.\<close>

definition demo_no_driver :: env where
  "demo_no_driver =
     demo_env\<lparr>create_engine := \<lambda>url. Some (OtherError ''No module named psycopg2'')\<rparr>"

section \<open>Printing and logging leave the rest of the state alone\<close>

lemma print_fields [simp]:
  "stdout (print l s) = stdout s @ [l]" "ops (print l s) = ops s" "table (print l s) = table s"
  "pending (print l s) = pending s" "drawn (print l s) = drawn s"
  by (simp_all add: print_def)

lemma print_exn_fields [simp]:
  "stdout (print_exn w l e s) = stdout s @ [l @ '' '' @ str_exn w e]"
  "ops (print_exn w l e s) = ops s" "table (print_exn w l e s) = table s"
  "pending (print_exn w l e s) = pending s" "drawn (print_exn w l e s) = drawn s"
  by (simp_all add: print_exn_def)

lemma log_fields [simp]:
  "stdout (log op s) = stdout s" "ops (log op s) = ops s @ [op]" "table (log op s) = table s"
  "pending (log op s) = pending s" "drawn (log op s) = drawn s"
  by (simp_all add: log_def)

lemma Session_fields [simp]:
  "stdout (Session s) = stdout s" "ops (Session s) = ops s" "table (Session s) = table s"
  "pending (Session s) = []" "drawn (Session s) = drawn s"
  by (simp_all add: Session_def)

lemma index_loaded_fields [simp]:
  "ops (index_loaded s) = ops s @ [CreateAll, QueryEmails, QueryUsernames]"
  "table (index_loaded s) = table s" "pending (index_loaded s) = []"
  "drawn (index_loaded s) = drawn s"
  by (simp_all add: index_loaded_def)

section \<open>The generator's loop\<close>

lemma gen_retry:
  "collides w E U (fake w n) \<Longrightarrow> generate_fake_user w E U n = generate_fake_user w E U (Suc n)"
proof (cases "fake w n")
  case (FakerError e)
  then show "collides w E U (fake w n) \<Longrightarrow> ?thesis" by (simp add: collides_def)
next
  case (Drawn pw fn ln em un)
  assume c: "collides w E U (fake w n)"
  show ?thesis
  proof (cases "UserData w fn ln em un pw")
    case (Inl e)
    with c Drawn show ?thesis by (simp add: collides_def)
  next
    case (Inr ud)
    with c Drawn have "\<not> (user_data.email ud \<notin> E \<and> user_data.username ud \<notin> U)"
      by (simp add: collides_def)
    with Drawn Inr show ?thesis
      by (subst generate_fake_user.simps) (simp, blast)
  qed
qed

lemma gen_stop:
  "\<not> collides w E U (fake w n) \<Longrightarrow>
   generate_fake_user w E U n = Some (Suc n, attempt w E U (fake w n))"
proof (cases "fake w n")
  case (FakerError e)
  then show ?thesis by (subst generate_fake_user.simps) (simp add: attempt_def)
next
  case (Drawn pw fn ln em un)
  assume c: "\<not> collides w E U (fake w n)"
  show ?thesis
  proof (cases "UserData w fn ln em un pw")
    case (Inl e)
    with Drawn show ?thesis by (subst generate_fake_user.simps) (simp add: attempt_def)
  next
    case (Inr ud)
    with c Drawn have "user_data.email ud \<notin> E \<and> user_data.username ud \<notin> U"
      by (simp add: collides_def)
    with Drawn Inr show ?thesis
      by (subst generate_fake_user.simps) (simp add: attempt_def)
  qed
qed

lemma gen_retries:
  "(\<forall>k<m. collides w E U (fake w (n + k))) \<Longrightarrow>
   generate_fake_user w E U n = generate_fake_user w E U (n + m)"
proof (induction m arbitrary: n)
  case 0
  then show ?case by simp
next
  case (Suc m)
  have "collides w E U (fake w n)" using Suc.prems[rule_format, of 0] by simp
  then have "generate_fake_user w E U n = generate_fake_user w E U (Suc n)" by (rule gen_retry)
  also have "\<dots> = generate_fake_user w E U (Suc n + m)"
  proof (rule Suc.IH)
    show "\<forall>k<m. collides w E U (fake w (Suc n + k))"
    proof (intro allI impI)
      fix k assume "k < m"
      then have "Suc k < Suc m" by simp
      from Suc.prems[rule_format, OF this] show "collides w E U (fake w (Suc n + k))" by simp
    qed
  qed
  finally show ?case by simp
qed

text \<open>Whatever the loop returns, it returns at the first draw that does not collide.\<close>

lemma gen_Some_stops:
  assumes "generate_fake_user w E U n = Some r"
  shows "stops_at w E U n r"
proof (rule generate_fake_user.raw_induct[where P = stops_at, OF _ assms])
  fix gen :: "env \<Rightarrow> string set \<Rightarrow> string set \<Rightarrow> nat
                \<Rightarrow> (nat \<times> (exn + user_data \<times> string set \<times> string set)) option"
  fix w E U n r
  assume IH: "\<And>w E U n r. gen w E U n = Some r \<Longrightarrow> stops_at w E U n r"
  assume step: "(case fake w n of
        Drawn plain_password fn ln em un \<Rightarrow>
          (case UserData w fn ln em un plain_password of
             Inl e \<Rightarrow> Some (Suc n, Inl e)
           | Inr user_data \<Rightarrow>
               if user_data.email user_data \<notin> E \<and> user_data.username user_data \<notin> U
               then Some (Suc n, Inr (user_data, insert (user_data.email user_data) E,
                      insert (user_data.username user_data) U))
               else gen w E U (Suc n))
      | FakerError e \<Rightarrow> Some (Suc n, Inl e)) = Some r"
  show "stops_at w E U n r"
  proof (cases "collides w E U (fake w n)")
    case False
    have "r = (Suc n, attempt w E U (fake w n))"
    proof (cases "fake w n")
      case (FakerError e)
      with step show ?thesis by (simp add: attempt_def)
    next
      case (Drawn pw fn ln em un)
      show ?thesis
      proof (cases "UserData w fn ln em un pw")
        case (Inl e)
        with step Drawn show ?thesis by (simp add: attempt_def)
      next
        case (Inr ud)
        with False Drawn have "user_data.email ud \<notin> E \<and> user_data.username ud \<notin> U"
          by (simp add: collides_def)
        with step Drawn Inr show ?thesis by (simp add: attempt_def)
      qed
    qed
    with False show ?thesis unfolding stops_at_def by (intro exI[of _ 0]) simp
  next
    case True
    have "gen w E U (Suc n) = Some r"
    proof (cases "fake w n")
      case (FakerError e)
      with True show ?thesis by (simp add: collides_def)
    next
      case (Drawn pw fn ln em un)
      show ?thesis
      proof (cases "UserData w fn ln em un pw")
        case (Inl e)
        with True Drawn show ?thesis by (simp add: collides_def)
      next
        case (Inr ud)
        with True Drawn have "\<not> (user_data.email ud \<notin> E \<and> user_data.username ud \<notin> U)"
          by (simp add: collides_def)
        with step Drawn Inr show ?thesis by simp
      qed
    qed
    from IH[OF this] obtain m where m: "\<forall>k<m. collides w E U (fake w (Suc n + k))"
      "\<not> collides w E U (fake w (Suc n + m))" "r = (Suc (Suc n + m), attempt w E U (fake w (Suc n + m)))"
      unfolding stops_at_def by (elim exE conjE)
    have "\<forall>k<Suc m. collides w E U (fake w (n + k))"
    proof (intro allI impI)
      fix k assume k: "k < Suc m"
      show "collides w E U (fake w (n + k))"
      proof (cases k)
        case 0
        with True show ?thesis by simp
      next
        case (Suc j)
        with k have "j < m" by simp
        with m(1) have "collides w E U (fake w (Suc n + j))" by blast
        with Suc show ?thesis by simp
      qed
    qed
    with m(2,3) show ?thesis unfolding stops_at_def by (intro exI[of _ "Suc m"]) simp
  qed
qed

lemma candidate_attempt:
  "candidate w d = Some ud \<Longrightarrow>
   attempt w E U d = Inr (ud, insert (user_data.email ud) E, insert (user_data.username ud) U)"
  by (cases d) (auto simp: candidate_def attempt_def split: sum.splits)

lemma candidate_collides:
  "candidate w d = Some ud \<Longrightarrow>
   collides w E U d \<longleftrightarrow> user_data.email ud \<in> E \<or> user_data.username ud \<in> U"
  by (cases d) (auto simp: candidate_def collides_def split: sum.splits)

lemma no_candidate_no_collision: "candidate w d = None \<Longrightarrow> \<not> collides w E U d"
  by (cases d) (auto simp: candidate_def collides_def split: sum.splits)

lemma attempt_Inr:
  "attempt w E U d = Inr (ud, E', U') \<Longrightarrow>
   candidate w d = Some ud \<and> E' = insert (user_data.email ud) E
   \<and> U' = insert (user_data.username ud) U"
  by (cases d) (auto simp: candidate_def attempt_def split: sum.splits)

text \<open>What an accepted candidate tells about the index.\<close>

lemma gen_accepts:
  assumes "generate_fake_user w E U n = Some (n', Inr (ud, E', U'))"
  shows "user_data.email ud \<notin> E \<and> user_data.username ud \<notin> U
         \<and> E' = insert (user_data.email ud) E \<and> U' = insert (user_data.username ud) U
         \<and> n < n'"
proof -
  from gen_Some_stops[OF assms] obtain m where
    m: "\<not> collides w E U (fake w (n + m))"
       "(n', Inr (ud, E', U')) = (Suc (n + m), attempt w E U (fake w (n + m)))"
    unfolding stops_at_def by (elim exE conjE)
  from m(2) have a: "attempt w E U (fake w (n + m)) = Inr (ud, E', U')" and n': "n' = Suc (n + m)"
    by simp_all
  from attempt_Inr[OF a] have c: "candidate w (fake w (n + m)) = Some ud"
    and E': "E' = insert (user_data.email ud) E" and U': "U' = insert (user_data.username ud) U"
    by simp_all
  from m(1) candidate_collides[OF c, of E U]
  have "user_data.email ud \<notin> E \<and> user_data.username ud \<notin> U" by simp
  with E' U' n' show ?thesis by simp
qed

lemma gen_first_fresh:
  assumes ok: "\<forall>k<j. candidate w (fake w (n + k)) \<noteq> None"
    and c: "candidate w (fake w (n + j)) = Some c"
    and fresh: "user_data.email c \<notin> E" "user_data.username c \<notin> U"
  shows "\<exists>m\<le>j. \<exists>ud. generate_fake_user w E U n
             = Some (Suc (n + m), Inr (ud, insert (user_data.email ud) E,
                                        insert (user_data.username ud) U))
           \<and> candidate w (fake w (n + m)) = Some ud
           \<and> user_data.email ud \<notin> E \<and> user_data.username ud \<notin> U"
proof -
  define m where "m = (LEAST k. \<not> collides w E U (fake w (n + k)))"
  from c fresh have nj: "\<not> collides w E U (fake w (n + j))"
    by (simp add: candidate_collides)
  then have nm: "\<not> collides w E U (fake w (n + m))"
    unfolding m_def by (rule LeastI)
  from nj have mj: "m \<le> j" unfolding m_def by (rule Least_le)
  have before: "\<forall>k<m. collides w E U (fake w (n + k))"
  proof (intro allI impI)
    fix k assume "k < m"
    then show "collides w E U (fake w (n + k))"
      unfolding m_def using not_less_Least by blast
  qed
  have "\<exists>ud. candidate w (fake w (n + m)) = Some ud"
  proof (cases "m = j")
    case True
    with c show ?thesis by simp
  next
    case False
    with mj have "m < j" by simp
    with ok show ?thesis by auto
  qed
  then obtain ud where ud: "candidate w (fake w (n + m)) = Some ud" ..
  from nm candidate_collides[OF ud, of E U]
  have f: "user_data.email ud \<notin> E \<and> user_data.username ud \<notin> U" by simp
  have "generate_fake_user w E U n = generate_fake_user w E U (n + m)"
    using before by (rule gen_retries)
  also have "\<dots> = Some (Suc (n + m), attempt w E U (fake w (n + m)))"
    using nm by (rule gen_stop)
  finally have "generate_fake_user w E U n
      = Some (Suc (n + m), Inr (ud, insert (user_data.email ud) E, insert (user_data.username ud) U))"
    by (simp add: candidate_attempt[OF ud])
  with ud f mj show ?thesis by blast
qed

text \<open>With unique draws, the draws that collide with a finite index are at most as many
  as the index has values.\<close>

lemma bounded_collisions:
  assumes u: "unique_draws w" and fE: "finite E" and fU: "finite U"
  shows "\<exists>m\<le>card E + card U. \<not> collides w E U (fake w (n + m))"
proof (rule ccontr)
  assume "\<not> ?thesis"
  then have all: "\<And>m. m \<le> card E + card U \<Longrightarrow> collides w E U (fake w (n + m))" by blast
  define cand where "cand m = the (candidate w (fake w (n + m)))" for m
  define f :: "nat \<Rightarrow> string + string" where
    "f m = (if user_data.email (cand m) \<in> E then Inl (user_data.email (cand m))
            else Inr (user_data.username (cand m)))" for m
  have c: "candidate w (fake w (n + m)) = Some (cand m)
           \<and> (user_data.email (cand m) \<in> E \<or> user_data.username (cand m) \<in> U)"
    if "m \<le> card E + card U" for m
  proof -
    from all[OF that] have col: "collides w E U (fake w (n + m))" .
    have "candidate w (fake w (n + m)) \<noteq> None"
      using col no_candidate_no_collision by blast
    then obtain ud where ud: "candidate w (fake w (n + m)) = Some ud" by blast
    then have "cand m = ud" by (simp add: cand_def)
    with ud col candidate_collides[OF ud, of E U] show ?thesis by simp
  qed
  have img: "f ` {..card E + card U} \<subseteq> Inl ` E \<union> Inr ` U"
  proof
    fix x assume "x \<in> f ` {..card E + card U}"
    then obtain m where m: "m \<le> card E + card U" and x: "x = f m" by auto
    from c[OF m] show "x \<in> Inl ` E \<union> Inr ` U" unfolding x f_def by auto
  qed
  have inj: "inj_on f {..card E + card U}"
  proof (rule inj_onI)
    fix a b assume a: "a \<in> {..card E + card U}" and b: "b \<in> {..card E + card U}"
      and eq: "f a = f b"
    show "a = b"
    proof (rule ccontr)
      assume ne: "a \<noteq> b"
      from a b have ca: "candidate w (fake w (n + a)) = Some (cand a)"
        and cb: "candidate w (fake w (n + b)) = Some (cand b)" using c by simp_all
      from ne have "n + a \<noteq> n + b" by simp
      with u ca cb have d: "user_data.email (cand a) \<noteq> user_data.email (cand b)
          \<and> user_data.username (cand a) \<noteq> user_data.username (cand b)"
        unfolding unique_draws_def by blast
      with eq show False unfolding f_def by (simp split: if_splits)
    qed
  qed
  have fin: "finite (Inl ` E \<union> Inr ` U :: (string + string) set)" using fE fU by simp
  have "card {..card E + card U} \<le> card (Inl ` E \<union> Inr ` U :: (string + string) set)"
    using card_inj_on_le[OF inj img fin] .
  also have "\<dots> \<le> card (Inl ` E :: (string + string) set) + card (Inr ` U :: (string + string) set)"
    by (rule card_Un_le)
  also have "\<dots> = card E + card U"
    by (simp add: card_image)
  finally show False by simp
qed

text \<open>So the loop ends, within that many retries.\<close>

lemma gen_ends:
  assumes u: "unique_draws w" and fE: "finite E" and fU: "finite U"
  shows "\<exists>m\<le>card E + card U. (\<forall>k<m. collides w E U (fake w (n + k)))
           \<and> \<not> collides w E U (fake w (n + m))
           \<and> generate_fake_user w E U n = Some (Suc (n + m), attempt w E U (fake w (n + m)))"
proof -
  from bounded_collisions[OF u fE fU, of n] obtain j where
    j: "j \<le> card E + card U" and nj: "\<not> collides w E U (fake w (n + j))" by blast
  define m where "m = (LEAST k. \<not> collides w E U (fake w (n + k)))"
  from nj have nm: "\<not> collides w E U (fake w (n + m))"
    unfolding m_def by (rule LeastI)
  from nj have "m \<le> j" unfolding m_def by (rule Least_le)
  with j have mb: "m \<le> card E + card U" by simp
  have before: "\<forall>k<m. collides w E U (fake w (n + k))"
  proof (intro allI impI)
    fix k assume "k < m"
    then show "collides w E U (fake w (n + k))"
      unfolding m_def using not_less_Least by blast
  qed
  have "generate_fake_user w E U n = generate_fake_user w E U (n + m)"
    using before by (rule gen_retries)
  also have "\<dots> = Some (Suc (n + m), attempt w E U (fake w (n + m)))"
    using nm by (rule gen_stop)
  finally show ?thesis using mb before nm by blast
qed

lemma gen_raises:
  assumes before: "\<forall>k<m. collides w E U (fake w (n + k))" and f: "fake w (n + m) = FakerError e"
  shows "generate_fake_user w E U n = Some (Suc (n + m), Inl e)"
proof -
  from f have nm: "\<not> collides w E U (fake w (n + m))" by (simp add: collides_def)
  have "generate_fake_user w E U n = generate_fake_user w E U (n + m)"
    using before by (rule gen_retries)
  also have "\<dots> = Some (Suc (n + m), attempt w E U (fake w (n + m)))"
    using nm by (rule gen_stop)
  finally show ?thesis using f by (simp add: attempt_def)
qed

section \<open>The loop of \<^verbatim>\<open>seed_users\<close>\<close>

text \<open>
  The invariant of the \<^verbatim>\<open>for\<close> loop: the records it appends have pairwise distinct emails
  and user names, none of them in the index the loop started with; the index only grows,
  by exactly these values when the loop ends without an exception; the loop makes no
  store call, and only adds to what is printed.
\<close>

lemma generate_users_inv:
  "generate_users w cfg is (s, E, U, us) = Some (x, s', E', U', us') \<Longrightarrow>
   \<exists>new. us' = us @ new
     \<and> E \<union> set (map email new) \<subseteq> E' \<and> U \<union> set (map username new) \<subseteq> U'
     \<and> (x = None \<longrightarrow> E' = E \<union> set (map email new) \<and> U' = U \<union> set (map username new)
                      \<and> length new = length is)
     \<and> length new \<le> length is
     \<and> distinct (map email new) \<and> distinct (map username new)
     \<and> set (map email new) \<inter> E = {} \<and> set (map username new) \<inter> U = {}
     \<and> ops s' = ops s \<and> table s' = table s \<and> pending s' = pending s \<and> drawn s \<le> drawn s'
     \<and> take (length (stdout s)) (stdout s') = stdout s"
proof (induction "is" arbitrary: s E U us)
  case Nil
  then show ?case by simp
next
  case (Cons i "is")
  let ?s1 = "print (''Generating user '' @ str_int i @ ''...'') s"
  show ?case
  proof (cases "generate_fake_user w E U (drawn s)")
    case None
    with Cons.prems show ?thesis by simp
  next
    case (Some r)
    obtain n res where r: "r = (n, res)" by (cases r)
    show ?thesis
    proof (cases res)
      case (Inl e)
      with Cons.prems Some r
      have "us' = us" "E' = E" "U' = U" "s' = ?s1\<lparr>drawn := n\<rparr>" "x = Some e"
        by simp_all
      moreover from gen_Some_stops[OF Some] r have "drawn s \<le> n"
        by (auto simp: stops_at_def)
      ultimately show ?thesis by simp
    next
      case (Inr t)
      obtain ud E1 U1 where t: "t = (ud, E1, U1)" by (cases t)
      from Some r Inr t have g: "generate_fake_user w E U (drawn s) = Some (n, Inr (ud, E1, U1))"
        by simp
      from gen_accepts[OF g]
      have fresh: "user_data.email ud \<notin> E" "user_data.username ud \<notin> U"
        and E1: "E1 = insert (user_data.email ud) E"
        and U1: "U1 = insert (user_data.username ud) U"
        and n: "drawn s < n"
        by simp_all
      let ?s2 = "?s1\<lparr>drawn := n\<rparr>"
      show ?thesis
      proof (cases "hash_password w (length us) (user_data.password ud) (salt cfg)")
        case (Inl e)
        with Cons.prems g
        have "us' = us" "E' = E1" "U' = U1" "s' = ?s2" "x = Some e"
          by simp_all
        with E1 U1 n show ?thesis by auto
      next
        case (Inr h)
        let ?user = "\<lparr>first_name = user_data.first_name ud, last_name = user_data.last_name ud,
                      email = user_data.email ud, username = user_data.username ud,
                      password = h\<rparr>"
        let ?s3 = "print (''User '' @ str_int i @ '': '' @ username ?user @ '' created.'') ?s2"
        from Cons.prems g Inr
        have rest: "generate_users w cfg is (?s3, E1, U1, us @ [?user]) = Some (x, s', E', U', us')"
          by (simp add: Let_def)
        from Cons.IH[OF rest] obtain new where
          new: "us' = (us @ [?user]) @ new"
            "E1 \<union> set (map email new) \<subseteq> E'" "U1 \<union> set (map username new) \<subseteq> U'"
            "x = None \<longrightarrow> E' = E1 \<union> set (map email new) \<and> U' = U1 \<union> set (map username new)
                        \<and> length new = length is"
            "length new \<le> length is"
            "distinct (map email new)" "distinct (map username new)"
            "set (map email new) \<inter> E1 = {}" "set (map username new) \<inter> U1 = {}"
            "ops s' = ops ?s3" "table s' = table ?s3" "pending s' = pending ?s3"
            "drawn ?s3 \<le> drawn s'" "take (length (stdout ?s3)) (stdout s') = stdout ?s3"
          by (elim exE conjE)
        have "us' = us @ (?user # new)" using new(1) by simp
        moreover have "E \<union> set (map email (?user # new)) \<subseteq> E'"
          using new(2) E1 by auto
        moreover have "U \<union> set (map username (?user # new)) \<subseteq> U'"
          using new(3) U1 by auto
        moreover have "x = None \<longrightarrow> E' = E \<union> set (map email (?user # new))
                         \<and> U' = U \<union> set (map username (?user # new))
                         \<and> length (?user # new) = length (i # is)"
          using new(4) E1 U1 by auto
        moreover have "length (?user # new) \<le> length (i # is)" using new(5) by simp
        moreover have "distinct (map email (?user # new))"
          using new(6,8) E1 by auto
        moreover have "distinct (map username (?user # new))"
          using new(7,9) U1 by auto
        moreover have "set (map email (?user # new)) \<inter> E = {}"
          using new(8) E1 fresh(1) by auto
        moreover have "set (map username (?user # new)) \<inter> U = {}"
          using new(9) U1 fresh(2) by auto
        moreover have "ops s' = ops s" "table s' = table s" "pending s' = pending s"
          using new(10,11,12) by simp_all
        moreover have "drawn s \<le> drawn s'" using new(13) n by simp
        moreover have "take (length (stdout s)) (stdout s') = stdout s"
        proof -
          have "take (length (stdout s)) (stdout s')
                = take (length (stdout s)) (take (length (stdout ?s3)) (stdout s'))"
            by simp
          also have "\<dots> = take (length (stdout s)) (stdout ?s3)" by (simp only: new(14))
          also have "\<dots> = stdout s" by simp
          finally show ?thesis .
        qed
        ultimately show ?thesis by blast
      qed
    qed
  qed
qed

lemma length_range: "length [1..count] = nat count"
  by simp

text \<open>With unique draws and a finite index the \<^verbatim>\<open>for\<close> loop ends.\<close>

lemma generate_users_ends:
  assumes u: "unique_draws w"
  shows "finite E \<Longrightarrow> finite U \<Longrightarrow> generate_users w cfg is (s, E, U, us) \<noteq> None"
proof (induction "is" arbitrary: s E U us)
  case Nil
  then show ?case by simp
next
  case (Cons i "is")
  from gen_ends[OF u Cons.prems, of "drawn s"] obtain m where
    g: "generate_fake_user w E U (drawn s)
          = Some (Suc (drawn s + m), attempt w E U (fake w (drawn s + m)))"
    by blast
  let ?s1 = "print (''Generating user '' @ str_int i @ ''...'') s"
  show ?case
  proof (cases "attempt w E U (fake w (drawn s + m))")
    case (Inl e)
    with g show ?thesis by simp
  next
    case (Inr t)
    obtain ud E1 U1 where t: "t = (ud, E1, U1)" by (cases t)
    from attempt_Inr[OF Inr[unfolded t]] Cons.prems
    have fin: "finite E1" "finite U1" by simp_all
    show ?thesis
    proof (cases "hash_password w (length us) (user_data.password ud) (salt cfg)")
      case (Inl e)
      with g Inr t show ?thesis by simp
    next
      case h: (Inr hashed)
      let ?user = "\<lparr>first_name = user_data.first_name ud, last_name = user_data.last_name ud,
                    email = user_data.email ud, username = user_data.username ud,
                    password = hashed\<rparr>"
      let ?s3 = "print (''User '' @ str_int i @ '': '' @ username ?user @ '' created.'')
                   (?s1\<lparr>drawn := Suc (drawn s + m)\<rparr>)"
      from Cons.IH[OF fin, of ?s3 "us @ [?user]"]
      have "generate_users w cfg is (?s3, E1, U1, us @ [?user]) \<noteq> None" .
      with g Inr t h show ?thesis by (simp add: Let_def)
    qed
  qed
qed

section \<open>The store calls of a run\<close>

lemma insert_rows_Inr: "insert_rows w rows us = Inr rows' \<Longrightarrow> rows' = rows @ us"
proof (induction us arbitrary: rows)
  case Nil
  then show ?case by simp
next
  case (Cons u us)
  from Cons.prems have "insert_rows w (rows @ [u]) us = Inr rows'"
    by (simp split: if_splits)
  from Cons.IH[OF this] show ?case by simp
qed

text \<open>The end of the \<^verbatim>\<open>try\<close> block either commits every pending row, or raises and
  leaves the table as it was: at \<^verbatim>\<open>add_all\<close>, or at \<^verbatim>\<open>commit\<close>.\<close>

lemma submit_cases:
  assumes "submit w users count s = (x, s')"
  obtains
    (committed) "x = None" "fault w (AddAll users) = None" "fault w Commit = None"
      "insert_rows w (table s) (pending s @ users) = Inr (table s')"
      "table s' = table s @ pending s @ users"
      "ops s' = ops s @ [AddAll users, Commit]"
      "stdout s' = stdout s @ [''Adding users to the session...'',
           ''Committing the session...'',
           ''Successfully added '' @ str_int count @ '' users to the database.'']"
      "pending s' = []" "drawn s' = drawn s"
  | (add_all) e where "x = Some e" "fault w (AddAll users) = Some e"
      "table s' = table s" "drawn s' = drawn s" "ops s' = ops s @ [AddAll users]"
      "stdout s' = stdout s @ [''Adding users to the session...'']"
  | (commit) e where "x = Some e" "fault w (AddAll users) = None"
      "fault w Commit = Some e
       \<or> fault w Commit = None \<and> insert_rows w (table s) (pending s @ users) = Inl e"
      "table s' = table s" "drawn s' = drawn s" "ops s' = ops s @ [AddAll users, Commit]"
      "stdout s' = stdout s @ [''Adding users to the session...'', ''Committing the session...'']"
proof (cases "fault w (AddAll users)")
  case (Some e)
  with assms have "x = Some e" "table s' = table s" "drawn s' = drawn s"
    "ops s' = ops s @ [AddAll users]"
    "stdout s' = stdout s @ [''Adding users to the session...'']"
    by (auto simp: submit_def add_all_def)
  with Some show ?thesis by (intro add_all[of e]) simp_all
next
  case None
  note a = None
  show ?thesis
  proof (cases "fault w Commit")
    case (Some e)
    with assms a have "x = Some e" "table s' = table s" "drawn s' = drawn s"
      "ops s' = ops s @ [AddAll users, Commit]"
      "stdout s' = stdout s @ [''Adding users to the session...'', ''Committing the session...'']"
      by (auto simp: submit_def add_all_def commit_def)
    with a Some show ?thesis by (intro commit[of e]) simp_all
  next
    case None
    show ?thesis
    proof (cases "insert_rows w (table s) (pending s @ users)")
      case (Inl e)
      with assms a None have "x = Some e" "table s' = table s" "drawn s' = drawn s"
        "ops s' = ops s @ [AddAll users, Commit]"
        "stdout s' = stdout s @ [''Adding users to the session...'', ''Committing the session...'']"
        by (auto simp: submit_def add_all_def commit_def)
      with a None Inl show ?thesis by (intro commit[of e]) simp_all
    next
      case (Inr rows)
      from insert_rows_Inr[OF Inr] have rows: "rows = table s @ pending s @ users" .
      from assms a None Inr have "x = None" "table s' = rows"
        "ops s' = ops s @ [AddAll users, Commit]"
        "stdout s' = stdout s @ [''Adding users to the session...'',
           ''Committing the session...'',
           ''Successfully added '' @ str_int count @ '' users to the database.'']"
        "pending s' = []" "drawn s' = drawn s"
        by (auto simp: submit_def add_all_def commit_def)
      with a None Inr rows show ?thesis by (intro committed) simp_all
    qed
  qed
qed

text \<open>The \<^verbatim>\<open>except\<close> and \<^verbatim>\<open>finally\<close> clauses: after an exception the session is rolled back
  and closed, after none it is closed; the table is not touched.\<close>

lemma handler_result:
  "handler w e s
     = (case fault w Rollback of
          Some e' \<Rightarrow> (Some e', log Rollback s)
        | None \<Rightarrow> (None, print_exn w (clause_label e) e ((log Rollback s)\<lparr>pending := []\<rparr>)))"
  by (cases e) (simp_all add: handler_def rollback_def clause_label_def split: option.splits)

lemma finally_result:
  "finally_clause w s
     = (case fault w Close of
          Some e \<Rightarrow> (Some e, log Close s)
        | None \<Rightarrow> (None, print ''Session closed.'' ((log Close s)\<lparr>pending := []\<rparr>)))"
  by (simp add: finally_clause_def close_def split: option.splits)

lemma except_finally_None:
  "fst (except_finally w None s) = fault w Close"
  "ops (snd (except_finally w None s)) = ops s @ [Close]"
  "table (snd (except_finally w None s)) = table s"
  "drawn (snd (except_finally w None s)) = drawn s"
  "stdout (snd (except_finally w None s))
     = stdout s @ (if fault w Close = None then [''Session closed.''] else [])"
  by (simp_all add: except_finally_def finally_result split: option.splits)

lemma except_finally_Some:
  "fst (except_finally w (Some e) s)
     = (case fault w Close of Some e' \<Rightarrow> Some e' | None \<Rightarrow> fault w Rollback)"
  "ops (snd (except_finally w (Some e) s)) = ops s @ [Rollback, Close]"
  "table (snd (except_finally w (Some e) s)) = table s"
  "drawn (snd (except_finally w (Some e) s)) = drawn s"
  "stdout (snd (except_finally w (Some e) s))
     = stdout s @ (if fault w Rollback = None then [clause_label e @ '' '' @ str_exn w e] else [])
         @ (if fault w Close = None then [''Session closed.''] else [])"
  by (simp_all add: except_finally_def finally_result handler_result split: option.splits)

section \<open>The runs of \<^verbatim>\<open>seed_users\<close>\<close>

lemma new_ops_append: "ops s' = ops s @ xs \<Longrightarrow> new_ops s s' = xs"
  by (simp add: new_ops_def)

lemma seed_users_create_fault:
  "fault w CreateAll = Some e \<Longrightarrow>
   seed_users w cfg count s
     = Some (Some e, log CreateAll (print ''Creating tables if they don't exist...'' s))"
  by (simp add: seed_users_def create_all_def)

lemma seed_users_try:
  "fault w CreateAll = None \<Longrightarrow>
   seed_users w cfg count s
     = (case seed_try w cfg count
               (Session (log CreateAll (print ''Creating tables if they don't exist...'' s))) of
          None \<Rightarrow> None
        | Some (raised, s3) \<Rightarrow> Some (except_finally w raised s3))"
  by (simp add: seed_users_def create_all_def)

lemma seed_try_query_emails_fault:
  "fault w QueryEmails = Some e \<Longrightarrow>
   seed_try w cfg count s
     = Some (Some e, log QueryEmails
               (print ''Fetching existing emails and usernames to prevent duplicates...'' s))"
  by (simp add: seed_try_def query_emails_def)

lemma seed_try_query_usernames_fault:
  "fault w QueryEmails = None \<Longrightarrow> fault w QueryUsernames = Some e \<Longrightarrow>
   seed_try w cfg count s
     = Some (Some e, log QueryUsernames (log QueryEmails
               (print ''Fetching existing emails and usernames to prevent duplicates...'' s)))"
  by (simp add: seed_try_def query_emails_def query_usernames_def)

text \<open>When create_all and the two queries raise nothing, the \<^verbatim>\<open>try\<close> block of a run from
  \<open>s\<close> is the loop, entered with the values of the table's rows, and then the submission.\<close>

lemma seed_try_loop:
  assumes "fault w QueryEmails = None" "fault w QueryUsernames = None"
  shows "seed_try w cfg count
           (Session (log CreateAll (print ''Creating tables if they don't exist...'' s)))
     = (case generate_users w cfg [1..count]
               (index_loaded s, set (map email (table s)), set (map username (table s)), []) of
          None \<Rightarrow> None
        | Some (Some e, s5, E, U, users_to_add) \<Rightarrow> Some (Some e, s5)
        | Some (None, s5, E, U, users_to_add) \<Rightarrow> Some (submit w users_to_add count s5))"
  using assms
  by (simp add: seed_try_def query_emails_def query_usernames_def index_loaded_def Let_def)

text \<open>
  The five ways a run of \<^verbatim>\<open>seed_users\<close> ends: \<^verbatim>\<open>create_all\<close> raises, and nothing is caught;
  a query raises; the loop raises; the submission raises; or the batch is committed.
  In the last three the loop is the one entered with the index loaded from the table.
\<close>

lemma seed_users_run:
  assumes run: "seed_users w cfg count s = Some (y, s')"
  obtains
    (create) "fault w CreateAll \<noteq> None" "y = fault w CreateAll"
      "s' = log CreateAll (print ''Creating tables if they don't exist...'' s)"
  | (query) "fault w CreateAll = None"
      "fault w QueryEmails \<noteq> None \<and> new_ops s s' = [CreateAll, QueryEmails, Rollback, Close]
       \<or> fault w QueryEmails = None \<and> fault w QueryUsernames \<noteq> None
          \<and> new_ops s s' = [CreateAll, QueryEmails, QueryUsernames, Rollback, Close]"
      "table s' = table s" "drawn s' = drawn s"
      "y = (case fault w Close of Some e' \<Rightarrow> Some e' | None \<Rightarrow> fault w Rollback)"
  | (loop) e s1 E' U' users where
      "fault w CreateAll = None" "fault w QueryEmails = None" "fault w QueryUsernames = None"
      "generate_users w cfg [1..count]
         (index_loaded s, set (map email (table s)), set (map username (table s)), [])
         = Some (Some e, s1, E', U', users)"
      "new_ops s s' = [CreateAll, QueryEmails, QueryUsernames, Rollback, Close]"
      "table s' = table s" "drawn s' = drawn s1"
      "stdout s' = stdout s1
         @ (if fault w Rollback = None then [clause_label e @ '' '' @ str_exn w e] else [])
         @ (if fault w Close = None then [''Session closed.''] else [])"
      "y = (case fault w Close of Some e' \<Rightarrow> Some e' | None \<Rightarrow> fault w Rollback)"
  | (submission) e s1 E' U' users where
      "fault w CreateAll = None" "fault w QueryEmails = None" "fault w QueryUsernames = None"
      "generate_users w cfg [1..count]
         (index_loaded s, set (map email (table s)), set (map username (table s)), [])
         = Some (None, s1, E', U', users)"
      "fault w (AddAll users) = Some e
         \<and> new_ops s s' = [CreateAll, QueryEmails, QueryUsernames, AddAll users, Rollback, Close]
       \<or> fault w (AddAll users) = None
         \<and> (fault w Commit = Some e
             \<or> fault w Commit = None \<and> insert_rows w (table s) users = Inl e)
         \<and> new_ops s s'
             = [CreateAll, QueryEmails, QueryUsernames, AddAll users, Commit, Rollback, Close]"
      "table s' = table s" "drawn s' = drawn s1"
      "take (length (stdout s1)) (stdout s') = stdout s1"
      "fault w Rollback = None \<Longrightarrow> clause_label e @ '' '' @ str_exn w e \<in> set (stdout s')"
      "y = (case fault w Close of Some e' \<Rightarrow> Some e' | None \<Rightarrow> fault w Rollback)"
  | (committed) s1 E' U' users where
      "fault w CreateAll = None" "fault w QueryEmails = None" "fault w QueryUsernames = None"
      "generate_users w cfg [1..count]
         (index_loaded s, set (map email (table s)), set (map username (table s)), [])
         = Some (None, s1, E', U', users)"
      "fault w (AddAll users) = None" "fault w Commit = None"
      "insert_rows w (table s) users = Inr (table s')"
      "new_ops s s' = [CreateAll, QueryEmails, QueryUsernames, AddAll users, Commit, Close]"
      "table s' = table s @ users" "drawn s' = drawn s1"
      "stdout s' = stdout s1 @ [''Adding users to the session...'',
           ''Committing the session...'',
           ''Successfully added '' @ str_int count @ '' users to the database.'']
         @ (if fault w Close = None then [''Session closed.''] else [])"
      "y = fault w Close"
proof (cases "fault w CreateAll")
  case (Some e)
  from run seed_users_create_fault[OF Some, of cfg count s]
  have "y = Some e" "s' = log CreateAll (print ''Creating tables if they don't exist...'' s)"
    by simp_all
  with Some show ?thesis by (intro create) simp_all
next
  case None
  note cr = None
  let ?s2 = "Session (log CreateAll (print ''Creating tables if they don't exist...'' s))"
  from run seed_users_try[OF cr, of cfg count s]
  have body: "(case seed_try w cfg count ?s2 of
          None \<Rightarrow> None
        | Some (raised, s3) \<Rightarrow> Some (except_finally w raised s3)) = Some (y, s')"
    by simp
  show ?thesis
  proof (cases "fault w QueryEmails")
    case (Some e)
    let ?s3 = "log QueryEmails
                 (print ''Fetching existing emails and usernames to prevent duplicates...'' ?s2)"
    from body seed_try_query_emails_fault[OF Some, of cfg count ?s2]
    have ef: "except_finally w (Some e) ?s3 = (y, s')" by simp
    then have y: "y = fst (except_finally w (Some e) ?s3)"
      and s': "s' = snd (except_finally w (Some e) ?s3)" by simp_all
    have "ops s' = ops s @ [CreateAll, QueryEmails, Rollback, Close]"
      unfolding s' by (simp add: except_finally_Some)
    then have "new_ops s s' = [CreateAll, QueryEmails, Rollback, Close]" by (rule new_ops_append)
    moreover have "table s' = table s" "drawn s' = drawn s"
      unfolding s' by (simp_all add: except_finally_Some)
    moreover have "y = (case fault w Close of Some e' \<Rightarrow> Some e' | None \<Rightarrow> fault w Rollback)"
      unfolding y by (simp add: except_finally_Some)
    ultimately show ?thesis using cr Some by (intro query) simp_all
  next
    case None
    note qe = None
    show ?thesis
    proof (cases "fault w QueryUsernames")
      case (Some e)
      let ?s3 = "log QueryUsernames (log QueryEmails
                 (print ''Fetching existing emails and usernames to prevent duplicates...'' ?s2))"
      from body seed_try_query_usernames_fault[OF qe Some, of cfg count ?s2]
      have ef: "except_finally w (Some e) ?s3 = (y, s')" by simp
      then have y: "y = fst (except_finally w (Some e) ?s3)"
        and s': "s' = snd (except_finally w (Some e) ?s3)" by simp_all
      have "ops s' = ops s @ [CreateAll, QueryEmails, QueryUsernames, Rollback, Close]"
        unfolding s' by (simp add: except_finally_Some)
      then have "new_ops s s' = [CreateAll, QueryEmails, QueryUsernames, Rollback, Close]"
        by (rule new_ops_append)
      moreover have "table s' = table s" "drawn s' = drawn s"
        unfolding s' by (simp_all add: except_finally_Some)
      moreover have "y = (case fault w Close of Some e' \<Rightarrow> Some e' | None \<Rightarrow> fault w Rollback)"
        unfolding y by (simp add: except_finally_Some)
      ultimately show ?thesis using cr qe Some by (intro query) simp_all
    next
      case None
      note qu = None
      let ?E = "set (map email (table s))"
      let ?U = "set (map username (table s))"
      from body seed_try_loop[OF qe qu, of cfg count s]
      have body': "(case (case generate_users w cfg [1..count] (index_loaded s, ?E, ?U, []) of
                      None \<Rightarrow> None
                    | Some (Some e, s5, E, U, users_to_add) \<Rightarrow> Some (Some e, s5)
                    | Some (None, s5, E, U, users_to_add) \<Rightarrow> Some (submit w users_to_add count s5)) of
                 None \<Rightarrow> None
               | Some (raised, s3) \<Rightarrow> Some (except_finally w raised s3)) = Some (y, s')"
        by simp
      show ?thesis
      proof (cases "generate_users w cfg [1..count] (index_loaded s, ?E, ?U, [])")
        case None
        with body' show ?thesis by simp
      next
        case (Some r)
        obtain x s1 E' U' users where r: "r = (x, s1, E', U', users)" by (cases r)
        from Some r
        have g: "generate_users w cfg [1..count] (index_loaded s, ?E, ?U, [])
                   = Some (x, s1, E', U', users)" by simp
        from generate_users_inv[OF g]
        have s1: "ops s1 = ops s @ [CreateAll, QueryEmails, QueryUsernames]"
          "table s1 = table s" "pending s1 = []"
          by auto
        show ?thesis
        proof (cases x)
          case (Some e)
          from body' g Some have ef: "except_finally w (Some e) s1 = (y, s')" by simp
          then have y: "y = fst (except_finally w (Some e) s1)"
            and s': "s' = snd (except_finally w (Some e) s1)" by simp_all
          have "ops s' = ops s @ [CreateAll, QueryEmails, QueryUsernames, Rollback, Close]"
            unfolding s' by (simp add: except_finally_Some s1)
          then have "new_ops s s' = [CreateAll, QueryEmails, QueryUsernames, Rollback, Close]"
            by (rule new_ops_append)
          moreover have "table s' = table s" "drawn s' = drawn s1"
            unfolding s' by (simp_all add: except_finally_Some s1)
          moreover have "stdout s' = stdout s1
               @ (if fault w Rollback = None then [clause_label e @ '' '' @ str_exn w e] else [])
               @ (if fault w Close = None then [''Session closed.''] else [])"
            unfolding s' by (simp only: except_finally_Some)
          moreover have "y = (case fault w Close of Some e' \<Rightarrow> Some e' | None \<Rightarrow> fault w Rollback)"
            unfolding y by (simp add: except_finally_Some)
          moreover note g[unfolded Some]
          ultimately show ?thesis using cr qe qu by (intro loop[of e s1 E' U' users])
        next
          case None
          obtain x2 s2 where sub: "submit w users count s1 = (x2, s2)" by (cases "submit w users count s1")
          from body' g None sub have ef: "except_finally w x2 s2 = (y, s')" by simp
          then have y: "y = fst (except_finally w x2 s2)"
            and s': "s' = snd (except_finally w x2 s2)" by simp_all
          note g' = g[unfolded None]
          from sub show ?thesis
          proof (cases rule: submit_cases)
            case committed
            have "ops s' = ops s @ [CreateAll, QueryEmails, QueryUsernames, AddAll users, Commit, Close]"
              unfolding s' committed(1) by (simp add: except_finally_None committed s1)
            then have "new_ops s s' = [CreateAll, QueryEmails, QueryUsernames, AddAll users, Commit, Close]"
              by (rule new_ops_append)
            moreover have t: "table s' = table s @ users" "drawn s' = drawn s1"
              unfolding s' committed(1) by (simp_all add: except_finally_None committed s1)
            moreover have "insert_rows w (table s) users = Inr (table s')"
              using committed(4) s1 t(1) committed(5) by simp
            moreover have "stdout s' = stdout s1 @ [''Adding users to the session...'',
                 ''Committing the session...'',
                 ''Successfully added '' @ str_int count @ '' users to the database.'']
               @ (if fault w Close = None then [''Session closed.''] else [])"
              unfolding s' committed(1) by (simp add: except_finally_None committed)
            moreover have "y = fault w Close"
              unfolding y committed(1) by (simp add: except_finally_None)
            ultimately show ?thesis using cr qe qu g' committed(2,3)
              by (intro that(5)[of s1 E' U' users])
          next
            case (add_all e)
            have "ops s' = ops s @ [CreateAll, QueryEmails, QueryUsernames, AddAll users, Rollback, Close]"
              unfolding s' add_all(1) by (simp add: except_finally_Some add_all s1)
            then have "new_ops s s' = [CreateAll, QueryEmails, QueryUsernames, AddAll users, Rollback, Close]"
              by (rule new_ops_append)
            with add_all(2) have d: "fault w (AddAll users) = Some e
                 \<and> new_ops s s' = [CreateAll, QueryEmails, QueryUsernames, AddAll users, Rollback, Close]
               \<or> fault w (AddAll users) = None
                 \<and> (fault w Commit = Some e
                     \<or> fault w Commit = None \<and> insert_rows w (table s) users = Inl e)
                 \<and> new_ops s s'
                     = [CreateAll, QueryEmails, QueryUsernames, AddAll users, Commit, Rollback, Close]"
              by simp
            have t: "table s' = table s" "drawn s' = drawn s1"
              unfolding s' add_all(1) by (simp_all add: except_finally_Some add_all s1)
            have out: "stdout s' = stdout s1 @ [''Adding users to the session...'']
                 @ (if fault w Rollback = None then [clause_label e @ '' '' @ str_exn w e] else [])
                 @ (if fault w Close = None then [''Session closed.''] else [])"
              unfolding s' add_all(1) by (simp add: except_finally_Some add_all)
            have p: "take (length (stdout s1)) (stdout s') = stdout s1"
              unfolding out by simp
            have l: "fault w Rollback = None \<Longrightarrow> clause_label e @ '' '' @ str_exn w e \<in> set (stdout s')"
              unfolding out by simp
            have yy: "y = (case fault w Close of Some e' \<Rightarrow> Some e' | None \<Rightarrow> fault w Rollback)"
              unfolding y add_all(1) by (simp add: except_finally_Some)
            from cr qe qu g' d t p l yy show ?thesis
              by (intro submission[of s1 E' U' users e])
          next
            case (commit e)
            have "ops s' = ops s @ [CreateAll, QueryEmails, QueryUsernames, AddAll users, Commit, Rollback, Close]"
              unfolding s' commit(1) by (simp add: except_finally_Some commit s1)
            then have "new_ops s s' = [CreateAll, QueryEmails, QueryUsernames, AddAll users, Commit, Rollback, Close]"
              by (rule new_ops_append)
            with commit(2,3) s1 have d: "fault w (AddAll users) = Some e
                 \<and> new_ops s s' = [CreateAll, QueryEmails, QueryUsernames, AddAll users, Rollback, Close]
               \<or> fault w (AddAll users) = None
                 \<and> (fault w Commit = Some e
                     \<or> fault w Commit = None \<and> insert_rows w (table s) users = Inl e)
                 \<and> new_ops s s'
                     = [CreateAll, QueryEmails, QueryUsernames, AddAll users, Commit, Rollback, Close]"
              by simp
            have t: "table s' = table s" "drawn s' = drawn s1"
              unfolding s' commit(1) by (simp_all add: except_finally_Some commit s1)
            have out: "stdout s' = stdout s1 @ [''Adding users to the session...'',
                   ''Committing the session...'']
                 @ (if fault w Rollback = None then [clause_label e @ '' '' @ str_exn w e] else [])
                 @ (if fault w Close = None then [''Session closed.''] else [])"
              unfolding s' commit(1) by (simp add: except_finally_Some commit)
            have p: "take (length (stdout s1)) (stdout s') = stdout s1"
              unfolding out by simp
            have l: "fault w Rollback = None \<Longrightarrow> clause_label e @ '' '' @ str_exn w e \<in> set (stdout s')"
              unfolding out by simp
            have yy: "y = (case fault w Close of Some e' \<Rightarrow> Some e' | None \<Rightarrow> fault w Rollback)"
              unfolding y commit(1) by (simp add: except_finally_Some)
            from cr qe qu g' d t p l yy show ?thesis
              by (intro submission[of s1 E' U' users e])
          qed
        qed
      qed
    qed
  qed
qed

section \<open>A count that is not positive\<close>

lemma seed_users_nonpositive:
  assumes "count \<le> 0"
  shows "\<exists>r. seed_users w cfg count s = Some r"
proof (cases "fault w CreateAll")
  case (Some e)
  then show ?thesis by (simp add: seed_users_create_fault)
next
  case None
  note cr = None
  show ?thesis
  proof (cases "fault w QueryEmails")
    case (Some e)
    then show ?thesis by (simp add: seed_users_try[OF cr] seed_try_query_emails_fault)
  next
    case None
    note qe = None
    show ?thesis
    proof (cases "fault w QueryUsernames")
      case (Some e)
      then show ?thesis by (simp add: seed_users_try[OF cr] seed_try_query_usernames_fault[OF qe])
    next
      case None
      from assms have e: "[1..count] = []" by simp
      show ?thesis
        by (simp add: seed_users_try[OF cr] seed_try_loop[OF qe None] e split: prod.splits)
    qed
  qed
qed

lemma seed_users_nonpositive_keeps:
  assumes c: "count \<le> 0" and run: "seed_users w cfg count s = Some (x, s')"
  shows "table s' = table s \<and> drawn s' = drawn s"
proof -
  from c have e: "[1..count] = []" by simp
  from run show ?thesis
  proof (cases rule: seed_users_run)
    case create
    then show ?thesis by simp
  next
    case query
    then show ?thesis by simp
  next
    case (loop e s1 E' U' users)
    from loop(4) show ?thesis by (simp add: e)
  next
    case (submission e s1 E' U' users)
    from submission(4) have "s1 = index_loaded s" by (simp add: e)
    with submission(6,7) show ?thesis by simp
  next
    case (committed s1 E' U' users)
    from committed(4) have "s1 = index_loaded s" "users = []" by (simp_all add: e)
    with committed(9,10) show ?thesis by simp
  qed
qed

text \<open>
  Claim C9. For a count of zero or less the range of the loop is empty: \<^verbatim>\<open>seed_users\<close>
  ends, takes no draw from Faker and leaves the rows of the table as they are. When no
  store call raises, it commits the empty batch and prints the line that reports success,
  with the count as it was given; nothing rejects the count.
\<close>

theorem seed_users_nonpositive_count:
  "count \<le> 0 \<longrightarrow>
     (\<exists>r. seed_users w cfg count s = Some r)
     \<and> (seed_users w cfg count s = Some (x, s') \<longrightarrow> table s' = table s \<and> drawn s' = drawn s)
     \<and> ((\<forall>op. fault w op = None) \<longrightarrow>
          seed_users w cfg count s
            = Some (None,
                s\<lparr>stdout := stdout s @
                     [''Creating tables if they don't exist...'',
                      ''Fetching existing emails and usernames to prevent duplicates...'',
                      ''Found '' @ str_nat (card (set (map email (table s))))
                        @ '' existing emails and ''
                        @ str_nat (card (set (map username (table s))))
                        @ '' existing usernames.'',
                      ''Adding users to the session...'',
                      ''Committing the session...'',
                      ''Successfully added '' @ str_int count @ '' users to the database.'',
                      ''Session closed.''],
                  ops := ops s @ [CreateAll, QueryEmails, QueryUsernames, AddAll [], Commit, Close],
                  pending := []\<rparr>))"
proof (rule impI)
  assume c: "count \<le> 0"
  have p1: "\<exists>r. seed_users w cfg count s = Some r" using c by (rule seed_users_nonpositive)
  have p2: "seed_users w cfg count s = Some (x, s') \<longrightarrow> table s' = table s \<and> drawn s' = drawn s"
    using seed_users_nonpositive_keeps[OF c] by blast
  have p3: "(\<forall>op. fault w op = None) \<longrightarrow>
          seed_users w cfg count s
            = Some (None,
                s\<lparr>stdout := stdout s @
                     [''Creating tables if they don't exist...'',
                      ''Fetching existing emails and usernames to prevent duplicates...'',
                      ''Found '' @ str_nat (card (set (map email (table s))))
                        @ '' existing emails and ''
                        @ str_nat (card (set (map username (table s))))
                        @ '' existing usernames.'',
                      ''Adding users to the session...'',
                      ''Committing the session...'',
                      ''Successfully added '' @ str_int count @ '' users to the database.'',
                      ''Session closed.''],
                  ops := ops s @ [CreateAll, QueryEmails, QueryUsernames, AddAll [], Commit, Close],
                  pending := []\<rparr>)"
  proof (rule impI)
    assume nf: "\<forall>op. fault w op = None"
    from c have e: "[1..count] = []" by simp
    show "seed_users w cfg count s
            = Some (None,
                s\<lparr>stdout := stdout s @
                     [''Creating tables if they don't exist...'',
                      ''Fetching existing emails and usernames to prevent duplicates...'',
                      ''Found '' @ str_nat (card (set (map email (table s))))
                        @ '' existing emails and ''
                        @ str_nat (card (set (map username (table s))))
                        @ '' existing usernames.'',
                      ''Adding users to the session...'',
                      ''Committing the session...'',
                      ''Successfully added '' @ str_int count @ '' users to the database.'',
                      ''Session closed.''],
                  ops := ops s @ [CreateAll, QueryEmails, QueryUsernames, AddAll [], Commit, Close],
                  pending := []\<rparr>)"
      using nf
      by (simp add: seed_users_def create_all_def Session_def seed_try_def query_emails_def
            query_usernames_def submit_def add_all_def commit_def except_finally_def
            finally_clause_def close_def Let_def e print_def log_def)
  qed
  show "(\<exists>r. seed_users w cfg count s = Some r)
     \<and> (seed_users w cfg count s = Some (x, s') \<longrightarrow> table s' = table s \<and> drawn s' = drawn s)
     \<and> ((\<forall>op. fault w op = None) \<longrightarrow>
          seed_users w cfg count s
            = Some (None,
                s\<lparr>stdout := stdout s @
                     [''Creating tables if they don't exist...'',
                      ''Fetching existing emails and usernames to prevent duplicates...'',
                      ''Found '' @ str_nat (card (set (map email (table s))))
                        @ '' existing emails and ''
                        @ str_nat (card (set (map username (table s))))
                        @ '' existing usernames.'',
                      ''Adding users to the session...'',
                      ''Committing the session...'',
                      ''Successfully added '' @ str_int count @ '' users to the database.'',
                      ''Session closed.''],
                  ops := ops s @ [CreateAll, QueryEmails, QueryUsernames, AddAll [], Commit, Close],
                  pending := []\<rparr>))"
    by (rule conjI[OF p1 conjI[OF p2 p3]])
qed

lemma demo_no_fault: "\<forall>op. fault demo_env op = None"
  by (simp add: demo_env_def)

lemma demo_nonpositive_state:
  "demo_seeded\<lparr>stdout := stdout demo_seeded @
       [''Creating tables if they don't exist...'',
        ''Fetching existing emails and usernames to prevent duplicates...'',
        ''Found '' @ str_nat (card (set (map email (table demo_seeded))))
          @ '' existing emails and ''
          @ str_nat (card (set (map username (table demo_seeded))))
          @ '' existing usernames.'',
        ''Adding users to the session...'',
        ''Committing the session...'',
        ''Successfully added '' @ str_int (- 2) @ '' users to the database.'',
        ''Session closed.''],
     ops := ops demo_seeded @ [CreateAll, QueryEmails, QueryUsernames, AddAll [], Commit, Close],
     pending := []\<rparr> = demo_nonpositive"
  by code_simp

theorem seed_users_nonpositive_count_witness:
  "(\<exists>r. seed_users demo_env demo_cfg (- 2) demo_seeded = Some r)
   \<and> seed_users demo_env demo_cfg (- 2) demo_seeded = Some (None, demo_nonpositive)
   \<and> table demo_nonpositive = table demo_seeded \<and> drawn demo_nonpositive = drawn demo_seeded"
proof -
  have c: "(- 2 :: int) \<le> 0" by simp
  note T = seed_users_nonpositive_count
    [where count = "- 2" and w = demo_env and cfg = demo_cfg and s = demo_seeded and x = None
       and s' = demo_nonpositive, THEN mp, OF c]
  note c1 = T[THEN conjunct1]
  have c2: "seed_users demo_env demo_cfg (- 2) demo_seeded = Some (None, demo_nonpositive)"
    using T[THEN conjunct2, THEN conjunct2, THEN mp, OF demo_no_fault]
    by (simp only: demo_nonpositive_state)
  note c3 = T[THEN conjunct2, THEN conjunct1, THEN mp, OF c2]
  show ?thesis by (rule conjI[OF c1 conjI[OF c2 c3]])
qed

text \<open>The list a run hands to \<^verbatim>\<open>add_all\<close> is the list its loop has built, and the loop
  is the one entered with the index loaded from the table.\<close>

lemma seed_users_batch:
  assumes run: "seed_users w cfg count s = Some (y, s')"
    and a: "AddAll batch \<in> set (new_ops s s')"
  shows "\<exists>s1 E' U'. generate_users w cfg [1..count]
             (index_loaded s, set (map email (table s)), set (map username (table s)), [])
           = Some (None, s1, E', U', batch)"
  using run
proof (cases rule: seed_users_run)
  case create
  with a show ?thesis by (simp add: new_ops_def)
next
  case query
  with a show ?thesis by auto
next
  case (loop e s1 E' U' users)
  with a show ?thesis by simp
next
  case (submission e s1 E' U' users)
  from submission(5) a have "batch = users" by auto
  with submission(4) show ?thesis by blast
next
  case (committed s1 E' U' users)
  from committed(8) a have "batch = users" by simp
  with committed(4) show ?thesis by blast
qed

lemma seed_users_batch_unique:
  assumes run: "seed_users w cfg count s = Some (y, s')"
    and a: "AddAll batch \<in> set (new_ops s s')"
  shows "length batch = nat count
     \<and> distinct (map email batch) \<and> distinct (map username batch)
     \<and> set (map email batch) \<inter> set (map email (table s)) = {}
     \<and> set (map username batch) \<inter> set (map username (table s)) = {}"
proof -
  from seed_users_batch[OF run a] obtain s1 E' U' where
    g: "generate_users w cfg [1..count]
             (index_loaded s, set (map email (table s)), set (map username (table s)), [])
           = Some (None, s1, E', U', batch)"
    by blast
  from generate_users_inv[OF g] obtain new where
    new: "batch = [] @ new" "length new = length [1..count]"
      "distinct (map email new)" "distinct (map username new)"
      "set (map email new) \<inter> set (map email (table s)) = {}"
      "set (map username new) \<inter> set (map username (table s)) = {}"
    by (elim exE conjE) blast
  then show ?thesis by simp
qed

lemma seed_users_table_changed:
  assumes run: "seed_users w cfg count s = Some (y, s')"
    and t: "table s' \<noteq> table s"
  shows "\<exists>batch. table s' = table s @ batch \<and> AddAll batch \<in> set (new_ops s s')
           \<and> Commit \<in> set (new_ops s s') \<and> Rollback \<notin> set (new_ops s s')"
  using run
proof (cases rule: seed_users_run)
  case create
  with t show ?thesis by simp
next
  case query
  with t show ?thesis by simp
next
  case (loop e s1 E' U' users)
  with t show ?thesis by simp
next
  case (submission e s1 E' U' users)
  with t show ?thesis by simp
next
  case (committed s1 E' U' users)
  from committed(8,9) show ?thesis by simp
qed

section \<open>Uniqueness of the seeded records\<close>

text \<open>
  Claim C1. \<^verbatim>\<open>generate_fake_user\<close> returns a candidate only when its email and its user
  name are both absent from the index, and it returns the index with the two values
  added. The records the loop of \<^verbatim>\<open>seed_users\<close> appends have pairwise distinct emails,
  none of them in the index the loop is entered with, and likewise for the user names;
  a loop that ends without an exception has appended one record per iteration. In a run
  of \<^verbatim>\<open>seed_users\<close>, the list handed to \<^verbatim>\<open>add_all\<close> has \<^verbatim>\<open>count\<close> records, with pairwise
  distinct emails, none of them the email of a row the table holds when the run starts,
  and likewise for the user names; and a run that changes the table has appended the list
  it handed to \<^verbatim>\<open>add_all\<close>.
\<close>

theorem seeded_batch_unique:
  "(generate_fake_user w E U n = Some (n', Inr (ud, E1, U1)) \<longrightarrow>
      user_data.email ud \<notin> E \<and> user_data.username ud \<notin> U
      \<and> E1 = insert (user_data.email ud) E \<and> U1 = insert (user_data.username ud) U)
   \<and> (generate_users w cfg is (s0, E, U, us) = Some (None, s1, E', U', us') \<longrightarrow>
        (\<exists>new. us' = us @ new \<and> length new = length is
           \<and> distinct (map email new) \<and> set (map email new) \<inter> E = {}
           \<and> distinct (map username new) \<and> set (map username new) \<inter> U = {}))
   \<and> (seed_users w cfg count s = Some (y, s') \<and> AddAll batch \<in> set (new_ops s s') \<longrightarrow>
        length batch = nat count
        \<and> distinct (map email batch) \<and> distinct (map username batch)
        \<and> set (map email batch) \<inter> set (map email (table s)) = {}
        \<and> set (map username batch) \<inter> set (map username (table s)) = {})
   \<and> (seed_users w cfg count s = Some (y, s') \<and> table s' \<noteq> table s \<longrightarrow>
        (\<exists>rows. table s' = table s @ rows \<and> AddAll rows \<in> set (new_ops s s')))"
proof -
  have p1: "generate_fake_user w E U n = Some (n', Inr (ud, E1, U1)) \<longrightarrow>
      user_data.email ud \<notin> E \<and> user_data.username ud \<notin> U
      \<and> E1 = insert (user_data.email ud) E \<and> U1 = insert (user_data.username ud) U"
  proof (rule impI)
    assume "generate_fake_user w E U n = Some (n', Inr (ud, E1, U1))"
    from gen_accepts[OF this]
    show "user_data.email ud \<notin> E \<and> user_data.username ud \<notin> U
      \<and> E1 = insert (user_data.email ud) E \<and> U1 = insert (user_data.username ud) U"
      by simp
  qed
  have p2: "generate_users w cfg is (s0, E, U, us) = Some (None, s1, E', U', us') \<longrightarrow>
        (\<exists>new. us' = us @ new \<and> length new = length is
           \<and> distinct (map email new) \<and> set (map email new) \<inter> E = {}
           \<and> distinct (map username new) \<and> set (map username new) \<inter> U = {})"
  proof (rule impI)
    assume g: "generate_users w cfg is (s0, E, U, us) = Some (None, s1, E', U', us')"
    from generate_users_inv[OF g] obtain new where
      new: "us' = us @ new" "length new = length is"
        "distinct (map email new)" "distinct (map username new)"
        "set (map email new) \<inter> E = {}" "set (map username new) \<inter> U = {}"
      by (elim exE conjE) blast
    then show "\<exists>new. us' = us @ new \<and> length new = length is
           \<and> distinct (map email new) \<and> set (map email new) \<inter> E = {}
           \<and> distinct (map username new) \<and> set (map username new) \<inter> U = {}"
      by blast
  qed
  have p3: "seed_users w cfg count s = Some (y, s') \<and> AddAll batch \<in> set (new_ops s s') \<longrightarrow>
        length batch = nat count
        \<and> distinct (map email batch) \<and> distinct (map username batch)
        \<and> set (map email batch) \<inter> set (map email (table s)) = {}
        \<and> set (map username batch) \<inter> set (map username (table s)) = {}"
    using seed_users_batch_unique[of w cfg count s y s' batch] by blast
  have p4: "seed_users w cfg count s = Some (y, s') \<and> table s' \<noteq> table s \<longrightarrow>
        (\<exists>rows. table s' = table s @ rows \<and> AddAll rows \<in> set (new_ops s s'))"
    using seed_users_table_changed[of w cfg count s y s'] by blast
  show ?thesis by (rule conjI[OF p1 conjI[OF p2 conjI[OF p3 p4]]])
qed

lemma demo_accept:
  "generate_fake_user demo_env {''ann@x.org''} {''ann''} 0
     = Some (2, Inr (bob_data, {''bob@x.org'', ''ann@x.org''}, {''bob'', ''ann''}))"
  by code_simp

lemma demo_loop:
  "generate_users demo_env demo_cfg [1, 2]
       (index_loaded demo_seeded, {''ann@x.org''}, {''ann''}, [])
     = Some (None, demo_looped, {''cy@x.org'', ''bob@x.org'', ''ann@x.org''},
             {''cy'', ''bob'', ''ann''}, [bob, cy])"
  by code_simp

lemma demo_run: "seed_users demo_env demo_cfg 2 demo_seeded = Some (None, demo_final)"
  by code_simp

lemma demo_final_ops:
  "new_ops demo_seeded demo_final
     = [CreateAll, QueryEmails, QueryUsernames, AddAll [bob, cy], Commit, Close]"
  by code_simp

theorem seeded_batch_unique_witness:
  "(user_data.email bob_data \<notin> {''ann@x.org''} \<and> user_data.username bob_data \<notin> {''ann''}
      \<and> {''bob@x.org'', ''ann@x.org''} = insert (user_data.email bob_data) {''ann@x.org''}
      \<and> {''bob'', ''ann''} = insert (user_data.username bob_data) {''ann''})
   \<and> (\<exists>new. [bob, cy] = [] @ new \<and> length new = length [1 :: int, 2]
         \<and> distinct (map email new) \<and> set (map email new) \<inter> {''ann@x.org''} = {}
         \<and> distinct (map username new) \<and> set (map username new) \<inter> {''ann''} = {})
   \<and> (seed_users demo_env demo_cfg 2 demo_seeded = Some (None, demo_final)
      \<and> AddAll [bob, cy] \<in> set (new_ops demo_seeded demo_final)
      \<and> length [bob, cy] = nat 2
      \<and> distinct (map email [bob, cy]) \<and> distinct (map username [bob, cy])
      \<and> set (map email [bob, cy]) \<inter> set (map email (table demo_seeded)) = {}
      \<and> set (map username [bob, cy]) \<inter> set (map username (table demo_seeded)) = {})
   \<and> (\<exists>rows. table demo_final = table demo_seeded @ rows
         \<and> AddAll rows \<in> set (new_ops demo_seeded demo_final))"
proof -
  note T = seeded_batch_unique
    [where w = demo_env and E = "{''ann@x.org''}" and U = "{''ann''}" and n = 0 and n' = 2
       and ud = bob_data and ?E1.0 = "{''bob@x.org'', ''ann@x.org''}" and ?U1.0 = "{''bob'', ''ann''}"
       and cfg = demo_cfg and ?is = "[1, 2]" and ?s0.0 = "index_loaded demo_seeded" and us = "[]"
       and ?s1.0 = demo_looped
       and E' = "{''cy@x.org'', ''bob@x.org'', ''ann@x.org''}" and U' = "{''cy'', ''bob'', ''ann''}"
       and us' = "[bob, cy]" and count = 2 and s = demo_seeded and y = None and s' = demo_final
       and batch = "[bob, cy]"]
  have a: "AddAll [bob, cy] \<in> set (new_ops demo_seeded demo_final)"
    by (simp add: demo_final_ops)
  have t: "table demo_final \<noteq> table demo_seeded"
    by (simp add: demo_final_def demo_seeded_def)
  note c1 = T[THEN conjunct1, THEN mp, OF demo_accept]
  note c2 = T[THEN conjunct2, THEN conjunct1, THEN mp, OF demo_loop]
  note c3 = T[THEN conjunct2, THEN conjunct2, THEN conjunct1, THEN mp, OF conjI[OF demo_run a]]
  note c4 = T[THEN conjunct2, THEN conjunct2, THEN conjunct2, THEN mp, OF conjI[OF demo_run t]]
  show ?thesis by (rule conjI[OF c1 conjI[OF c2 conjI[OF conjI[OF demo_run conjI[OF a c3]] c4]]])
qed

section \<open>The duplicate index\<close>

lemma seed_users_enters_loop:
  assumes run: "seed_users w cfg count s = Some (y, s')"
    and f: "fault w CreateAll = None" "fault w QueryEmails = None" "fault w QueryUsernames = None"
  shows "\<exists>x s1 E' U' users.
           generate_users w cfg [1..count]
               (index_loaded s, set (map email (table s)), set (map username (table s)), [])
             = Some (x, s1, E', U', users)
           \<and> drawn s' = drawn s1 \<and> take (length (stdout s1)) (stdout s') = stdout s1
           \<and> (x = None \<longrightarrow> AddAll users \<in> set (new_ops s s'))"
  using run
proof (cases rule: seed_users_run)
  case create
  with f show ?thesis by simp
next
  case query
  with f show ?thesis by simp
next
  case (loop e s1 E' U' users)
  from loop(8) have "take (length (stdout s1)) (stdout s') = stdout s1" by simp
  with loop(4,7) show ?thesis by blast
next
  case (submission e s1 E' U' users)
  from submission(5) have "AddAll users \<in> set (new_ops s s')" by auto
  with submission(4,7,8) show ?thesis by blast
next
  case (committed s1 E' U' users)
  from committed(8) have a: "AddAll users \<in> set (new_ops s s')" by simp
  from committed(11) have "take (length (stdout s1)) (stdout s') = stdout s1" by simp
  with a committed(4,10) show ?thesis by blast
qed

lemma seed_users_queries:
  assumes run: "seed_users w cfg count s = Some (y, s')"
  shows "count_list (new_ops s s') QueryEmails \<le> 1
     \<and> count_list (new_ops s s') QueryUsernames \<le> 1
     \<and> (fault w CreateAll = None \<longrightarrow> take 2 (new_ops s s') = [CreateAll, QueryEmails])
     \<and> (fault w CreateAll = None \<and> fault w QueryEmails = None \<longrightarrow>
           take 3 (new_ops s s') = [CreateAll, QueryEmails, QueryUsernames])"
  using run
proof (cases rule: seed_users_run)
  case create
  then show ?thesis by (simp add: new_ops_def)
next
  case query
  then show ?thesis by auto
next
  case (loop e s1 E' U' users)
  then show ?thesis by simp
next
  case (submission e s1 E' U' users)
  from submission(5) show ?thesis by auto
next
  case (committed s1 E' U' users)
  then show ?thesis by simp
qed

text \<open>
  Claim C8. The two sets are changed in one place only: when \<^verbatim>\<open>generate_fake_user\<close> accepts
  a candidate, each set gains the candidate's value and loses nothing. Over the loop of
  \<^verbatim>\<open>seed_users\<close> both sets only grow, to the index the loop started with and the values of
  the records built when the loop ends without an exception, and the loop makes no store
  call and leaves the table alone. In a run the emails and the user names are each queried
  at most once, right after \<^verbatim>\<open>create_all\<close>. And a run in which \<^verbatim>\<open>create_all\<close> and the two
  queries raise nothing is the loop entered with the emails and the user names of the rows
  the table holds when the run starts: it takes the draws and prints the texts of that
  loop, and when that loop ends without an exception it hands the records of that loop to
  \<^verbatim>\<open>add_all\<close>.
\<close>

theorem duplicate_index_loaded_once_and_grows:
  "(generate_fake_user w E U n = Some (n', Inr (ud, E1, U1)) \<longrightarrow>
      E1 = insert (user_data.email ud) E \<and> U1 = insert (user_data.username ud) U)
   \<and> (generate_users w cfg is (s0, E, U, us) = Some (x, s1, E', U', us') \<longrightarrow>
        E \<subseteq> E' \<and> U \<subseteq> U' \<and> ops s1 = ops s0 \<and> table s1 = table s0
        \<and> (x = None \<longrightarrow> E' = E \<union> set (map email (drop (length us) us'))
                           \<and> U' = U \<union> set (map username (drop (length us) us'))))
   \<and> (seed_users w cfg count s = Some (y, s') \<longrightarrow>
        count_list (new_ops s s') QueryEmails \<le> 1
        \<and> count_list (new_ops s s') QueryUsernames \<le> 1
        \<and> (fault w CreateAll = None \<longrightarrow> take 2 (new_ops s s') = [CreateAll, QueryEmails])
        \<and> (fault w CreateAll = None \<and> fault w QueryEmails = None \<longrightarrow>
              take 3 (new_ops s s') = [CreateAll, QueryEmails, QueryUsernames]))
   \<and> (seed_users w cfg count s = Some (y, s') \<and> fault w CreateAll = None
        \<and> fault w QueryEmails = None \<and> fault w QueryUsernames = None \<longrightarrow>
        (\<exists>r l F V users.
           generate_users w cfg [1..count]
               (index_loaded s, set (map email (table s)), set (map username (table s)), [])
             = Some (r, l, F, V, users)
           \<and> drawn s' = drawn l \<and> take (length (stdout l)) (stdout s') = stdout l
           \<and> (r = None \<longrightarrow> AddAll users \<in> set (new_ops s s'))))"
proof -
  have p1: "generate_fake_user w E U n = Some (n', Inr (ud, E1, U1)) \<longrightarrow>
      E1 = insert (user_data.email ud) E \<and> U1 = insert (user_data.username ud) U"
  proof (rule impI)
    assume "generate_fake_user w E U n = Some (n', Inr (ud, E1, U1))"
    from gen_accepts[OF this]
    show "E1 = insert (user_data.email ud) E \<and> U1 = insert (user_data.username ud) U"
      by simp
  qed
  have p2: "generate_users w cfg is (s0, E, U, us) = Some (x, s1, E', U', us') \<longrightarrow>
        E \<subseteq> E' \<and> U \<subseteq> U' \<and> ops s1 = ops s0 \<and> table s1 = table s0
        \<and> (x = None \<longrightarrow> E' = E \<union> set (map email (drop (length us) us'))
                           \<and> U' = U \<union> set (map username (drop (length us) us')))"
  proof (rule impI)
    assume g: "generate_users w cfg is (s0, E, U, us) = Some (x, s1, E', U', us')"
    from generate_users_inv[OF g] obtain new where
      new: "us' = us @ new"
        "E \<union> set (map email new) \<subseteq> E'" "U \<union> set (map username new) \<subseteq> U'"
        "x = None \<longrightarrow> E' = E \<union> set (map email new) \<and> U' = U \<union> set (map username new)
                        \<and> length new = length is"
        "ops s1 = ops s0" "table s1 = table s0"
      by (elim exE conjE) blast
    from new(1) have "drop (length us) us' = new" by simp
    with new(2-6)
    show "E \<subseteq> E' \<and> U \<subseteq> U' \<and> ops s1 = ops s0 \<and> table s1 = table s0
        \<and> (x = None \<longrightarrow> E' = E \<union> set (map email (drop (length us) us'))
                           \<and> U' = U \<union> set (map username (drop (length us) us')))"
      by simp
  qed
  have p3: "seed_users w cfg count s = Some (y, s') \<longrightarrow>
        count_list (new_ops s s') QueryEmails \<le> 1
        \<and> count_list (new_ops s s') QueryUsernames \<le> 1
        \<and> (fault w CreateAll = None \<longrightarrow> take 2 (new_ops s s') = [CreateAll, QueryEmails])
        \<and> (fault w CreateAll = None \<and> fault w QueryEmails = None \<longrightarrow>
              take 3 (new_ops s s') = [CreateAll, QueryEmails, QueryUsernames])"
    using seed_users_queries[of w cfg count s y s'] by (rule impI)
  have p4: "seed_users w cfg count s = Some (y, s') \<and> fault w CreateAll = None
        \<and> fault w QueryEmails = None \<and> fault w QueryUsernames = None \<longrightarrow>
        (\<exists>r l F V users.
           generate_users w cfg [1..count]
               (index_loaded s, set (map email (table s)), set (map username (table s)), [])
             = Some (r, l, F, V, users)
           \<and> drawn s' = drawn l \<and> take (length (stdout l)) (stdout s') = stdout l
           \<and> (r = None \<longrightarrow> AddAll users \<in> set (new_ops s s')))"
  proof (rule impI)
    assume a: "seed_users w cfg count s = Some (y, s') \<and> fault w CreateAll = None
        \<and> fault w QueryEmails = None \<and> fault w QueryUsernames = None"
    then have run: "seed_users w cfg count s = Some (y, s')"
      and f: "fault w CreateAll = None" "fault w QueryEmails = None" "fault w QueryUsernames = None"
      by simp_all
    from seed_users_enters_loop[OF run f]
    show "\<exists>r l F V users.
           generate_users w cfg [1..count]
               (index_loaded s, set (map email (table s)), set (map username (table s)), [])
             = Some (r, l, F, V, users)
           \<and> drawn s' = drawn l \<and> take (length (stdout l)) (stdout s') = stdout l
           \<and> (r = None \<longrightarrow> AddAll users \<in> set (new_ops s s'))" .
  qed
  show ?thesis by (rule conjI[OF p1 conjI[OF p2 conjI[OF p3 p4]]])
qed

lemma demo_range: "[1..2] = [1, 2 :: int]"
  by code_simp

lemma demo_seeded_index:
  "set (map email (table demo_seeded)) = {''ann@x.org''}"
  "set (map username (table demo_seeded)) = {''ann''}"
  by (simp_all add: demo_seeded_def ann_def)

theorem duplicate_index_loaded_once_and_grows_witness:
  "({''bob@x.org'', ''ann@x.org''} = insert (user_data.email bob_data) {''ann@x.org''}
    \<and> {''bob'', ''ann''} = insert (user_data.username bob_data) {''ann''})
   \<and> ({''ann@x.org''} \<subseteq> {''cy@x.org'', ''bob@x.org'', ''ann@x.org''}
      \<and> {''ann''} \<subseteq> {''cy'', ''bob'', ''ann''}
      \<and> ops demo_looped = ops (index_loaded demo_seeded)
      \<and> table demo_looped = table (index_loaded demo_seeded)
      \<and> {''cy@x.org'', ''bob@x.org'', ''ann@x.org''}
          = {''ann@x.org''} \<union> set (map email (drop (length []) [bob, cy]))
      \<and> {''cy'', ''bob'', ''ann''} = {''ann''} \<union> set (map username (drop (length []) [bob, cy])))
   \<and> (count_list (new_ops demo_seeded demo_final) QueryEmails \<le> 1
      \<and> count_list (new_ops demo_seeded demo_final) QueryUsernames \<le> 1
      \<and> take 2 (new_ops demo_seeded demo_final) = [CreateAll, QueryEmails]
      \<and> take 3 (new_ops demo_seeded demo_final) = [CreateAll, QueryEmails, QueryUsernames])
   \<and> (seed_users demo_env demo_cfg 2 demo_seeded = Some (None, demo_final)
      \<and> drawn demo_final = drawn demo_looped
      \<and> take (length (stdout demo_looped)) (stdout demo_final) = stdout demo_looped
      \<and> AddAll [bob, cy] \<in> set (new_ops demo_seeded demo_final))"
proof -
  note T = duplicate_index_loaded_once_and_grows
    [where w = demo_env and E = "{''ann@x.org''}" and U = "{''ann''}" and n = 0 and n' = 2
       and ud = bob_data and ?E1.0 = "{''bob@x.org'', ''ann@x.org''}" and ?U1.0 = "{''bob'', ''ann''}"
       and cfg = demo_cfg and ?is = "[1, 2]" and ?s0.0 = "index_loaded demo_seeded" and us = "[]"
       and x = None and ?s1.0 = demo_looped
       and E' = "{''cy@x.org'', ''bob@x.org'', ''ann@x.org''}" and U' = "{''cy'', ''bob'', ''ann''}"
       and us' = "[bob, cy]" and count = 2 and s = demo_seeded and y = None and s' = demo_final]
  have f: "fault demo_env CreateAll = None" "fault demo_env QueryEmails = None"
    "fault demo_env QueryUsernames = None"
    by (simp_all add: demo_env_def)
  note c1 = T[THEN conjunct1, THEN mp, OF demo_accept]
  note r2 = T[THEN conjunct2, THEN conjunct1, THEN mp, OF demo_loop]
  note r3 = T[THEN conjunct2, THEN conjunct2, THEN conjunct1, THEN mp, OF demo_run]
  note r4 = T[THEN conjunct2, THEN conjunct2, THEN conjunct2, THEN mp,
              OF conjI[OF demo_run conjI[OF f(1) conjI[OF f(2) f(3)]]]]
  have c2: "{''ann@x.org''} \<subseteq> {''cy@x.org'', ''bob@x.org'', ''ann@x.org''}
      \<and> {''ann''} \<subseteq> {''cy'', ''bob'', ''ann''}
      \<and> ops demo_looped = ops (index_loaded demo_seeded)
      \<and> table demo_looped = table (index_loaded demo_seeded)
      \<and> {''cy@x.org'', ''bob@x.org'', ''ann@x.org''}
          = {''ann@x.org''} \<union> set (map email (drop (length []) [bob, cy]))
      \<and> {''cy'', ''bob'', ''ann''} = {''ann''} \<union> set (map username (drop (length []) [bob, cy]))"
    using r2 by simp
  have c3: "count_list (new_ops demo_seeded demo_final) QueryEmails \<le> 1
      \<and> count_list (new_ops demo_seeded demo_final) QueryUsernames \<le> 1
      \<and> take 2 (new_ops demo_seeded demo_final) = [CreateAll, QueryEmails]
      \<and> take 3 (new_ops demo_seeded demo_final) = [CreateAll, QueryEmails, QueryUsernames]"
    using r3 f by simp
  from r4 obtain r l F V users where
    g: "generate_users demo_env demo_cfg [1..2]
          (index_loaded demo_seeded, set (map email (table demo_seeded)),
           set (map username (table demo_seeded)), []) = Some (r, l, F, V, users)"
    and d: "drawn demo_final = drawn l"
    and o: "take (length (stdout l)) (stdout demo_final) = stdout l"
    and b: "r = None \<longrightarrow> AddAll users \<in> set (new_ops demo_seeded demo_final)"
    by (elim exE conjE)
  from g have "Some (r, l, F, V, users)
      = Some (None, demo_looped, {''cy@x.org'', ''bob@x.org'', ''ann@x.org''},
              {''cy'', ''bob'', ''ann''}, [bob, cy])"
    by (simp only: demo_range demo_seeded_index demo_loop)
  then have e: "r = None" "l = demo_looped" "users = [bob, cy]" by simp_all
  from d o b have c4: "drawn demo_final = drawn demo_looped
      \<and> take (length (stdout demo_looped)) (stdout demo_final) = stdout demo_looped
      \<and> AddAll [bob, cy] \<in> set (new_ops demo_seeded demo_final)"
    unfolding e by simp
  show ?thesis by (rule conjI[OF c1 conjI[OF c2 conjI[OF c3 conjI[OF demo_run c4]]]])
qed

section \<open>All or nothing\<close>

text \<open>The three ends of a run: \<^verbatim>\<open>create_all\<close> raises before the \<^verbatim>\<open>try\<close>; the batch is
  committed; or the \<^verbatim>\<open>try\<close> block raises, and the run ends with one \<^verbatim>\<open>rollback\<close> and the
  \<^verbatim>\<open>close\<close>, the table as it was.\<close>

lemma seed_users_ends:
  assumes run: "seed_users w cfg count s = Some (y, s')"
  shows "(fault w CreateAll \<noteq> None \<and> new_ops s s' = [CreateAll] \<and> table s' = table s)
     \<or> (\<exists>batch. new_ops s s'
             = [CreateAll, QueryEmails, QueryUsernames, AddAll batch, Commit, Close]
           \<and> table s' = table s @ batch \<and> length batch = nat count
           \<and> fault w (AddAll batch) = None \<and> fault w Commit = None
           \<and> insert_rows w (table s) batch = Inr (table s'))
     \<or> (table s' = table s
         \<and> (\<exists>calls. new_ops s s' = CreateAll # calls @ [Rollback, Close]
                \<and> Rollback \<notin> set calls))"
  using run
proof (cases rule: seed_users_run)
  case create
  then show ?thesis by (simp add: new_ops_def)
next
  case query
  from query(2) have "\<exists>calls. new_ops s s' = CreateAll # calls @ [Rollback, Close]
                \<and> Rollback \<notin> set calls"
  proof (elim disjE conjE)
    assume "new_ops s s' = [CreateAll, QueryEmails, Rollback, Close]"
    then show ?thesis by (intro exI[of _ "[QueryEmails]"]) simp
  next
    assume "new_ops s s' = [CreateAll, QueryEmails, QueryUsernames, Rollback, Close]"
    then show ?thesis by (intro exI[of _ "[QueryEmails, QueryUsernames]"]) simp
  qed
  with query(3) show ?thesis by simp
next
  case (loop e s1 E' U' users)
  from loop(5) have "\<exists>calls. new_ops s s' = CreateAll # calls @ [Rollback, Close]
                \<and> Rollback \<notin> set calls"
    by (intro exI[of _ "[QueryEmails, QueryUsernames]"]) simp
  with loop(6) show ?thesis by simp
next
  case (submission e s1 E' U' users)
  from submission(5) have "\<exists>calls. new_ops s s' = CreateAll # calls @ [Rollback, Close]
                \<and> Rollback \<notin> set calls"
  proof (elim disjE conjE)
    assume "new_ops s s' = [CreateAll, QueryEmails, QueryUsernames, AddAll users, Rollback, Close]"
    then show ?thesis by (intro exI[of _ "[QueryEmails, QueryUsernames, AddAll users]"]) simp
  next
    assume "new_ops s s'
      = [CreateAll, QueryEmails, QueryUsernames, AddAll users, Commit, Rollback, Close]"
    then show ?thesis by (intro exI[of _ "[QueryEmails, QueryUsernames, AddAll users, Commit]"]) simp
  next
    assume "new_ops s s'
      = [CreateAll, QueryEmails, QueryUsernames, AddAll users, Commit, Rollback, Close]"
    then show ?thesis by (intro exI[of _ "[QueryEmails, QueryUsernames, AddAll users, Commit]"]) simp
  qed
  with submission(6) show ?thesis by simp
next
  case (committed s1 E' U' users)
  from generate_users_inv[OF committed(4)] have "length users = nat count" by auto
  with committed(5-9) have "\<exists>batch. new_ops s s'
             = [CreateAll, QueryEmails, QueryUsernames, AddAll batch, Commit, Close]
           \<and> table s' = table s @ batch \<and> length batch = nat count
           \<and> fault w (AddAll batch) = None \<and> fault w Commit = None
           \<and> insert_rows w (table s) batch = Inr (table s')"
    by (intro exI[of _ users]) simp
  then show ?thesis by simp
qed

text \<open>An error in the submission of a run: the run ends with the rollback, the table as
  it was.\<close>

lemma seed_users_submission_error:
  assumes run: "seed_users w cfg count s = Some (y, s')"
    and a: "AddAll batch \<in> set (new_ops s s')"
    and err: "fault w (AddAll batch) \<noteq> None \<or> fault w Commit \<noteq> None
              \<or> insert_rows w (table s) batch = Inl e"
  shows "table s' = table s
     \<and> (new_ops s s' = [CreateAll, QueryEmails, QueryUsernames, AddAll batch, Rollback, Close]
        \<or> new_ops s s'
             = [CreateAll, QueryEmails, QueryUsernames, AddAll batch, Commit, Rollback, Close])"
  using run
proof (cases rule: seed_users_run)
  case create
  with a show ?thesis by (simp add: new_ops_def)
next
  case query
  with a show ?thesis by auto
next
  case (loop e s1 E' U' users)
  with a show ?thesis by simp
next
  case (submission e s1 E' U' users)
  from submission(5) a have "batch = users" by auto
  with submission(5,6) show ?thesis by auto
next
  case (committed s1 E' U' users)
  from committed(8) a have "batch = users" by simp
  with committed(5,6,7) err show ?thesis by simp
qed

lemma seed_users_no_retry:
  assumes run: "seed_users w cfg count s = Some (y, s')"
  shows "count_list (new_ops s s') Commit \<le> 1 \<and> count_list (new_ops s s') (AddAll batch) \<le> 1"
  using run
proof (cases rule: seed_users_run)
  case create
  then show ?thesis by (simp add: new_ops_def)
next
  case query
  then show ?thesis by auto
next
  case (loop e s1 E' U' users)
  then show ?thesis by simp
next
  case (submission e s1 E' U' users)
  from submission(5) show ?thesis by auto
next
  case (committed s1 E' U' users)
  then show ?thesis by simp
qed

text \<open>
  Claim C2. When \<^verbatim>\<open>add_all\<close> or \<^verbatim>\<open>commit\<close> raises, whatever the exception, the table has the
  rows it had. A run of \<^verbatim>\<open>seed_users\<close> ends in one of three ways:
  \<^verbatim>\<open>create_all\<close> has raised, before the \<^verbatim>\<open>try\<close>; or the whole batch of \<^verbatim>\<open>count\<close> records
  is committed, after an \<^verbatim>\<open>add_all\<close> and a \<^verbatim>\<open>commit\<close> that did not raise; or the \<^verbatim>\<open>try\<close> block
  has raised, at any of its calls, and the run ends with exactly one \<^verbatim>\<open>rollback\<close> and the
  \<^verbatim>\<open>close\<close>, the table as it was. In particular a run that has handed its batch to
  \<^verbatim>\<open>add_all\<close> and meets an error there or in the commit (an exception of the store, or a
  row the table refuses) calls \<^verbatim>\<open>rollback\<close> next and leaves the table as it was. No call
  is tried again: \<^verbatim>\<open>commit\<close> and \<^verbatim>\<open>add_all\<close> are called at most once.
\<close>

theorem seed_users_all_or_nothing:
  "(submit w users count s0 = (Some e, s1) \<longrightarrow> table s1 = table s0)
   \<and> (seed_users w cfg count s = Some (y, s') \<longrightarrow>
        (fault w CreateAll \<noteq> None \<and> new_ops s s' = [CreateAll] \<and> table s' = table s)
        \<or> (\<exists>batch. new_ops s s'
                = [CreateAll, QueryEmails, QueryUsernames, AddAll batch, Commit, Close]
              \<and> table s' = table s @ batch \<and> length batch = nat count
              \<and> fault w (AddAll batch) = None \<and> fault w Commit = None
              \<and> insert_rows w (table s) batch = Inr (table s'))
        \<or> (table s' = table s
            \<and> (\<exists>calls. new_ops s s' = CreateAll # calls @ [Rollback, Close]
                   \<and> Rollback \<notin> set calls)))
   \<and> (seed_users w cfg count s = Some (y, s') \<and> AddAll batch \<in> set (new_ops s s')
        \<and> (fault w (AddAll batch) \<noteq> None \<or> fault w Commit \<noteq> None
            \<or> insert_rows w (table s) batch = Inl e') \<longrightarrow>
        table s' = table s
        \<and> (new_ops s s' = [CreateAll, QueryEmails, QueryUsernames, AddAll batch, Rollback, Close]
           \<or> new_ops s s'
                = [CreateAll, QueryEmails, QueryUsernames, AddAll batch, Commit, Rollback, Close]))
   \<and> (seed_users w cfg count s = Some (y, s') \<longrightarrow>
        count_list (new_ops s s') Commit \<le> 1 \<and> count_list (new_ops s s') (AddAll batch) \<le> 1)"
proof -
  have p1: "submit w users count s0 = (Some e, s1) \<longrightarrow> table s1 = table s0"
  proof (rule impI)
    assume "submit w users count s0 = (Some e, s1)"
    then show "table s1 = table s0" by (cases rule: submit_cases) simp_all
  qed
  have p2: "seed_users w cfg count s = Some (y, s') \<longrightarrow>
        (fault w CreateAll \<noteq> None \<and> new_ops s s' = [CreateAll] \<and> table s' = table s)
        \<or> (\<exists>batch. new_ops s s'
                = [CreateAll, QueryEmails, QueryUsernames, AddAll batch, Commit, Close]
              \<and> table s' = table s @ batch \<and> length batch = nat count
              \<and> fault w (AddAll batch) = None \<and> fault w Commit = None
              \<and> insert_rows w (table s) batch = Inr (table s'))
        \<or> (table s' = table s
            \<and> (\<exists>calls. new_ops s s' = CreateAll # calls @ [Rollback, Close]
                   \<and> Rollback \<notin> set calls))"
    using seed_users_ends[of w cfg count s y s'] by (rule impI)
  have p3: "seed_users w cfg count s = Some (y, s') \<and> AddAll batch \<in> set (new_ops s s')
        \<and> (fault w (AddAll batch) \<noteq> None \<or> fault w Commit \<noteq> None
            \<or> insert_rows w (table s) batch = Inl e') \<longrightarrow>
        table s' = table s
        \<and> (new_ops s s' = [CreateAll, QueryEmails, QueryUsernames, AddAll batch, Rollback, Close]
           \<or> new_ops s s'
                = [CreateAll, QueryEmails, QueryUsernames, AddAll batch, Commit, Rollback, Close])"
    using seed_users_submission_error[of w cfg count s y s' batch e'] by blast
  have p4: "seed_users w cfg count s = Some (y, s') \<longrightarrow>
        count_list (new_ops s s') Commit \<le> 1 \<and> count_list (new_ops s s') (AddAll batch) \<le> 1"
    using seed_users_no_retry[of w cfg count s y s' batch] by (rule impI)
  show ?thesis by (rule conjI[OF p1 conjI[OF p2 conjI[OF p3 p4]]])
qed

lemma demo_submit_fails:
  "submit demo_env [ann] 1 demo_seeded = (Some duplicate_email, demo_submit_failed)"
  by code_simp

lemma demo_commit_fault_run:
  "seed_users demo_commit_fault demo_cfg 2 demo_seeded = Some (None, demo_rolled_back)"
  by code_simp

lemma demo_add_all_fault_run:
  "seed_users demo_add_all_fault demo_cfg 2 demo_seeded = Some (None, demo_not_added)"
  by code_simp

lemma demo_rolled_back_ops:
  "new_ops demo_seeded demo_rolled_back
     = [CreateAll, QueryEmails, QueryUsernames, AddAll [bob, cy], Commit, Rollback, Close]"
  by code_simp

lemma demo_not_added_ops:
  "new_ops demo_seeded demo_not_added
     = [CreateAll, QueryEmails, QueryUsernames, AddAll [bob, cy], Rollback, Close]"
  by code_simp

theorem seed_users_all_or_nothing_witness:
  "(submit demo_env [ann] 1 demo_seeded = (Some duplicate_email, demo_submit_failed)
      \<and> table demo_submit_failed = table demo_seeded)
   \<and> (seed_users demo_commit_fault demo_cfg 2 demo_seeded = Some (None, demo_rolled_back)
      \<and> AddAll [bob, cy] \<in> set (new_ops demo_seeded demo_rolled_back)
      \<and> fault demo_commit_fault Commit \<noteq> None
      \<and> table demo_rolled_back = table demo_seeded
      \<and> new_ops demo_seeded demo_rolled_back
          = [CreateAll, QueryEmails, QueryUsernames, AddAll [bob, cy], Commit, Rollback, Close])
   \<and> (seed_users demo_add_all_fault demo_cfg 2 demo_seeded = Some (None, demo_not_added)
      \<and> AddAll [bob, cy] \<in> set (new_ops demo_seeded demo_not_added)
      \<and> fault demo_add_all_fault (AddAll [bob, cy]) \<noteq> None
      \<and> table demo_not_added = table demo_seeded
      \<and> new_ops demo_seeded demo_not_added
          = [CreateAll, QueryEmails, QueryUsernames, AddAll [bob, cy], Rollback, Close])
   \<and> (seed_users demo_env demo_cfg 2 demo_seeded = Some (None, demo_final)
      \<and> (\<exists>batch. new_ops demo_seeded demo_final
                = [CreateAll, QueryEmails, QueryUsernames, AddAll batch, Commit, Close]
              \<and> table demo_final = table demo_seeded @ batch \<and> length batch = nat 2
              \<and> fault demo_env (AddAll batch) = None \<and> fault demo_env Commit = None
              \<and> insert_rows demo_env (table demo_seeded) batch = Inr (table demo_final)))
   \<and> count_list (new_ops demo_seeded demo_rolled_back) Commit \<le> 1
   \<and> count_list (new_ops demo_seeded demo_rolled_back) (AddAll [bob, cy]) \<le> 1"
proof -
  note T1 = seed_users_all_or_nothing
    [where w = demo_env and users = "[ann]" and count = 1 and ?s0.0 = demo_seeded
       and e = duplicate_email and ?s1.0 = demo_submit_failed]
  note c1 = conjI[OF demo_submit_fails T1[THEN conjunct1, THEN mp, OF demo_submit_fails]]
  note T2 = seed_users_all_or_nothing
    [where w = demo_commit_fault and cfg = demo_cfg and count = 2 and s = demo_seeded
       and y = None and s' = demo_rolled_back and batch = "[bob, cy]"]
  have a2: "AddAll [bob, cy] \<in> set (new_ops demo_seeded demo_rolled_back)"
    by (simp add: demo_rolled_back_ops)
  have f2: "fault demo_commit_fault Commit \<noteq> None"
    by (simp add: demo_commit_fault_def)
  have h2: "fault demo_commit_fault (AddAll [bob, cy]) \<noteq> None \<or> fault demo_commit_fault Commit \<noteq> None
            \<or> insert_rows demo_commit_fault (table demo_seeded) [bob, cy] = Inl (OtherError [])"
    using f2 by simp
  note r2 = T2[THEN conjunct2, THEN conjunct2, THEN conjunct1, THEN mp,
               OF conjI[OF demo_commit_fault_run conjI[OF a2 h2]]]
  have c2: "seed_users demo_commit_fault demo_cfg 2 demo_seeded = Some (None, demo_rolled_back)
      \<and> AddAll [bob, cy] \<in> set (new_ops demo_seeded demo_rolled_back)
      \<and> fault demo_commit_fault Commit \<noteq> None
      \<and> table demo_rolled_back = table demo_seeded
      \<and> new_ops demo_seeded demo_rolled_back
          = [CreateAll, QueryEmails, QueryUsernames, AddAll [bob, cy], Commit, Rollback, Close]"
    using demo_commit_fault_run a2 f2 r2[THEN conjunct1] demo_rolled_back_ops by (intro conjI)
  note c5 = T2[THEN conjunct2, THEN conjunct2, THEN conjunct2, THEN mp, OF demo_commit_fault_run]
  note T3 = seed_users_all_or_nothing
    [where w = demo_add_all_fault and cfg = demo_cfg and count = 2 and s = demo_seeded
       and y = None and s' = demo_not_added and batch = "[bob, cy]"]
  have a3: "AddAll [bob, cy] \<in> set (new_ops demo_seeded demo_not_added)"
    by (simp add: demo_not_added_ops)
  have f3: "fault demo_add_all_fault (AddAll [bob, cy]) \<noteq> None"
    by (simp add: demo_add_all_fault_def)
  have h3: "fault demo_add_all_fault (AddAll [bob, cy]) \<noteq> None \<or> fault demo_add_all_fault Commit \<noteq> None
            \<or> insert_rows demo_add_all_fault (table demo_seeded) [bob, cy] = Inl (OtherError [])"
    using f3 by simp
  note r3 = T3[THEN conjunct2, THEN conjunct2, THEN conjunct1, THEN mp,
               OF conjI[OF demo_add_all_fault_run conjI[OF a3 h3]]]
  have c3: "seed_users demo_add_all_fault demo_cfg 2 demo_seeded = Some (None, demo_not_added)
      \<and> AddAll [bob, cy] \<in> set (new_ops demo_seeded demo_not_added)
      \<and> fault demo_add_all_fault (AddAll [bob, cy]) \<noteq> None
      \<and> table demo_not_added = table demo_seeded
      \<and> new_ops demo_seeded demo_not_added
          = [CreateAll, QueryEmails, QueryUsernames, AddAll [bob, cy], Rollback, Close]"
    using demo_add_all_fault_run a3 f3 r3[THEN conjunct1] demo_not_added_ops by (intro conjI)
  note T4 = seed_users_all_or_nothing
    [where w = demo_env and cfg = demo_cfg and count = 2 and s = demo_seeded
       and y = None and s' = demo_final]
  note r4 = T4[THEN conjunct2, THEN conjunct1, THEN mp, OF demo_run]
  have n1: "new_ops demo_seeded demo_final \<noteq> [CreateAll]"
    by (simp add: demo_final_ops)
  have n2: "table demo_final \<noteq> table demo_seeded"
    by (simp add: demo_final_def demo_seeded_def)
  from r4 n1 n2
  have c4: "\<exists>batch. new_ops demo_seeded demo_final
                = [CreateAll, QueryEmails, QueryUsernames, AddAll batch, Commit, Close]
              \<and> table demo_final = table demo_seeded @ batch \<and> length batch = nat 2
              \<and> fault demo_env (AddAll batch) = None \<and> fault demo_env Commit = None
              \<and> insert_rows demo_env (table demo_seeded) batch = Inr (table demo_final)"
    by blast
  show ?thesis
    by (rule conjI[OF c1 conjI[OF c2 conjI[OF c3 conjI[OF conjI[OF demo_run c4] c5]]]])
qed

section \<open>A candidate that fails validation\<close>

text \<open>A run whose loop raises: the exception is caught, the session rolled back and
  closed.\<close>

lemma seed_users_loop_raised:
  assumes f: "fault w CreateAll = None" "fault w QueryEmails = None" "fault w QueryUsernames = None"
    and g: "generate_users w cfg [1..count]
              (index_loaded s, set (map email (table s)), set (map username (table s)), [])
            = Some (Some e, s1, E', U', users)"
  shows "\<exists>y s'. seed_users w cfg count s = Some (y, s')
           \<and> y = (case fault w Close of Some e' \<Rightarrow> Some e' | None \<Rightarrow> fault w Rollback)
           \<and> table s' = table s
           \<and> new_ops s s' = [CreateAll, QueryEmails, QueryUsernames, Rollback, Close]
           \<and> stdout s' = stdout s1
               @ (if fault w Rollback = None then [clause_label e @ '' '' @ str_exn w e] else [])
               @ (if fault w Close = None then [''Session closed.''] else [])"
proof -
  have run: "seed_users w cfg count s
      = Some (fst (except_finally w (Some e) s1), snd (except_finally w (Some e) s1))"
    unfolding seed_users_try[OF f(1)] seed_try_loop[OF f(2,3)] g by simp
  from generate_users_inv[OF g]
  have s1: "ops s1 = ops s @ [CreateAll, QueryEmails, QueryUsernames]" "table s1 = table s"
    by auto
  have "ops (snd (except_finally w (Some e) s1))
          = ops s @ [CreateAll, QueryEmails, QueryUsernames, Rollback, Close]"
    by (simp add: except_finally_Some s1)
  then have "new_ops s (snd (except_finally w (Some e) s1))
          = [CreateAll, QueryEmails, QueryUsernames, Rollback, Close]"
    by (rule new_ops_append)
  with run s1(2) show ?thesis
    by (intro exI[of _ "fst (except_finally w (Some e) s1)"]
              exI[of _ "snd (except_finally w (Some e) s1)"])
       (simp add: except_finally_Some)
qed

text \<open>
  Claim C3, as the code has it. \<^verbatim>\<open>generate_fake_user\<close> has no \<^verbatim>\<open>try\<close>: when the
  \<^verbatim>\<open>UserData\<close> constructor rejects the email of a draw, the \<^verbatim>\<open>ValidationError\<close> leaves the
  function after that draw, with no further draw. It reaches the caller: the loop of
  \<^verbatim>\<open>seed_users\<close> ends with it, no record appended. A run of \<^verbatim>\<open>seed_users\<close> whose loop ends
  with a \<^verbatim>\<open>ValidationError\<close> catches it in its \<^verbatim>\<open>except ValidationError\<close> clause: the run
  ends, its store calls after the queries are one \<^verbatim>\<open>rollback\<close> and the \<^verbatim>\<open>close\<close>, the table
  is as it was, and after the texts of the loop it prints \<^verbatim>\<open>Validation Error:\<close> with the
  text of the error, then \<^verbatim>\<open>Session closed.\<close> (each unless the call before it raises).
\<close>

theorem generate_fake_user_raises_validation_error:
  "(fake w n = Drawn pw fn ln em un \<and> validate_email w em = Inl msg \<longrightarrow>
      generate_fake_user w E U n
        = Some (Suc n, Inl (ValidationError ''UserData'' [(''email'', msg)]))
      \<and> (drawn s0 = n \<longrightarrow>
           generate_users w cfg (i # is) (s0, E, U, us)
             = Some (Some (ValidationError ''UserData'' [(''email'', msg)]),
                     (print (''Generating user '' @ str_int i @ ''...'') s0)\<lparr>drawn := Suc n\<rparr>,
                     E, U, us)))
   \<and> (fault w CreateAll = None \<and> fault w QueryEmails = None \<and> fault w QueryUsernames = None
        \<and> generate_users w cfg [1..count]
              (index_loaded s, set (map email (table s)), set (map username (table s)), [])
            = Some (Some (ValidationError t errs), s1, E', U', users) \<longrightarrow>
      (\<exists>y s'. seed_users w cfg count s = Some (y, s')
           \<and> y = (case fault w Close of Some e' \<Rightarrow> Some e' | None \<Rightarrow> fault w Rollback)
           \<and> table s' = table s
           \<and> new_ops s s' = [CreateAll, QueryEmails, QueryUsernames, Rollback, Close]
           \<and> stdout s' = stdout s1
               @ (if fault w Rollback = None
                  then [''Validation Error: '' @ validation_text w t errs] else [])
               @ (if fault w Close = None then [''Session closed.''] else [])))"
proof -
  have p1: "fake w n = Drawn pw fn ln em un \<and> validate_email w em = Inl msg \<longrightarrow>
      generate_fake_user w E U n
        = Some (Suc n, Inl (ValidationError ''UserData'' [(''email'', msg)]))
      \<and> (drawn s0 = n \<longrightarrow>
           generate_users w cfg (i # is) (s0, E, U, us)
             = Some (Some (ValidationError ''UserData'' [(''email'', msg)]),
                     (print (''Generating user '' @ str_int i @ ''...'') s0)\<lparr>drawn := Suc n\<rparr>,
                     E, U, us))"
  proof (rule impI)
    assume a: "fake w n = Drawn pw fn ln em un \<and> validate_email w em = Inl msg"
    then have "\<not> collides w E U (fake w n)"
      by (simp add: collides_def UserData_def)
    from gen_stop[OF this] a
    have g: "generate_fake_user w E U n
         = Some (Suc n, Inl (ValidationError ''UserData'' [(''email'', msg)]))"
      by (simp add: attempt_def UserData_def)
    have l: "drawn s0 = n \<longrightarrow>
           generate_users w cfg (i # is) (s0, E, U, us)
             = Some (Some (ValidationError ''UserData'' [(''email'', msg)]),
                     (print (''Generating user '' @ str_int i @ ''...'') s0)\<lparr>drawn := Suc n\<rparr>,
                     E, U, us)"
      using g by (simp add: Let_def)
    show "generate_fake_user w E U n
        = Some (Suc n, Inl (ValidationError ''UserData'' [(''email'', msg)]))
      \<and> (drawn s0 = n \<longrightarrow>
           generate_users w cfg (i # is) (s0, E, U, us)
             = Some (Some (ValidationError ''UserData'' [(''email'', msg)]),
                     (print (''Generating user '' @ str_int i @ ''...'') s0)\<lparr>drawn := Suc n\<rparr>,
                     E, U, us))"
      by (rule conjI[OF g l])
  qed
  have p2: "fault w CreateAll = None \<and> fault w QueryEmails = None \<and> fault w QueryUsernames = None
        \<and> generate_users w cfg [1..count]
              (index_loaded s, set (map email (table s)), set (map username (table s)), [])
            = Some (Some (ValidationError t errs), s1, E', U', users) \<longrightarrow>
      (\<exists>y s'. seed_users w cfg count s = Some (y, s')
           \<and> y = (case fault w Close of Some e' \<Rightarrow> Some e' | None \<Rightarrow> fault w Rollback)
           \<and> table s' = table s
           \<and> new_ops s s' = [CreateAll, QueryEmails, QueryUsernames, Rollback, Close]
           \<and> stdout s' = stdout s1
               @ (if fault w Rollback = None
                  then [''Validation Error: '' @ validation_text w t errs] else [])
               @ (if fault w Close = None then [''Session closed.''] else []))"
  proof (rule impI)
    assume a: "fault w CreateAll = None \<and> fault w QueryEmails = None \<and> fault w QueryUsernames = None
        \<and> generate_users w cfg [1..count]
              (index_loaded s, set (map email (table s)), set (map username (table s)), [])
            = Some (Some (ValidationError t errs), s1, E', U', users)"
    then have f: "fault w CreateAll = None" "fault w QueryEmails = None" "fault w QueryUsernames = None"
      and g: "generate_users w cfg [1..count]
              (index_loaded s, set (map email (table s)), set (map username (table s)), [])
            = Some (Some (ValidationError t errs), s1, E', U', users)"
      by simp_all
    have l: "clause_label (ValidationError t errs) @ '' '' @ str_exn w (ValidationError t errs)
             = ''Validation Error: '' @ validation_text w t errs"
      by (simp add: clause_label_def str_exn_def)
    from seed_users_loop_raised[OF f g]
    show "\<exists>y s'. seed_users w cfg count s = Some (y, s')
           \<and> y = (case fault w Close of Some e' \<Rightarrow> Some e' | None \<Rightarrow> fault w Rollback)
           \<and> table s' = table s
           \<and> new_ops s s' = [CreateAll, QueryEmails, QueryUsernames, Rollback, Close]
           \<and> stdout s' = stdout s1
               @ (if fault w Rollback = None
                  then [''Validation Error: '' @ validation_text w t errs] else [])
               @ (if fault w Close = None then [''Session closed.''] else [])"
      unfolding l .
  qed
  show ?thesis by (rule conjI[OF p1 p2])
qed

lemma demo_loop_raises:
  "generate_users demo_env demo_cfg [1..4]
       (index_loaded demo_state, set (map email (table demo_state)),
        set (map username (table demo_state)), [])
     = Some (Some (ValidationError ''UserData''
                [(''email'', ''value is not a valid email address: An email address must have an @-sign.'')]),
             demo_loop_raised, {''cy@x.org'', ''bob@x.org'', ''ann@x.org''},
             {''cy'', ''bob'', ''ann''}, [ann, bob, cy])"
  by code_simp

lemma demo_validation_run:
  "seed_users demo_env demo_cfg 4 demo_state = Some (None, demo_validation_failed)"
  by code_simp

theorem generate_fake_user_raises_validation_error_witness:
  "generate_fake_user demo_env {} {} 3 = Some (Suc 3, Inl no_at_sign)
   \<and> generate_users demo_env demo_cfg [1] (demo_state\<lparr>drawn := 3\<rparr>, {}, {}, [])
       = Some (Some no_at_sign,
               (print (''Generating user '' @ str_int 1 @ ''...'')
                  (demo_state\<lparr>drawn := 3\<rparr>))\<lparr>drawn := Suc 3\<rparr>,
               {}, {}, [])
   \<and> seed_users demo_env demo_cfg 4 demo_state = Some (None, demo_validation_failed)
   \<and> table demo_validation_failed = table demo_state
   \<and> new_ops demo_state demo_validation_failed
       = [CreateAll, QueryEmails, QueryUsernames, Rollback, Close]
   \<and> stdout demo_validation_failed
       = stdout demo_loop_raised
         @ [''Validation Error: '' @ validation_text demo_env ''UserData''
              [(''email'', ''value is not a valid email address: An email address must have an @-sign.'')],
            ''Session closed.'']"
proof -
  have h: "fake demo_env 3 = Drawn ''pw3'' ''Di'' ''Poe'' ''di-at-x.org'' ''di''
           \<and> validate_email demo_env ''di-at-x.org''
               = Inl ''value is not a valid email address: An email address must have an @-sign.''"
    by (simp add: demo_fake_def demo_env_def demo_validate_def)
  have d: "drawn (demo_state\<lparr>drawn := 3\<rparr>) = 3" by simp
  have f: "fault demo_env CreateAll = None \<and> fault demo_env QueryEmails = None
           \<and> fault demo_env QueryUsernames = None"
    by (simp add: demo_env_def)
  have fr: "fault demo_env Rollback = None" "fault demo_env Close = None"
    by (simp_all add: demo_env_def)
  note T = generate_fake_user_raises_validation_error
    [where w = demo_env and n = 3 and pw = "''pw3''" and fn = "''Di''" and ln = "''Poe''"
       and em = "''di-at-x.org''" and un = "''di''" and E = "{}" and U = "{}"
       and msg = "''value is not a valid email address: An email address must have an @-sign.''"
       and ?s0.0 = "demo_state\<lparr>drawn := 3\<rparr>" and cfg = demo_cfg and i = 1 and ?is = "[]"
       and us = "[]" and t = "''UserData''"
       and errs = "[(''email'', ''value is not a valid email address: An email address must have an @-sign.'')]"
       and s = demo_state and count = 4 and ?s1.0 = demo_loop_raised
       and E' = "{''cy@x.org'', ''bob@x.org'', ''ann@x.org''}" and U' = "{''cy'', ''bob'', ''ann''}"
       and users = "[ann, bob, cy]"]
  note r1 = T[THEN conjunct1, THEN mp, OF h]
  have c1: "generate_fake_user demo_env {} {} 3 = Some (Suc 3, Inl no_at_sign)"
    using r1[THEN conjunct1] by (simp only: no_at_sign_def)
  have c2: "generate_users demo_env demo_cfg [1] (demo_state\<lparr>drawn := 3\<rparr>, {}, {}, [])
       = Some (Some no_at_sign,
               (print (''Generating user '' @ str_int 1 @ ''...'')
                  (demo_state\<lparr>drawn := 3\<rparr>))\<lparr>drawn := Suc 3\<rparr>,
               {}, {}, [])"
    using r1[THEN conjunct2, THEN mp, OF d] by (simp only: no_at_sign_def)
  from T[THEN conjunct2, THEN mp, OF conjI[OF f[THEN conjunct1]
             conjI[OF f[THEN conjunct2, THEN conjunct1]
               conjI[OF f[THEN conjunct2, THEN conjunct2] demo_loop_raises]]]]
  obtain y s' where
    run: "seed_users demo_env demo_cfg 4 demo_state = Some (y, s')"
    and t: "table s' = table demo_state"
    and o: "new_ops demo_state s' = [CreateAll, QueryEmails, QueryUsernames, Rollback, Close]"
    and out: "stdout s' = stdout demo_loop_raised
               @ (if fault demo_env Rollback = None
                  then [''Validation Error: '' @ validation_text demo_env ''UserData''
                     [(''email'', ''value is not a valid email address: An email address must have an @-sign.'')]]
                  else [])
               @ (if fault demo_env Close = None then [''Session closed.''] else [])"
    by (elim exE conjE)
  from run have s': "s' = demo_validation_failed" by (simp add: demo_validation_run)
  from out have out': "stdout demo_validation_failed
       = stdout demo_loop_raised
         @ [''Validation Error: '' @ validation_text demo_env ''UserData''
              [(''email'', ''value is not a valid email address: An email address must have an @-sign.'')],
            ''Session closed.'']"
    unfolding s' by (simp add: fr)
  show ?thesis
    by (rule conjI[OF c1 conjI[OF c2 conjI[OF demo_validation_run
          conjI[OF t[unfolded s'] conjI[OF o[unfolded s'] out']]]]])
qed

text \<open>The claim as the specification words it fails: the fourth draw has a malformed
  email, the fifth would give a valid candidate, and the generator raises at the fourth
  instead of drawing again.\<close>

theorem generate_fake_user_redraw_counterexample:
  "generate_fake_user demo_env {} {} 3
     = Some (4, Inl (ValidationError ''UserData''
                [(''email'', ''value is not a valid email address: An email address must have an @-sign.'')]))
   \<and> candidate demo_env (fake demo_env 4) = Some eve_data"
  by code_simp

section \<open>Retries of the generator\<close>

text \<open>With unique draws every run of \<^verbatim>\<open>seed_users\<close> ends: the index is a pair of finite
  sets.\<close>

lemma seed_users_ends_unique:
  assumes u: "unique_draws w"
  shows "\<exists>r. seed_users w cfg count s = Some r"
proof (cases "fault w CreateAll")
  case (Some e)
  then show ?thesis by (simp add: seed_users_create_fault)
next
  case None
  note cr = None
  show ?thesis
  proof (cases "fault w QueryEmails")
    case (Some e)
    then show ?thesis by (simp add: seed_users_try[OF cr] seed_try_query_emails_fault)
  next
    case None
    note qe = None
    show ?thesis
    proof (cases "fault w QueryUsernames")
      case (Some e)
      then show ?thesis by (simp add: seed_users_try[OF cr] seed_try_query_usernames_fault[OF qe])
    next
      case None
      have "generate_users w cfg [1..count]
              (index_loaded s, set (map email (table s)), set (map username (table s)), []) \<noteq> None"
        by (rule generate_users_ends[OF u]) simp_all
      then obtain x s1 E' U' users where
        g: "generate_users w cfg [1..count]
              (index_loaded s, set (map email (table s)), set (map username (table s)), [])
            = Some (x, s1, E', U', users)"
        by (cases "generate_users w cfg [1..count]
              (index_loaded s, set (map email (table s)), set (map username (table s)), [])") auto
      show ?thesis
        unfolding seed_users_try[OF cr] seed_try_loop[OF qe None] g
        by (cases x) (simp_all split: prod.splits)
    qed
  qed
qed

text \<open>
  Claim C7, as the code has it. The loop of \<^verbatim>\<open>generate_fake_user\<close> has no counter:
  however many draws collide with the index, it draws again. But the draws are Faker's
  unique draws, and the index is finite: no more draws can collide than the index has
  values, so the loop ends after at most that many retries, at the first draw that does
  not collide, with the candidate of that draw or with the exception of that draw. It
  returns a candidate whose email and user name are outside the index when the draws
  reach one and none before it raises. A draw at which Faker raises, as it does when it
  finds no new value, ends the loop with that exception: the loop does not go on for
  ever. And every run of \<^verbatim>\<open>seed_users\<close> ends.
\<close>

theorem generate_fake_user_retries_end:
  "((\<forall>k<m. collides w E U (fake w (n + k))) \<longrightarrow>
       generate_fake_user w E U n = generate_fake_user w E U (n + m))
   \<and> (unique_draws w \<and> finite E \<and> finite U \<longrightarrow>
        (\<exists>r\<le>card E + card U. (\<forall>k<r. collides w E U (fake w (n + k)))
           \<and> \<not> collides w E U (fake w (n + r))
           \<and> generate_fake_user w E U n = Some (Suc (n + r), attempt w E U (fake w (n + r)))))
   \<and> ((\<forall>k<j. candidate w (fake w (n + k)) \<noteq> None) \<and> candidate w (fake w (n + j)) = Some c
        \<and> user_data.email c \<notin> E \<and> user_data.username c \<notin> U \<longrightarrow>
       (\<exists>r\<le>j. \<exists>ud. generate_fake_user w E U n
                     = Some (Suc (n + r), Inr (ud, insert (user_data.email ud) E,
                                                insert (user_data.username ud) U))
                  \<and> candidate w (fake w (n + r)) = Some ud
                  \<and> user_data.email ud \<notin> E \<and> user_data.username ud \<notin> U))
   \<and> ((\<forall>k<m. collides w E U (fake w (n + k))) \<and> fake w (n + m) = FakerError e \<longrightarrow>
        generate_fake_user w E U n = Some (Suc (n + m), Inl e))
   \<and> (unique_draws w \<longrightarrow> (\<exists>r. seed_users w cfg count s = Some r))"
proof -
  have p1: "(\<forall>k<m. collides w E U (fake w (n + k))) \<longrightarrow>
       generate_fake_user w E U n = generate_fake_user w E U (n + m)"
    using gen_retries[of m w E U n] by (rule impI)
  have p2: "unique_draws w \<and> finite E \<and> finite U \<longrightarrow>
        (\<exists>r\<le>card E + card U. (\<forall>k<r. collides w E U (fake w (n + k)))
           \<and> \<not> collides w E U (fake w (n + r))
           \<and> generate_fake_user w E U n = Some (Suc (n + r), attempt w E U (fake w (n + r))))"
    using gen_ends[of w E U n] by blast
  have p3: "(\<forall>k<j. candidate w (fake w (n + k)) \<noteq> None) \<and> candidate w (fake w (n + j)) = Some c
        \<and> user_data.email c \<notin> E \<and> user_data.username c \<notin> U \<longrightarrow>
       (\<exists>r\<le>j. \<exists>ud. generate_fake_user w E U n
                     = Some (Suc (n + r), Inr (ud, insert (user_data.email ud) E,
                                                insert (user_data.username ud) U))
                  \<and> candidate w (fake w (n + r)) = Some ud
                  \<and> user_data.email ud \<notin> E \<and> user_data.username ud \<notin> U)"
    using gen_first_fresh[of j w n c E U] by blast
  have p4: "(\<forall>k<m. collides w E U (fake w (n + k))) \<and> fake w (n + m) = FakerError e \<longrightarrow>
        generate_fake_user w E U n = Some (Suc (n + m), Inl e)"
    using gen_raises[of m w E U n e] by blast
  have p5: "unique_draws w \<longrightarrow> (\<exists>r. seed_users w cfg count s = Some r)"
    using seed_users_ends_unique[of w cfg count s] by (rule impI)
  show ?thesis by (rule conjI[OF p1 conjI[OF p2 conjI[OF p3 conjI[OF p4 p5]]]])
qed

lemma demo_fake_env [simp]: "fake demo_env = demo_fake"
  by (simp add: demo_env_def)

lemma demo_candidate:
  "candidate demo_env (demo_fake 0) = Some ann_data"
  "candidate demo_env (demo_fake (Suc 0)) = Some bob_data"
  "candidate demo_env (demo_fake 2) = Some cy_data"
  "candidate demo_env (demo_fake 3) = None"
  "candidate demo_env (demo_fake 4) = Some eve_data"
  by (simp_all add: candidate_def demo_fake_def UserData_def demo_env_def demo_validate_def
        ann_data_def bob_data_def cy_data_def eve_data_def)

lemma demo_candidate_cases:
  assumes "candidate demo_env (demo_fake n) = Some a"
  shows "n = 0 \<and> a = ann_data \<or> n = 1 \<and> a = bob_data \<or> n = 2 \<and> a = cy_data
         \<or> n = 4 \<and> a = eve_data"
proof -
  consider "n = 0" | "n = 1" | "n = 2" | "n = 3" | "n = 4" | "5 \<le> n" by arith
  then show ?thesis
  proof cases
    case 1
    with assms demo_candidate(1) show ?thesis by simp
  next
    case 2
    with assms demo_candidate(2) show ?thesis by simp
  next
    case 3
    with assms demo_candidate(3) show ?thesis by simp
  next
    case 4
    with assms demo_candidate(4) show ?thesis by simp
  next
    case 5
    with assms demo_candidate(5) show ?thesis by simp
  next
    case 6
    then have "demo_fake n = FakerError (OtherError ''Got duplicated values after 1,000 iterations.'')"
      by (simp add: demo_fake_def)
    with assms show ?thesis by (simp add: candidate_def)
  qed
qed

lemma demo_data_distinct:
  "user_data.email ann_data \<noteq> user_data.email bob_data"
  "user_data.email ann_data \<noteq> user_data.email cy_data"
  "user_data.email ann_data \<noteq> user_data.email eve_data"
  "user_data.email bob_data \<noteq> user_data.email cy_data"
  "user_data.email bob_data \<noteq> user_data.email eve_data"
  "user_data.email cy_data \<noteq> user_data.email eve_data"
  "user_data.username ann_data \<noteq> user_data.username bob_data"
  "user_data.username ann_data \<noteq> user_data.username cy_data"
  "user_data.username ann_data \<noteq> user_data.username eve_data"
  "user_data.username bob_data \<noteq> user_data.username cy_data"
  "user_data.username bob_data \<noteq> user_data.username eve_data"
  "user_data.username cy_data \<noteq> user_data.username eve_data"
  by (simp_all add: ann_data_def bob_data_def cy_data_def eve_data_def)

lemma demo_unique: "unique_draws demo_env"
  unfolding unique_draws_def
proof (intro allI impI, elim conjE)
  fix i j a b
  assume ne: "i \<noteq> j" and a: "candidate demo_env (fake demo_env i) = Some a"
    and b: "candidate demo_env (fake demo_env j) = Some b"
  from a[unfolded demo_fake_env] have ca: "i = 0 \<and> a = ann_data \<or> i = 1 \<and> a = bob_data \<or> i = 2 \<and> a = cy_data
         \<or> i = 4 \<and> a = eve_data"
    by (rule demo_candidate_cases)
  from b[unfolded demo_fake_env] have cb: "j = 0 \<and> b = ann_data \<or> j = 1 \<and> b = bob_data \<or> j = 2 \<and> b = cy_data
         \<or> j = 4 \<and> b = eve_data"
    by (rule demo_candidate_cases)
  note d = demo_data_distinct demo_data_distinct[symmetric]
  from ca cb ne
  show "user_data.email a \<noteq> user_data.email b \<and> user_data.username a \<noteq> user_data.username b"
    by (elim disjE conjE) (simp_all only: d simp_thms)
qed

theorem generate_fake_user_retries_end_witness:
  "generate_fake_user demo_env {''ann@x.org''} {''bob''} 0
     = generate_fake_user demo_env {''ann@x.org''} {''bob''} (0 + 2)
   \<and> unique_draws demo_env
   \<and> (\<exists>r\<le>card {''ann@x.org''} + card {''bob''}.
         (\<forall>k<r. collides demo_env {''ann@x.org''} {''bob''} (fake demo_env (0 + k)))
         \<and> \<not> collides demo_env {''ann@x.org''} {''bob''} (fake demo_env (0 + r))
         \<and> generate_fake_user demo_env {''ann@x.org''} {''bob''} 0
             = Some (Suc (0 + r), attempt demo_env {''ann@x.org''} {''bob''} (fake demo_env (0 + r))))
   \<and> (\<exists>r\<le>2. \<exists>ud. generate_fake_user demo_env {''ann@x.org''} {''bob''} 0
                     = Some (Suc (0 + r), Inr (ud, insert (user_data.email ud) {''ann@x.org''},
                                            insert (user_data.username ud) {''bob''}))
                  \<and> candidate demo_env (fake demo_env (0 + r)) = Some ud
                  \<and> user_data.email ud \<notin> {''ann@x.org''} \<and> user_data.username ud \<notin> {''bob''})
   \<and> generate_fake_user demo_env {''ann@x.org''} {''bob''} 5
       = Some (Suc (5 + 0), Inl (OtherError ''Got duplicated values after 1,000 iterations.''))
   \<and> (\<exists>r. seed_users demo_env demo_cfg 2 demo_seeded = Some r)"
proof -
  have c0: "collides demo_env {''ann@x.org''} {''bob''} (demo_fake 0)"
    by (simp add: candidate_collides[OF demo_candidate(1)] ann_data_def)
  have c1: "collides demo_env {''ann@x.org''} {''bob''} (demo_fake (Suc 0))"
    by (simp add: candidate_collides[OF demo_candidate(2)] bob_data_def)
  have h1: "\<forall>k<2. collides demo_env {''ann@x.org''} {''bob''} (fake demo_env (0 + k))"
    using c0 c1 by (simp add: less_2_cases_iff)
  have h2: "unique_draws demo_env \<and> finite {''ann@x.org''} \<and> finite {''bob''}"
    using demo_unique by simp
  have h3a: "\<forall>k<2. candidate demo_env (fake demo_env (0 + k)) \<noteq> None"
    using demo_candidate(1,2) by (simp add: less_2_cases_iff)
  have h3b: "candidate demo_env (fake demo_env (0 + 2)) = Some cy_data"
    by (simp only: add.left_neutral demo_fake_env demo_candidate(3))
  have h3c: "user_data.email cy_data \<notin> {''ann@x.org''} \<and> user_data.username cy_data \<notin> {''bob''}"
    by (simp add: cy_data_def)
  note h3 = conjI[OF h3a conjI[OF h3b h3c]]
  have h4: "(\<forall>k<0. collides demo_env {''ann@x.org''} {''bob''} (fake demo_env (5 + k)))
      \<and> fake demo_env (5 + 0) = FakerError (OtherError ''Got duplicated values after 1,000 iterations.'')"
    by (simp add: demo_fake_def)
  note T = generate_fake_user_retries_end
    [where m = 2 and w = demo_env and E = "{''ann@x.org''}" and U = "{''bob''}" and n = 0
       and j = 2 and c = cy_data and cfg = demo_cfg and count = 2 and s = demo_seeded]
  note T' = generate_fake_user_retries_end
    [where m = 0 and w = demo_env and E = "{''ann@x.org''}" and U = "{''bob''}" and n = 5
       and e = "OtherError ''Got duplicated values after 1,000 iterations.''"]
  note a1 = T[THEN conjunct1, THEN mp, OF h1]
  note a2 = T[THEN conjunct2, THEN conjunct1, THEN mp, OF h2]
  note a3 = T[THEN conjunct2, THEN conjunct2, THEN conjunct1, THEN mp, OF h3]
  note a4 = T'[THEN conjunct2, THEN conjunct2, THEN conjunct2, THEN conjunct1, THEN mp, OF h4]
  note a5 = T[THEN conjunct2, THEN conjunct2, THEN conjunct2, THEN conjunct2, THEN mp, OF demo_unique]
  show ?thesis
    by (rule conjI[OF a1 conjI[OF demo_unique conjI[OF a2 conjI[OF a3 conjI[OF a4 a5]]]]])
qed

text \<open>The claim as the specification words it fails twice. Eve, the candidate of the
  fifth draw, has her email and her user name outside the index, and the loop entered at
  the fourth draw does not return a candidate: the fourth draw raises. And from the sixth
  draw on Faker has no new value: the loop entered there ends, with Faker's exception.\<close>

theorem generate_fake_user_loops_counterexample:
  "candidate demo_env (fake demo_env 4) = Some eve_data
   \<and> user_data.email eve_data \<notin> {''ann@x.org''}
   \<and> user_data.username eve_data \<notin> {''ann''}
   \<and> generate_fake_user demo_env {''ann@x.org''} {''ann''} 3
       = Some (4, Inl (ValidationError ''UserData''
                [(''email'', ''value is not a valid email address: An email address must have an @-sign.'')]))
   \<and> generate_fake_user demo_env {''ann@x.org''} {''ann''} 5
       = Some (6, Inl (OtherError ''Got duplicated values after 1,000 iterations.''))"
  by code_simp

section \<open>Configuration\<close>

lemma Settings_cases:
  "Settings w =
     (case environ w ''DB_DB_HOST'' of
        None \<Rightarrow> Inl (ValidationError ''Settings'' (settings_errors w))
      | Some h \<Rightarrow>
     (case environ w ''DB_DB_USER'' of
        None \<Rightarrow> Inl (ValidationError ''Settings'' (settings_errors w))
      | Some u \<Rightarrow>
     (case environ w ''DB_DB_PASSWORD'' of
        None \<Rightarrow> Inl (ValidationError ''Settings'' (settings_errors w))
      | Some p \<Rightarrow>
     (case environ w ''DB_DB_NAME'' of
        None \<Rightarrow> Inl (ValidationError ''Settings'' (settings_errors w))
      | Some n \<Rightarrow>
     (case read_port w of
        Inl errs \<Rightarrow> Inl (ValidationError ''Settings'' (settings_errors w))
      | Inr port \<Rightarrow>
     (case environ w ''DB_SALT'' of
        None \<Rightarrow> Inl (ValidationError ''Settings'' (settings_errors w))
      | Some s \<Rightarrow>
     (case extra_inputs w of
        [] \<Rightarrow> Inr \<lparr>db_host = h, db_user = u, db_password = p, db_name = n, db_port = port,
                   salt = s\<rparr>
      | x # xs \<Rightarrow> Inl (ValidationError ''Settings'' (settings_errors w)))))))))"
  by (simp add: Settings_def split: option.split sum.split list.split)

lemma required_fields_cases:
  "(field, var) \<in> set required_fields \<Longrightarrow>
   field = ''db_host'' \<and> var = ''DB_DB_HOST'' \<or> field = ''db_user'' \<and> var = ''DB_DB_USER''
   \<or> field = ''db_password'' \<and> var = ''DB_DB_PASSWORD''
   \<or> field = ''db_name'' \<and> var = ''DB_DB_NAME''
   \<or> field = ''salt'' \<and> var = ''DB_SALT''"
  by (simp add: required_fields_def)

lemma Settings_no_db_host:
  "environ w ''DB_DB_HOST'' = None \<Longrightarrow>
   Settings w = Inl (ValidationError ''Settings'' (settings_errors w))
   \<and> (''db_host'', ''Field required'') \<in> set (settings_errors w)"
  by (simp add: Settings_cases settings_errors_def field_required_def)

lemma Settings_no_db_user:
  "environ w ''DB_DB_USER'' = None \<Longrightarrow>
   Settings w = Inl (ValidationError ''Settings'' (settings_errors w))
   \<and> (''db_user'', ''Field required'') \<in> set (settings_errors w)"
  by (simp add: Settings_cases settings_errors_def field_required_def split: option.split)

lemma Settings_no_db_password:
  "environ w ''DB_DB_PASSWORD'' = None \<Longrightarrow>
   Settings w = Inl (ValidationError ''Settings'' (settings_errors w))
   \<and> (''db_password'', ''Field required'') \<in> set (settings_errors w)"
  by (simp add: Settings_cases settings_errors_def field_required_def split: option.split)

lemma Settings_no_db_name:
  "environ w ''DB_DB_NAME'' = None \<Longrightarrow>
   Settings w = Inl (ValidationError ''Settings'' (settings_errors w))
   \<and> (''db_name'', ''Field required'') \<in> set (settings_errors w)"
  by (simp add: Settings_cases settings_errors_def field_required_def split: option.split)

lemma Settings_no_salt:
  "environ w ''DB_SALT'' = None \<Longrightarrow>
   Settings w = Inl (ValidationError ''Settings'' (settings_errors w))
   \<and> (''salt'', ''Field required'') \<in> set (settings_errors w)"
  by (simp add: Settings_cases settings_errors_def field_required_def
        split: option.split sum.split)

lemma Settings_extra_inputs:
  assumes "x \<in> set (extra_inputs w)"
  shows "Settings w = Inl (ValidationError ''Settings'' (settings_errors w))
   \<and> x \<in> set (settings_errors w)"
proof -
  from assms obtain y ys where "extra_inputs w = y # ys" by (cases "extra_inputs w") auto
  then have "Settings w = Inl (ValidationError ''Settings'' (settings_errors w))"
    by (simp add: Settings_cases split: option.split sum.split)
  moreover from assms have "x \<in> set (settings_errors w)"
    by (simp add: settings_errors_def)
  ultimately show ?thesis ..
qed

lemma Settings_missing:
  assumes "(field, var) \<in> set required_fields" "environ w var = None"
  shows "Settings w = Inl (ValidationError ''Settings'' (settings_errors w))
   \<and> (field, ''Field required'') \<in> set (settings_errors w)"
  using required_fields_cases[OF assms(1)]
proof (elim disjE conjE)
  assume fv: "field = ''db_host''" "var = ''DB_DB_HOST''"
  from assms(2) have "environ w ''DB_DB_HOST'' = None" unfolding fv(2) .
  from Settings_no_db_host[OF this] show ?thesis unfolding fv(1) .
next
  assume fv: "field = ''db_user''" "var = ''DB_DB_USER''"
  from assms(2) have "environ w ''DB_DB_USER'' = None" unfolding fv(2) .
  from Settings_no_db_user[OF this] show ?thesis unfolding fv(1) .
next
  assume fv: "field = ''db_password''" "var = ''DB_DB_PASSWORD''"
  from assms(2) have "environ w ''DB_DB_PASSWORD'' = None" unfolding fv(2) .
  from Settings_no_db_password[OF this] show ?thesis unfolding fv(1) .
next
  assume fv: "field = ''db_name''" "var = ''DB_DB_NAME''"
  from assms(2) have "environ w ''DB_DB_NAME'' = None" unfolding fv(2) .
  from Settings_no_db_name[OF this] show ?thesis unfolding fv(1) .
next
  assume fv: "field = ''salt''" "var = ''DB_SALT''"
  from assms(2) have "environ w ''DB_SALT'' = None" unfolding fv(2) .
  from Settings_no_salt[OF this] show ?thesis unfolding fv(1) .
qed

lemma Settings_bad_port:
  assumes "environ w ''DB_DB_PORT'' = Some v" "pydantic_optional_int w v = Inl msg"
  shows "Settings w = Inl (ValidationError ''Settings'' (settings_errors w))
   \<and> (''db_port'', msg) \<in> set (settings_errors w)"
proof -
  from assms have "read_port w = Inl [(''db_port'', msg)]"
    by (simp add: read_port_def)
  then show ?thesis
    by (simp add: Settings_cases settings_errors_def split: option.split sum.split)
qed

lemma Settings_Inr:
  assumes "Settings w = Inr cfg"
  shows "environ w ''DB_DB_HOST'' = Some (db_host cfg)
   \<and> environ w ''DB_DB_USER'' = Some (db_user cfg)
   \<and> environ w ''DB_DB_PASSWORD'' = Some (db_password cfg)
   \<and> environ w ''DB_DB_NAME'' = Some (db_name cfg) \<and> environ w ''DB_SALT'' = Some (salt cfg)
   \<and> read_port w = Inr (db_port cfg) \<and> extra_inputs w = []"
proof (cases "environ w ''DB_DB_HOST''")
  case None
  with assms show ?thesis by (simp add: Settings_cases)
next
  case h: (Some h)
  show ?thesis
  proof (cases "environ w ''DB_DB_USER''")
    case None
    with assms h show ?thesis by (simp add: Settings_cases)
  next
    case u: (Some u)
    show ?thesis
    proof (cases "environ w ''DB_DB_PASSWORD''")
      case None
      with assms h u show ?thesis by (simp add: Settings_cases)
    next
      case p: (Some p)
      show ?thesis
      proof (cases "environ w ''DB_DB_NAME''")
        case None
        with assms h u p show ?thesis by (simp add: Settings_cases)
      next
        case n: (Some n)
        show ?thesis
        proof (cases "read_port w")
          case (Inl errs)
          with assms h u p n show ?thesis by (simp add: Settings_cases)
        next
          case port: (Inr port)
          show ?thesis
          proof (cases "environ w ''DB_SALT''")
            case None
            with assms h u p n port show ?thesis by (simp add: Settings_cases)
          next
            case sl: (Some sl)
            show ?thesis
            proof (cases "extra_inputs w")
              case (Cons x xs)
              with assms h u p n port sl show ?thesis by (simp add: Settings_cases)
            next
              case Nil
              with assms h u p n port sl
              have "cfg = \<lparr>db_host = h, db_user = u, db_password = p, db_name = n,
                            db_port = port, salt = sl\<rparr>"
                by (simp add: Settings_cases)
              with h u p n port sl Nil show ?thesis by simp
            qed
          qed
        qed
      qed
    qed
  qed
qed

lemma program_config_error:
  "Settings w = Inl e \<Longrightarrow>
   program w argv s
     = Some (1, s\<lparr>stdout := stdout s @ [''Configuration Error:'', str_exn w e]\<rparr>)"
  by (simp add: program_def load_settings_def print_def)

lemma program_settings_error:
  "Settings w = Inl (ValidationError ''Settings'' (settings_errors w)) \<Longrightarrow>
   program w argv s
     = Some (1, s\<lparr>stdout := stdout s @ [''Configuration Error:'',
                     validation_text w ''Settings'' (settings_errors w)]\<rparr>)"
  by (simp add: program_config_error str_exn_def)

text \<open>
  Claim C5. When the variable of a field without a default (host, user, password, database
  name or salt) is not set, the validation error lists that field, with every other
  field that is missing or malformed; the program prints \<^verbatim>\<open>Configuration Error:\<close> and the
  text of that error, and leaves with code 1 in a state that differs from the first in the
  printed texts only: no store call is logged and the table is untouched. The same holds
  for a port that pydantic does not read as an integer, and for an entry of the file
  \<^verbatim>\<open>.env\<close> that pydantic-settings does not permit. Settings that do load hold, for
  each of these fields, the value of its variable. The variables are those of the prefix
  \<^verbatim>\<open>DB_\<close> and the field's name: \<^verbatim>\<open>DB_DB_HOST\<close>, \<^verbatim>\<open>DB_DB_USER\<close>, \<^verbatim>\<open>DB_DB_PASSWORD\<close>,
  \<^verbatim>\<open>DB_DB_NAME\<close>, \<^verbatim>\<open>DB_DB_PORT\<close> and \<^verbatim>\<open>DB_SALT\<close>.
\<close>

theorem missing_configuration_exits_1:
  "((field, var) \<in> set required_fields \<and> environ w var = None \<longrightarrow>
      (field, ''Field required'') \<in> set (settings_errors w)
      \<and> program w argv s
          = Some (1, s\<lparr>stdout := stdout s @ [''Configuration Error:'',
                          validation_text w ''Settings'' (settings_errors w)]\<rparr>))
   \<and> (environ w ''DB_DB_PORT'' = Some v \<and> pydantic_optional_int w v = Inl msg \<longrightarrow>
      (''db_port'', msg) \<in> set (settings_errors w)
      \<and> program w argv s
          = Some (1, s\<lparr>stdout := stdout s @ [''Configuration Error:'',
                          validation_text w ''Settings'' (settings_errors w)]\<rparr>))
   \<and> (x \<in> set (extra_inputs w) \<longrightarrow>
      x \<in> set (settings_errors w)
      \<and> program w argv s
          = Some (1, s\<lparr>stdout := stdout s @ [''Configuration Error:'',
                          validation_text w ''Settings'' (settings_errors w)]\<rparr>))
   \<and> (Settings w = Inr cfg \<longrightarrow>
      environ w ''DB_DB_HOST'' = Some (db_host cfg)
      \<and> environ w ''DB_DB_USER'' = Some (db_user cfg)
      \<and> environ w ''DB_DB_PASSWORD'' = Some (db_password cfg)
      \<and> environ w ''DB_DB_NAME'' = Some (db_name cfg)
      \<and> environ w ''DB_SALT'' = Some (salt cfg))"
proof -
  have p1: "(field, var) \<in> set required_fields \<and> environ w var = None \<longrightarrow>
      (field, ''Field required'') \<in> set (settings_errors w)
      \<and> program w argv s
          = Some (1, s\<lparr>stdout := stdout s @ [''Configuration Error:'',
                          validation_text w ''Settings'' (settings_errors w)]\<rparr>)"
  proof (rule impI)
    assume a: "(field, var) \<in> set required_fields \<and> environ w var = None"
    note m = Settings_missing[OF a[THEN conjunct1] a[THEN conjunct2]]
    show "(field, ''Field required'') \<in> set (settings_errors w)
      \<and> program w argv s
          = Some (1, s\<lparr>stdout := stdout s @ [''Configuration Error:'',
                          validation_text w ''Settings'' (settings_errors w)]\<rparr>)"
      by (rule conjI[OF m[THEN conjunct2] program_settings_error[OF m[THEN conjunct1]]])
  qed
  have p2: "environ w ''DB_DB_PORT'' = Some v \<and> pydantic_optional_int w v = Inl msg \<longrightarrow>
      (''db_port'', msg) \<in> set (settings_errors w)
      \<and> program w argv s
          = Some (1, s\<lparr>stdout := stdout s @ [''Configuration Error:'',
                          validation_text w ''Settings'' (settings_errors w)]\<rparr>)"
  proof (rule impI)
    assume a: "environ w ''DB_DB_PORT'' = Some v \<and> pydantic_optional_int w v = Inl msg"
    note m = Settings_bad_port[OF a[THEN conjunct1] a[THEN conjunct2]]
    show "(''db_port'', msg) \<in> set (settings_errors w)
      \<and> program w argv s
          = Some (1, s\<lparr>stdout := stdout s @ [''Configuration Error:'',
                          validation_text w ''Settings'' (settings_errors w)]\<rparr>)"
      by (rule conjI[OF m[THEN conjunct2] program_settings_error[OF m[THEN conjunct1]]])
  qed
  have p2': "x \<in> set (extra_inputs w) \<longrightarrow>
      x \<in> set (settings_errors w)
      \<and> program w argv s
          = Some (1, s\<lparr>stdout := stdout s @ [''Configuration Error:'',
                          validation_text w ''Settings'' (settings_errors w)]\<rparr>)"
  proof (rule impI)
    assume a: "x \<in> set (extra_inputs w)"
    note m = Settings_extra_inputs[OF a]
    show "x \<in> set (settings_errors w)
      \<and> program w argv s
          = Some (1, s\<lparr>stdout := stdout s @ [''Configuration Error:'',
                          validation_text w ''Settings'' (settings_errors w)]\<rparr>)"
      by (rule conjI[OF m[THEN conjunct2] program_settings_error[OF m[THEN conjunct1]]])
  qed
  have p3: "Settings w = Inr cfg \<longrightarrow>
      environ w ''DB_DB_HOST'' = Some (db_host cfg)
      \<and> environ w ''DB_DB_USER'' = Some (db_user cfg)
      \<and> environ w ''DB_DB_PASSWORD'' = Some (db_password cfg)
      \<and> environ w ''DB_DB_NAME'' = Some (db_name cfg)
      \<and> environ w ''DB_SALT'' = Some (salt cfg)"
  proof (rule impI)
    assume "Settings w = Inr cfg"
    from Settings_Inr[OF this]
    show "environ w ''DB_DB_HOST'' = Some (db_host cfg)
      \<and> environ w ''DB_DB_USER'' = Some (db_user cfg)
      \<and> environ w ''DB_DB_PASSWORD'' = Some (db_password cfg)
      \<and> environ w ''DB_DB_NAME'' = Some (db_name cfg)
      \<and> environ w ''DB_SALT'' = Some (salt cfg)"
      by (elim conjE) (intro conjI)
  qed
  show ?thesis by (rule conjI[OF p1 conjI[OF p2 conjI[OF p2' p3]]])
qed

lemma demo_missing_errors:
  "validation_text demo_missing ''Settings'' (settings_errors demo_missing)
     = ''2 validation errors for Settings / db_password: Field required / salt: Field required''"
  by code_simp

lemma demo_bad_port_errors:
  "validation_text demo_bad_port ''Settings'' (settings_errors demo_bad_port)
     = ''1 validation error for Settings / db_port: Input should be a valid integer, unable to parse string as an integer''"
  by code_simp

lemma demo_extra_errors:
  "validation_text demo_extra ''Settings'' (settings_errors demo_extra)
     = ''1 validation error for Settings / host: Extra inputs are not permitted''"
  by code_simp

lemma demo_Settings: "Settings demo_env = Inr demo_cfg"
  by code_simp

theorem missing_configuration_exits_1_witness:
  "((''db_password'', ''Field required'') \<in> set (settings_errors demo_missing)
    \<and> program demo_missing [] demo_state
        = Some (1, demo_state\<lparr>stdout := stdout demo_state @ [''Configuration Error:'',
              ''2 validation errors for Settings / db_password: Field required / salt: Field required'']\<rparr>))
   \<and> ((''salt'', ''Field required'') \<in> set (settings_errors demo_missing)
    \<and> program demo_missing [] demo_state
        = Some (1, demo_state\<lparr>stdout := stdout demo_state @ [''Configuration Error:'',
              ''2 validation errors for Settings / db_password: Field required / salt: Field required'']\<rparr>))
   \<and> ((''db_port'', ''Input should be a valid integer, unable to parse string as an integer'')
         \<in> set (settings_errors demo_bad_port)
      \<and> program demo_bad_port [] demo_state
        = Some (1, demo_state\<lparr>stdout := stdout demo_state @ [''Configuration Error:'',
              ''1 validation error for Settings / db_port: Input should be a valid integer, unable to parse string as an integer'']\<rparr>))
   \<and> ((''host'', ''Extra inputs are not permitted'') \<in> set (settings_errors demo_extra)
      \<and> program demo_extra [] demo_state
        = Some (1, demo_state\<lparr>stdout := stdout demo_state @ [''Configuration Error:'',
              ''1 validation error for Settings / host: Extra inputs are not permitted'']\<rparr>))
   \<and> (environ demo_env ''DB_DB_HOST'' = Some (db_host demo_cfg)
      \<and> environ demo_env ''DB_DB_USER'' = Some (db_user demo_cfg)
      \<and> environ demo_env ''DB_DB_PASSWORD'' = Some (db_password demo_cfg)
      \<and> environ demo_env ''DB_DB_NAME'' = Some (db_name demo_cfg)
      \<and> environ demo_env ''DB_SALT'' = Some (salt demo_cfg))"
proof -
  have h2': "(''host'', ''Extra inputs are not permitted'') \<in> set (extra_inputs demo_extra)"
    by (simp add: demo_extra_def)
  note c2' = missing_configuration_exits_1
    [where w = demo_extra and x = "(''host'', ''Extra inputs are not permitted'')"
       and argv = "[]" and s = demo_state,
     THEN conjunct2, THEN conjunct2, THEN conjunct1, THEN mp, OF h2', unfolded demo_extra_errors]
  have h1: "(''db_password'', ''DB_DB_PASSWORD'') \<in> set required_fields
            \<and> environ demo_missing ''DB_DB_PASSWORD'' = None"
    by (simp add: required_fields_def demo_missing_def)
  have h1': "(''salt'', ''DB_SALT'') \<in> set required_fields
            \<and> environ demo_missing ''DB_SALT'' = None"
    by (simp add: required_fields_def demo_missing_def)
  have h2: "environ demo_bad_port ''DB_DB_PORT'' = Some ''fivefourthreetwo''
            \<and> pydantic_optional_int demo_bad_port ''fivefourthreetwo''
                = Inl ''Input should be a valid integer, unable to parse string as an integer''"
    by (simp add: demo_bad_port_def demo_env_def demo_optional_int_def demo_int_def)
  note c1 = missing_configuration_exits_1
    [where field = "''db_password''" and var = "''DB_DB_PASSWORD''" and w = demo_missing
       and argv = "[]" and s = demo_state, THEN conjunct1, THEN mp, OF h1,
     unfolded demo_missing_errors]
  note c1' = missing_configuration_exits_1
    [where field = "''salt''" and var = "''DB_SALT''" and w = demo_missing
       and argv = "[]" and s = demo_state, THEN conjunct1, THEN mp, OF h1',
     unfolded demo_missing_errors]
  note c2 = missing_configuration_exits_1
    [where w = demo_bad_port and v = "''fivefourthreetwo''" and argv = "[]" and s = demo_state
       and msg = "''Input should be a valid integer, unable to parse string as an integer''",
     THEN conjunct2, THEN conjunct1, THEN mp, OF h2, unfolded demo_bad_port_errors]
  note c3 = missing_configuration_exits_1
    [where w = demo_env and cfg = demo_cfg, THEN conjunct2, THEN conjunct2, THEN conjunct2,
     THEN mp, OF demo_Settings]
  show ?thesis by (rule conjI[OF c1 conjI[OF c1' conjI[OF c2 conjI[OF c2' c3]]]])
qed

section \<open>The command line and the exit code\<close>

lemma load_settings_Inr:
  "Settings w = Inr cfg \<Longrightarrow>
   load_settings w s
     = (Inr cfg, print (''Loaded settings: db_host='' @ db_host cfg @ '', db_user=''
                        @ db_user cfg @ '', salt='' @ take 4 (salt cfg) @ ''****'') s)"
  by (simp add: load_settings_def)

lemma take_actions_code:
  "take_actions w events number' = Inl code \<Longrightarrow> code = 0 \<or> code = 2"
  by (induction w events number' rule: take_actions.induct) (auto split: option.splits)

lemma parse_arguments_code:
  assumes "parse_arguments w argv = Inl code"
  shows "code = 0 \<or> code = 2"
proof -
  obtain events unrecognized where e: "read_command_line w argv = (events, unrecognized)"
    by (cases "read_command_line w argv")
  show ?thesis
  proof (cases "take_actions w events 10")
    case (Inl c)
    with assms e have "code = c" by (simp add: parse_arguments_def)
    with take_actions_code[OF Inl] show ?thesis by simp
  next
    case (Inr k)
    with assms e show ?thesis by (simp add: parse_arguments_def split: if_splits)
  qed
qed

lemma parse_arguments_flag:
  assumes "\<not> dashed v" "a = ''-n'' \<or> a = ''--number''"
  shows "parse_arguments w [a, v] = (case py_int w v of None \<Rightarrow> Inl 2 | Some k \<Rightarrow> Inr k)"
  using assms by (auto simp: parse_arguments_def read_command_line_def split: option.split)

lemma seed_users_query_fault:
  assumes "fault w CreateAll = None" "fault w QueryEmails = Some e"
    "fault w Rollback = None" "fault w Close = None"
  shows "\<exists>s'. seed_users w cfg count s = Some (None, s')"
proof -
  let ?s3 = "log QueryEmails
               (print ''Fetching existing emails and usernames to prevent duplicates...''
                  (Session (log CreateAll (print ''Creating tables if they don't exist...'' s))))"
  have "seed_users w cfg count s
          = Some (fst (except_finally w (Some e) ?s3), snd (except_finally w (Some e) ?s3))"
    by (simp add: seed_users_try[OF assms(1)] seed_try_query_emails_fault[OF assms(2)])
  moreover have "fst (except_finally w (Some e) ?s3) = None"
    using assms(3,4) by (simp add: except_finally_Some)
  ultimately show ?thesis by simp
qed

lemma program_no_engine:
  assumes "Settings w = Inr cfg" "create_engine w (DATABASE_URL cfg) = Some e"
  shows "program w argv s = Some (1, snd (load_settings w s))"
  using assms by (simp add: program_def load_settings_Inr)

lemma program_seeds:
  assumes "Settings w = Inr cfg" "create_engine w (DATABASE_URL cfg) = None"
    "parse_arguments w argv = Inr number'"
  shows "program w argv s
     = (case seed_users w cfg number' (snd (load_settings w s)) of
          None \<Rightarrow> None
        | Some (None, s2) \<Rightarrow> Some (0, s2)
        | Some (Some e, s2) \<Rightarrow> Some (1, s2))"
  using assms by (simp add: program_def load_settings_Inr)

lemma program_usage:
  assumes "Settings w = Inr cfg" "create_engine w (DATABASE_URL cfg) = None"
    "parse_arguments w argv = Inl code"
  shows "program w argv s = Some (code, snd (load_settings w s))"
  using assms by (simp add: program_def load_settings_Inr)

text \<open>
  Claim C6. The parser declares one argument, the flag for the count with the option
  strings \<^verbatim>\<open>-n\<close> and \<^verbatim>\<open>--number\<close>. Without arguments the count is 10; the flag followed by a
  value without a leading dash gives what \<^verbatim>\<open>int\<close> makes of the value, and exit code 2 when
  \<^verbatim>\<open>int\<close> raises; the help flag gives exit code 0; an argument without a dash is not
  recognised, exit code 2. For every command line, as argparse reads it: when it meets no
  flag and nothing it does not recognise, the count is 10; when it meets the flag once,
  the count is what \<^verbatim>\<open>int\<close> makes of the value; and the parser leaves with no other code
  than 0 and 2, after the settings have loaded and before any store call. The exit code is
  1 when the settings do not load, and 1 when they load and \<^verbatim>\<open>create_engine\<close> raises; 0
  when \<^verbatim>\<open>seed_users\<close> returns; and 1, so not zero, when an exception leaves
  \<^verbatim>\<open>seed_users\<close>, which is what an exception of \<^verbatim>\<open>create_all\<close> does. An
  exception inside the \<^verbatim>\<open>try\<close> block is handled there: after a failed query, with a
  rollback and a close that work, the exit code is 0.
\<close>

theorem cli_and_exit_codes:
  "parse_arguments w [] = Inr 10
   \<and> (\<not> dashed v \<longrightarrow>
        parse_arguments w [''-n'', v] = (case py_int w v of None \<Rightarrow> Inl 2 | Some k \<Rightarrow> Inr k)
        \<and> parse_arguments w [''--number'', v]
            = (case py_int w v of None \<Rightarrow> Inl 2 | Some k \<Rightarrow> Inr k))
   \<and> parse_arguments w [''-h''] = Inl 0 \<and> parse_arguments w [''--help''] = Inl 0
   \<and> (\<not> dashed a \<longrightarrow> parse_arguments w [a] = Inl 2)
   \<and> (read_command_line w argv = ([], False) \<longrightarrow> parse_arguments w argv = Inr 10)
   \<and> (read_command_line w argv = ([Flag v], False) \<longrightarrow>
        parse_arguments w argv = (case py_int w v of None \<Rightarrow> Inl 2 | Some k \<Rightarrow> Inr k))
   \<and> (parse_arguments w argv = Inl code \<longrightarrow> code = 0 \<or> code = 2)
   \<and> (Settings w = Inl e \<longrightarrow> (\<exists>s'. program w argv s = Some (1, s')))
   \<and> (Settings w = Inr cfg \<and> create_engine w (DATABASE_URL cfg) = Some e \<longrightarrow>
        program w argv s = Some (1, snd (load_settings w s)))
   \<and> (Settings w = Inr cfg \<and> create_engine w (DATABASE_URL cfg) = None
        \<and> parse_arguments w argv = Inl code \<longrightarrow>
        program w argv s = Some (code, snd (load_settings w s)))
   \<and> (Settings w = Inr cfg \<and> create_engine w (DATABASE_URL cfg) = None
        \<and> parse_arguments w argv = Inr number' \<longrightarrow>
        (seed_users w cfg number' (snd (load_settings w s)) = Some (None, s') \<longrightarrow>
           program w argv s = Some (0, s'))
        \<and> (seed_users w cfg number' (snd (load_settings w s)) = Some (Some e', s') \<longrightarrow>
           program w argv s = Some (1, s'))
        \<and> (fault w CreateAll = Some e' \<longrightarrow> (\<exists>s'. program w argv s = Some (1, s')))
        \<and> (fault w CreateAll = None \<and> fault w QueryEmails = Some e' \<and> fault w Rollback = None
             \<and> fault w Close = None \<longrightarrow> (\<exists>s'. program w argv s = Some (0, s'))))"
proof -
  have p1: "parse_arguments w [] = Inr 10"
    by (simp add: parse_arguments_def read_command_line_def)
  have p2: "\<not> dashed v \<longrightarrow>
        parse_arguments w [''-n'', v] = (case py_int w v of None \<Rightarrow> Inl 2 | Some k \<Rightarrow> Inr k)
        \<and> parse_arguments w [''--number'', v]
            = (case py_int w v of None \<Rightarrow> Inl 2 | Some k \<Rightarrow> Inr k)"
    using parse_arguments_flag[of v "''-n''" w] parse_arguments_flag[of v "''--number''" w]
    by simp
  have p3: "parse_arguments w [''-h''] = Inl 0"
    by (simp add: parse_arguments_def read_command_line_def)
  have p3': "parse_arguments w [''--help''] = Inl 0"
    by (simp add: parse_arguments_def read_command_line_def)
  have p4: "\<not> dashed a \<longrightarrow> parse_arguments w [a] = Inl 2"
  proof (rule impI)
    assume d: "\<not> dashed a"
    then have "a \<noteq> ''-h''" "a \<noteq> ''--help''" by (auto simp: dashed_def)
    with d show "parse_arguments w [a] = Inl 2"
      by (simp add: parse_arguments_def read_command_line_def)
  qed
  have p5: "read_command_line w argv = ([], False) \<longrightarrow> parse_arguments w argv = Inr 10"
    by (simp add: parse_arguments_def)
  have p5': "read_command_line w argv = ([Flag v], False) \<longrightarrow>
        parse_arguments w argv = (case py_int w v of None \<Rightarrow> Inl 2 | Some k \<Rightarrow> Inr k)"
    by (simp add: parse_arguments_def split: option.split)
  have p5'': "parse_arguments w argv = Inl code \<longrightarrow> code = 0 \<or> code = 2"
    using parse_arguments_code[of w argv code] by (rule impI)
  have p6: "Settings w = Inl e \<longrightarrow> (\<exists>s'. program w argv s = Some (1, s'))"
    using program_config_error[of w e argv s] by simp
  have p6': "Settings w = Inr cfg \<and> create_engine w (DATABASE_URL cfg) = Some e \<longrightarrow>
        program w argv s = Some (1, snd (load_settings w s))"
    using program_no_engine[of w cfg e argv s] by blast
  have p7: "Settings w = Inr cfg \<and> create_engine w (DATABASE_URL cfg) = None
        \<and> parse_arguments w argv = Inl code \<longrightarrow>
        program w argv s = Some (code, snd (load_settings w s))"
    using program_usage[of w cfg argv code s] by blast
  have p8: "Settings w = Inr cfg \<and> create_engine w (DATABASE_URL cfg) = None
        \<and> parse_arguments w argv = Inr number' \<longrightarrow>
        (seed_users w cfg number' (snd (load_settings w s)) = Some (None, s') \<longrightarrow>
           program w argv s = Some (0, s'))
        \<and> (seed_users w cfg number' (snd (load_settings w s)) = Some (Some e', s') \<longrightarrow>
           program w argv s = Some (1, s'))
        \<and> (fault w CreateAll = Some e' \<longrightarrow> (\<exists>s'. program w argv s = Some (1, s')))
        \<and> (fault w CreateAll = None \<and> fault w QueryEmails = Some e' \<and> fault w Rollback = None
             \<and> fault w Close = None \<longrightarrow> (\<exists>s'. program w argv s = Some (0, s')))"
  proof (rule impI)
    assume a: "Settings w = Inr cfg \<and> create_engine w (DATABASE_URL cfg) = None
        \<and> parse_arguments w argv = Inr number'"
    note pr = program_seeds[OF a[THEN conjunct1] a[THEN conjunct2, THEN conjunct1]
                a[THEN conjunct2, THEN conjunct2], of s]
    have q1: "seed_users w cfg number' (snd (load_settings w s)) = Some (None, s') \<longrightarrow>
           program w argv s = Some (0, s')"
      using pr by simp
    have q2: "seed_users w cfg number' (snd (load_settings w s)) = Some (Some e', s') \<longrightarrow>
           program w argv s = Some (1, s')"
      using pr by simp
    have q3: "fault w CreateAll = Some e' \<longrightarrow> (\<exists>s'. program w argv s = Some (1, s'))"
    proof (rule impI)
      assume "fault w CreateAll = Some e'"
      from seed_users_create_fault[OF this, of cfg number' "snd (load_settings w s)"] pr
      show "\<exists>s'. program w argv s = Some (1, s')" by simp
    qed
    have q4: "fault w CreateAll = None \<and> fault w QueryEmails = Some e' \<and> fault w Rollback = None
             \<and> fault w Close = None \<longrightarrow> (\<exists>s'. program w argv s = Some (0, s'))"
    proof (rule impI)
      assume f: "fault w CreateAll = None \<and> fault w QueryEmails = Some e' \<and> fault w Rollback = None
             \<and> fault w Close = None"
      from f have f4: "fault w CreateAll = None" "fault w QueryEmails = Some e'"
        "fault w Rollback = None" "fault w Close = None"
        by simp_all
      from seed_users_query_fault[OF f4, of cfg number' "snd (load_settings w s)"]
      obtain s2 where "seed_users w cfg number' (snd (load_settings w s)) = Some (None, s2)" ..
      with pr show "\<exists>s'. program w argv s = Some (0, s')" by simp
    qed
    show "(seed_users w cfg number' (snd (load_settings w s)) = Some (None, s') \<longrightarrow>
           program w argv s = Some (0, s'))
        \<and> (seed_users w cfg number' (snd (load_settings w s)) = Some (Some e', s') \<longrightarrow>
           program w argv s = Some (1, s'))
        \<and> (fault w CreateAll = Some e' \<longrightarrow> (\<exists>s'. program w argv s = Some (1, s')))
        \<and> (fault w CreateAll = None \<and> fault w QueryEmails = Some e' \<and> fault w Rollback = None
             \<and> fault w Close = None \<longrightarrow> (\<exists>s'. program w argv s = Some (0, s')))"
      by (rule conjI[OF q1 conjI[OF q2 conjI[OF q3 q4]]])
  qed
  show ?thesis
    by (rule conjI[OF p1 conjI[OF p2 conjI[OF p3 conjI[OF p3' conjI[OF p4 conjI[OF p5
          conjI[OF p5' conjI[OF p5'' conjI[OF p6 conjI[OF p6' conjI[OF p7 p8]]]]]]]]]]])
qed

lemma demo_create_fault_Settings: "Settings demo_create_fault = Inr demo_cfg"
  by code_simp

lemma demo_query_fault_Settings: "Settings demo_query_fault = Inr demo_cfg"
  by code_simp

lemma demo_no_driver_Settings: "Settings demo_no_driver = Inr demo_cfg"
  by code_simp

lemma demo_missing_Settings:
  "Settings demo_missing = Inl (ValidationError ''Settings'' (settings_errors demo_missing))"
  by code_simp

lemma demo_program_run:
  "seed_users demo_env demo_cfg 2 (snd (load_settings demo_env demo_seeded))
     = Some (None, demo_final\<lparr>stdout :=
          ''Loaded settings: db_host=localhost, db_user=seeder, salt=pepp****''
          # stdout demo_final\<rparr>)"
  by code_simp

lemma demo_read:
  "read_command_line demo_env [''-n'', ''3'', ''-h''] = ([Flag ''3'', Help], False)"
  "read_command_line demo_env [''-n'', ''-2''] = ([Flag ''-2''], False)"
  "read_command_line demo_env [''-x'', ''2''] = ([], True)"
  by code_simp+

lemma demo_py_int:
  "py_int demo_env ''2'' = Some 2" "py_int demo_env ''two'' = None"
  "py_int demo_env ''-2'' = Some (- 2)"
  by code_simp+

lemma demo_help_last: "parse_arguments demo_env [''-n'', ''3'', ''-h''] = Inl 0"
  by code_simp

lemma demo_unrecognized: "parse_arguments demo_env [''-x'', ''2''] = Inl 2"
  by code_simp

theorem cli_and_exit_codes_witness:
  "parse_arguments demo_env [''-n'', ''2''] = Inr 2
   \<and> parse_arguments demo_env [''--number'', ''two''] = Inl 2
   \<and> parse_arguments demo_env [''bogus''] = Inl 2
   \<and> parse_arguments demo_env [''-n'', ''-2''] = Inr (- 2)
   \<and> (parse_arguments demo_env [''-x'', ''2''] = Inl 2 \<and> ((2 :: int) = 0 \<or> (2 :: int) = 2))
   \<and> (\<exists>s'. program demo_missing [] demo_state = Some (1, s'))
   \<and> program demo_no_driver [] demo_state = Some (1, snd (load_settings demo_no_driver demo_state))
   \<and> program demo_env [''-n'', ''3'', ''-h''] demo_state
       = Some (0, snd (load_settings demo_env demo_state))
   \<and> program demo_env [''-n'', ''2''] demo_seeded
       = Some (0, demo_final\<lparr>stdout :=
            ''Loaded settings: db_host=localhost, db_user=seeder, salt=pepp****''
            # stdout demo_final\<rparr>)
   \<and> (\<exists>s'. program demo_create_fault [] demo_state = Some (1, s'))
   \<and> (\<exists>s'. program demo_query_fault [] demo_state = Some (0, s'))"
proof -
  have d: "\<not> dashed ''2''" "\<not> dashed ''two''" "\<not> dashed ''bogus''"
    by (simp_all add: dashed_def)
  note T = cli_and_exit_codes
  have c1: "parse_arguments demo_env [''-n'', ''2''] = Inr 2"
    using T[where w = demo_env and v = "''2''", THEN conjunct2, THEN conjunct1, THEN mp, OF d(1),
            THEN conjunct1]
    by (simp add: demo_py_int)
  have c2: "parse_arguments demo_env [''--number'', ''two''] = Inl 2"
    using T[where w = demo_env and v = "''two''", THEN conjunct2, THEN conjunct1, THEN mp, OF d(2),
            THEN conjunct2]
    by (simp add: demo_py_int)
  note c3 = T[where w = demo_env and a = "''bogus''", THEN conjunct2, THEN conjunct2,
              THEN conjunct2, THEN conjunct2, THEN conjunct1, THEN mp, OF d(3)]
  have c4: "parse_arguments demo_env [''-n'', ''-2''] = Inr (- 2)"
    using T[where w = demo_env and argv = "[''-n'', ''-2'']" and v = "''-2''",
            THEN conjunct2, THEN conjunct2, THEN conjunct2, THEN conjunct2, THEN conjunct2,
            THEN conjunct2, THEN conjunct1, THEN mp, OF demo_read(2)]
    by (simp add: demo_py_int)
  note c5 = conjI[OF demo_unrecognized
              T[where w = demo_env and argv = "[''-x'', ''2'']" and code = 2,
                THEN conjunct2, THEN conjunct2, THEN conjunct2, THEN conjunct2, THEN conjunct2,
                THEN conjunct2, THEN conjunct2, THEN conjunct1, THEN mp, OF demo_unrecognized]]
  note c6 = T[where w = demo_missing and argv = "[]" and s = demo_state,
     THEN conjunct2, THEN conjunct2, THEN conjunct2, THEN conjunct2, THEN conjunct2,
     THEN conjunct2, THEN conjunct2, THEN conjunct2, THEN conjunct1, THEN mp,
     OF demo_missing_Settings]
  have g: "create_engine demo_env (DATABASE_URL demo_cfg) = None"
    by (simp add: demo_env_def)
  have "create_engine demo_no_driver (DATABASE_URL demo_cfg)
           = Some (OtherError ''No module named psycopg2'')"
    by (simp add: demo_no_driver_def)
  with demo_no_driver_Settings
  have h6': "Settings demo_no_driver = Inr demo_cfg
       \<and> create_engine demo_no_driver (DATABASE_URL demo_cfg)
           = Some (OtherError ''No module named psycopg2'')"
    by (rule conjI)
  note c6' = T[where w = demo_no_driver and argv = "[]" and s = demo_state and cfg = demo_cfg
                 and e = "OtherError ''No module named psycopg2''",
     THEN conjunct2, THEN conjunct2, THEN conjunct2, THEN conjunct2, THEN conjunct2,
     THEN conjunct2, THEN conjunct2, THEN conjunct2, THEN conjunct2, THEN conjunct1, THEN mp,
     OF h6']
  note c7 = T[where w = demo_env and argv = "[''-n'', ''3'', ''-h'']" and code = 0
                and cfg = demo_cfg and s = demo_state,
     THEN conjunct2, THEN conjunct2, THEN conjunct2, THEN conjunct2, THEN conjunct2,
     THEN conjunct2, THEN conjunct2, THEN conjunct2, THEN conjunct2, THEN conjunct2,
     THEN conjunct1, THEN mp,
     OF conjI[OF demo_Settings conjI[OF g demo_help_last]]]
  note c8 = T[where w = demo_env and argv = "[''-n'', ''2'']" and s = demo_seeded
                and cfg = demo_cfg and number' = 2,
     THEN conjunct2, THEN conjunct2, THEN conjunct2, THEN conjunct2, THEN conjunct2,
     THEN conjunct2, THEN conjunct2, THEN conjunct2, THEN conjunct2, THEN conjunct2,
     THEN conjunct2, THEN mp,
     OF conjI[OF demo_Settings conjI[OF g c1]], THEN conjunct1, THEN mp, OF demo_program_run]
  have "create_engine demo_create_fault (DATABASE_URL demo_cfg) = None
            \<and> parse_arguments demo_create_fault [] = Inr 10"
    by (simp add: parse_arguments_def read_command_line_def demo_create_fault_def demo_env_def)
  with demo_create_fault_Settings
  have h9: "Settings demo_create_fault = Inr demo_cfg
            \<and> create_engine demo_create_fault (DATABASE_URL demo_cfg) = None
            \<and> parse_arguments demo_create_fault [] = Inr 10"
    by (rule conjI)
  have f9: "fault demo_create_fault CreateAll = Some (OtherError ''connection refused'')"
    by (simp add: demo_create_fault_def)
  note c9 = T[where w = demo_create_fault and argv = "[]" and s = demo_state and cfg = demo_cfg
                and number' = 10,
     THEN conjunct2, THEN conjunct2, THEN conjunct2, THEN conjunct2, THEN conjunct2,
     THEN conjunct2, THEN conjunct2, THEN conjunct2, THEN conjunct2, THEN conjunct2,
     THEN conjunct2, THEN mp,
     OF h9, THEN conjunct2, THEN conjunct2, THEN conjunct1, THEN mp, OF f9]
  have "create_engine demo_query_fault (DATABASE_URL demo_cfg) = None
            \<and> parse_arguments demo_query_fault [] = Inr 10"
    by (simp add: parse_arguments_def read_command_line_def demo_query_fault_def demo_env_def)
  with demo_query_fault_Settings
  have h10: "Settings demo_query_fault = Inr demo_cfg
            \<and> create_engine demo_query_fault (DATABASE_URL demo_cfg) = None
            \<and> parse_arguments demo_query_fault [] = Inr 10"
    by (rule conjI)
  have f10: "fault demo_query_fault CreateAll = None
            \<and> fault demo_query_fault QueryEmails = Some (OtherError ''connection lost'')
            \<and> fault demo_query_fault Rollback = None \<and> fault demo_query_fault Close = None"
    by (simp add: demo_query_fault_def)
  note c10 = T[where w = demo_query_fault and argv = "[]" and s = demo_state and cfg = demo_cfg
                 and number' = 10,
     THEN conjunct2, THEN conjunct2, THEN conjunct2, THEN conjunct2, THEN conjunct2,
     THEN conjunct2, THEN conjunct2, THEN conjunct2, THEN conjunct2, THEN conjunct2,
     THEN conjunct2, THEN mp,
     OF h10, THEN conjunct2, THEN conjunct2, THEN conjunct2, THEN mp, OF f10]
  show ?thesis
    by (rule conjI[OF c1 conjI[OF c2 conjI[OF c3 conjI[OF c4 conjI[OF c5 conjI[OF c6
          conjI[OF c6' conjI[OF c7 conjI[OF c8 conjI[OF c9 c10]]]]]]]]]])
qed

section \<open>The salt in the startup line\<close>









section \<open>The hash\<close>

text \<open>What the script itself does to a password: the salt is appended to it, and the result
  goes to \<^verbatim>\<open>pwd_context.hash\<close>. What bcrypt makes of it is not part of the script.\<close>

theorem hash_password_appends_salt:
  "hash_password w k plain_password salt' = pwd_context_hash w k (plain_password @ salt')"
  by (simp add: hash_password_def)

end
